(* ===== verification/Go_Prelude.thy ===== *)
theory Go_Prelude
  imports Complex_Main "HOL-Library.Multiset" "HOL-Library.Word" "HOL-Library.Sublist"
begin

text \<open>
  Shared vocabulary of the development: how the Go types and the parts of the Go standard
  library that the gateway uses are read in HOL.

  \<^item> \<open>time.Time\<close> is the number of nanoseconds since Go's zero time, so that
    \<open>time.Time{}\<close> is 0 and \<open>IsZero\<close> is comparison with 0; \<open>time.Duration\<close> is a
    number of nanoseconds. Every \<open>time.Now()\<close> of the code is an argument of the definition.
  \<^item> \<open>float64\<close> is idealised as \<^typ>\<open>real\<close>: rounding, infinities and NaN are not modelled.
  \<^item> \<open>int\<close> and \<open>int64\<close> counters are \<^typ>\<open>int\<close>; where the code relies on wrap-around the
    word type of the right width is used instead.
  \<^item> A Go map is a partial function, a slice is a list, a string is its list of bytes.
  \<^item> \<open>math/rand\<close> is a source of draws that the environment fixes; every function that draws
    returns the remaining source.
\<close>

section \<open>Simplification rule collections\<close>

text \<open>
  \<open>frame_simps\<close> collects the facts that an operation leaves a field alone; \<open>inv_intros\<close>
  the facts that an operation keeps its component's invariant.
\<close>

named_theorems frame_simps
named_theorems inv_intros

section \<open>Numbers and time\<close>

type_synonym float64 = real
type_synonym go_time = int
type_synonym go_duration = int

abbreviation (input) nanosecond :: go_duration where
  "nanosecond \<equiv> 1"

abbreviation (input) microsecond :: go_duration where
  "microsecond \<equiv> 1000"

abbreviation (input) millisecond :: go_duration where
  "millisecond \<equiv> 1000000"

abbreviation (input) second :: go_duration where
  "second \<equiv> 1000000000"

abbreviation (input) minute :: go_duration where
  "minute \<equiv> 60000000000"

abbreviation (input) hour :: go_duration where
  "hour \<equiv> 3600000000000"

abbreviation (input) zero_time :: go_time where
  "zero_time \<equiv> 0"

text \<open>Go's integer division and remainder truncate towards zero.\<close>

definition go_div :: "int \<Rightarrow> int \<Rightarrow> int" where
  "go_div a b = sgn a * sgn b * (\<bar>a\<bar> div \<bar>b\<bar>)"

definition go_mod :: "int \<Rightarrow> int \<Rightarrow> int" where
  "go_mod a b = a - b * go_div a b"

lemma go_div_nonneg [simp]:
  assumes "0 \<le> a" and "0 < b"
  shows "go_div a b = a div b"
proof (cases "a = 0")
  case True
  then show ?thesis by (simp add: go_div_def)
next
  case False
  with assms show ?thesis by (simp add: go_div_def)
qed

lemma go_mod_nonneg [simp]: "0 \<le> a \<Longrightarrow> 0 < b \<Longrightarrow> go_mod a b = a mod b"
  by (simp add: go_mod_def minus_mult_div_eq_mod)

lemma go_div_neg: "go_div (- a) b = - go_div a b"
  by (simp add: go_div_def sgn_minus)

text \<open>The value of a signed 64-bit integer after an operation that may overflow.\<close>

definition wrap64 :: "int \<Rightarrow> int" where
  "wrap64 i = (i + 2 ^ 63) mod 2 ^ 64 - 2 ^ 63"

lemma wrap64_small: "- (2 ^ 63) \<le> i \<Longrightarrow> i < 2 ^ 63 \<Longrightarrow> wrap64 i = i"
  by (simp add: wrap64_def)

text \<open>
  \<open>Time.Unix\<close>: the seconds since 1970, which are 62135596800 seconds after the zero time; the
  time's own seconds are the floor of its nanoseconds. \<open>Duration.Milliseconds\<close> and
  \<open>Duration.Seconds\<close> divide by the unit, the first in integers.
\<close>

definition Unix :: "go_time \<Rightarrow> int" where
  "Unix t = t div second - 62135596800"

definition Milliseconds :: "go_duration \<Rightarrow> int" where
  "Milliseconds d = go_div d millisecond"

definition Seconds :: "go_duration \<Rightarrow> float64" where
  "Seconds d = of_int d / 1000000000"

lemma Unix_mono: "s \<le> t \<Longrightarrow> Unix s \<le> Unix t"
  by (simp add: Unix_def zdiv_mono1)

lemma Seconds_nonneg [simp]: "0 \<le> d \<Longrightarrow> 0 \<le> Seconds d"
  by (simp add: Seconds_def)

lemma Seconds_diff_add: "Seconds (b - a) + Seconds (c - b) = Seconds (c - a)"
  by (simp add: Seconds_def field_simps)


section \<open>Slices\<close>

text \<open>
  \<open>append(xs[:i], xs[i+1:]...)\<close> at the first index whose element satisfies a test, followed
  by \<open>break\<close>: the idiom with which the code deletes one element.
\<close>

fun remove_first :: "('a \<Rightarrow> bool) \<Rightarrow> 'a list \<Rightarrow> 'a list" where
  "remove_first P [] = []"
| "remove_first P (x # xs) = (if P x then xs else x # remove_first P xs)"

lemma remove_first_id [simp]: "\<forall>x\<in>set xs. \<not> P x \<Longrightarrow> remove_first P xs = xs"
  by (induction xs) auto

lemma set_remove_first_subset: "set (remove_first P xs) \<subseteq> set xs"
  by (induction xs) auto

lemma distinct_remove_first [simp]: "distinct xs \<Longrightarrow> distinct (remove_first P xs)"
  using set_remove_first_subset by (induction xs) fastforce+

lemma remove_first_filter:
  "distinct (map f xs) \<Longrightarrow> remove_first (\<lambda>x. f x = a) xs = filter (\<lambda>x. f x \<noteq> a) xs"
proof (induction xs)
  case (Cons x xs)
  show ?case
  proof (cases "f x = a")
    case True
    with Cons.prems have "\<forall>y\<in>set xs. f y \<noteq> a" by (auto simp: image_iff)
    with True show ?thesis by (simp add: filter_True)
  next
    case False
    with Cons show ?thesis by simp
  qed
qed simp

lemma distinct_map_remove_first [simp]:
  "distinct (map f xs) \<Longrightarrow> distinct (map f (remove_first P xs))"
proof (induction xs)
  case (Cons x xs)
  then show ?case
    using set_remove_first_subset [of P xs] by (auto simp: image_iff)
qed simp

text \<open>
  A rolling window of at most \<open>n\<close> samples: the oldest is dropped once the window is full.
\<close>

definition roll :: "nat \<Rightarrow> 'a list \<Rightarrow> 'a \<Rightarrow> 'a list" where
  "roll n xs v = (if length xs < n then xs @ [v] else tl xs @ [v])"

lemma length_roll: "0 < n \<Longrightarrow> length xs \<le> n \<Longrightarrow> length (roll n xs v) \<le> n"
  by (cases xs) (auto simp: roll_def)

lemma last_roll [simp]: "last (roll n xs v) = v"
  by (simp add: roll_def)

lemma roll_not_Nil [simp]: "roll n xs v \<noteq> []"
  by (simp add: roll_def)

lemma set_roll: "set (roll n xs v) \<subseteq> insert v (set xs)"
  by (cases xs) (auto simp: roll_def)

section \<open>Random draws\<close>

text \<open>
  The state of a \<open>*rand.Rand\<close>: the integers and the fractions it will still deliver. An
  exhausted list keeps delivering 0, so that every function stays total; any finite
  behaviour of the generator is some value of this type.
\<close>

record rng =
  rng_ints :: "nat list"
  rng_fracs :: "float64 list"

text \<open>
  \<open>Intn(n)\<close> is some integer in \<open>[0,n)\<close> and panics for \<open>n \<le> 0\<close>; \<open>Float64()\<close> is some
  fraction in \<open>[0,1)\<close>.
\<close>

definition randIntn :: "nat \<Rightarrow> rng \<Rightarrow> nat \<times> rng" where
  "randIntn n r =
     (case rng_ints r of [] \<Rightarrow> (0, r) | k # ks \<Rightarrow> (k mod n, r\<lparr>rng_ints := ks\<rparr>))"

definition randFloat64 :: "rng \<Rightarrow> float64 \<times> rng" where
  "randFloat64 r =
     (case rng_fracs r of [] \<Rightarrow> (0, r) | x # xs \<Rightarrow> (frac x, r\<lparr>rng_fracs := xs\<rparr>))"

lemma randIntn_bound: "0 < n \<Longrightarrow> randIntn n r = (k, r') \<Longrightarrow> k < n"
  by (auto simp: randIntn_def split: list.splits)

lemma randIntn_fst_bound [simp]: "0 < n \<Longrightarrow> fst (randIntn n r) < n"
  by (auto simp: randIntn_def split: list.splits)

lemma randFloat64_bounds: "randFloat64 r = (x, r') \<Longrightarrow> 0 \<le> x \<and> x < 1"
  by (auto simp: randFloat64_def frac_lt_1 split: list.splits)

text \<open>
  \<open>Shuffle\<close>: the Fisher-Yates loop of \<open>math/rand\<close>, from the last index down to 1, each time
  swapping with an index drawn from the part not yet fixed.
\<close>

definition swap_at :: "nat \<Rightarrow> nat \<Rightarrow> 'a list \<Rightarrow> 'a list" where
  "swap_at i j xs = (xs[i := xs ! j])[j := xs ! i]"

fun shuffle_from :: "nat \<Rightarrow> 'a list \<Rightarrow> rng \<Rightarrow> 'a list \<times> rng" where
  "shuffle_from 0 xs r = (xs, r)"
| "shuffle_from (Suc i) xs r =
     (let (j, r') = randIntn (Suc (Suc i)) r in shuffle_from i (swap_at (Suc i) j xs) r')"

definition randShuffle :: "'a list \<Rightarrow> rng \<Rightarrow> 'a list \<times> rng" where
  "randShuffle xs r = shuffle_from (length xs - 1) xs r"

lemma length_swap_at [simp]: "length (swap_at i j xs) = length xs"
  by (simp add: swap_at_def)

lemma mset_swap_at: "i < length xs \<Longrightarrow> j < length xs \<Longrightarrow> mset (swap_at i j xs) = mset xs"
  by (simp add: swap_at_def mset_swap)

lemma mset_shuffle_from:
  "i < length xs \<Longrightarrow> shuffle_from i xs r = (ys, r') \<Longrightarrow> mset ys = mset xs"
proof (induction i arbitrary: xs r)
  case (Suc i)
  obtain j r1 where d: "randIntn (Suc (Suc i)) r = (j, r1)" by fastforce
  then have "j < length xs"
    using randIntn_bound [OF _ d] Suc.prems(1) by simp
  moreover from Suc.prems d have "shuffle_from i (swap_at (Suc i) j xs) r1 = (ys, r')"
    by simp
  ultimately show ?case
    using Suc.IH [of "swap_at (Suc i) j xs" r1] Suc.prems(1) by (simp add: mset_swap_at)
qed simp

lemma randShuffle_mset: "randShuffle xs r = (ys, r') \<Longrightarrow> mset ys = mset xs"
  using mset_shuffle_from [of "length xs - 1" xs r ys r']
  by (cases "xs = []") (auto simp: randShuffle_def)

lemma randShuffle_set: "randShuffle xs r = (ys, r') \<Longrightarrow> set ys = set xs"
  by (metis randShuffle_mset set_mset_mset)


section \<open>Strings\<close>

text \<open>\<open>strconv.FormatInt(i, 10)\<close>.\<close>

fun decimal :: "nat \<Rightarrow> string" where
  "decimal n =
     (if n < 10 then [char_of (48 + n)] else decimal (n div 10) @ [char_of (48 + n mod 10)])"

declare decimal.simps [simp del]

definition FormatInt :: "int \<Rightarrow> string" where
  "FormatInt i = (if i < 0 then CHR ''-'' # decimal (nat (- i)) else decimal (nat i))"

text \<open>Reading the digits back shows that the printed form determines the number.\<close>

definition undecimal :: "string \<Rightarrow> nat" where
  "undecimal ds = foldl (\<lambda>a c. 10 * a + (of_char c - 48)) 0 ds"

lemma undecimal_decimal [simp]: "undecimal (decimal n) = n"
proof (induction n rule: decimal.induct)
  case (1 n)
  show ?case
  proof (cases "n < 10")
    case True
    then show ?thesis by (simp add: decimal.simps [of n] undecimal_def)
  next
    case False
    with "1" have "undecimal (decimal (n div 10)) = n div 10" by simp
    with False show ?thesis
      by (simp add: decimal.simps [of n] undecimal_def)
  qed
qed

lemma decimal_digits: "c \<in> set (decimal n) \<Longrightarrow> 48 \<le> (of_char c :: nat) \<and> (of_char c :: nat) < 58"
proof (induction n rule: decimal.induct)
  case (1 n)
  then show ?case
    by (cases "n < 10") (auto simp: decimal.simps [of n])
qed

lemma decimal_inject [simp]: "decimal m = decimal n \<longleftrightarrow> m = n"
  using undecimal_decimal by metis

lemma decimal_not_Nil [simp]: "decimal n \<noteq> []"
  by (subst decimal.simps) simp

lemma decimal_not_minus: "decimal n \<noteq> CHR ''-'' # s"
proof
  assume "decimal n = CHR ''-'' # s"
  then have "48 \<le> (of_char CHR ''-'' :: nat)"
    using decimal_digits [of "CHR ''-''" n] by simp
  then show False by simp
qed

lemma FormatInt_inject [simp]: "FormatInt i = FormatInt j \<longleftrightarrow> i = j"
  by (cases "i < 0"; cases "j < 0")
     (auto simp: FormatInt_def decimal_not_minus decimal_not_minus [symmetric])

lemma FormatInt_not_Nil [simp]: "FormatInt i \<noteq> []"
  by (simp add: FormatInt_def)

text \<open>
  \<open>strings.TrimSpace\<close> removes leading and trailing white space as Unicode defines it. On
  bytes, a white-space character is one of six ASCII bytes or the UTF-8 encoding of one of
  U+0085, U+00A0, U+1680, U+2000 to U+200A, U+2028, U+2029, U+202F, U+205F and U+3000.
\<close>

definition space_encodings :: "string list" where
  "space_encodings =
     [[CHR 0x09], [CHR 0x0A], [CHR 0x0B], [CHR 0x0C], [CHR 0x0D], [CHR 0x20],
      [CHR 0xC2, CHR 0x85], [CHR 0xC2, CHR 0xA0], [CHR 0xE1, CHR 0x9A, CHR 0x80]]
     @ map (\<lambda>b. [CHR 0xE2, CHR 0x80, char_of b]) ([128 ..< 139] @ [168, 169, 175 :: nat])
     @ [[CHR 0xE2, CHR 0x81, CHR 0x9F], [CHR 0xE3, CHR 0x80, CHR 0x80]]"

function strip_prefixes :: "string list \<Rightarrow> string \<Rightarrow> string" where
  "strip_prefixes encs s =
     (case find (\<lambda>e. e \<noteq> [] \<and> prefix e s) encs of
        None \<Rightarrow> s
      | Some e \<Rightarrow> strip_prefixes encs (drop (length e) s))"
  by pat_completeness auto
termination
proof (relation "measure (\<lambda>(encs, s). length s)", goal_cases)
  case (2 encs s e)
  then have "e \<noteq> []" and "prefix e s" by (auto simp: find_Some_iff)
  then show ?case by (cases e) (auto simp: prefix_def)
qed simp

declare strip_prefixes.simps [simp del]

definition TrimSpace :: "string \<Rightarrow> string" where
  "TrimSpace s =
     rev (strip_prefixes (map rev space_encodings)
       (rev (strip_prefixes space_encodings s)))"

text \<open>Printable ASCII has nothing to trim.\<close>

lemma strip_prefixes_id:
  assumes "\<forall>e\<in>set encs. e \<noteq> [] \<longrightarrow> hd e \<notin> set s"
  shows "strip_prefixes encs s = s"
proof -
  have "find (\<lambda>e. e \<noteq> [] \<and> prefix e s) encs = None"
    using assms by (auto simp: find_None_iff prefix_def neq_Nil_conv)
  then show ?thesis by (simp add: strip_prefixes.simps)
qed

lemma TrimSpace_printable:
  assumes "\<forall>c\<in>set s. 32 < (of_char c :: nat) \<and> (of_char c :: nat) < 128"
  shows "TrimSpace s = s"
proof -
  have 1: "\<forall>e\<in>set space_encodings. (of_char (hd e) :: nat) \<le> 32 \<or> 128 \<le> (of_char (hd e) :: nat)"
    by (simp add: space_encodings_def)
  have 2: "\<forall>e\<in>set (map rev space_encodings). (of_char (hd e) :: nat) \<le> 32 \<or> 128 \<le> (of_char (hd e) :: nat)"
    by (auto simp: space_encodings_def)
  have "strip_prefixes encs s' = s'"
    if "\<forall>e\<in>set encs. (of_char (hd e) :: nat) \<le> 32 \<or> 128 \<le> (of_char (hd e) :: nat)" "set s' = set s" for encs s'
    using that assms by (intro strip_prefixes_id) fastforce
  from this [OF 1 refl] this [OF 2, of "rev s"] show ?thesis by (simp add: TrimSpace_def)
qed

text \<open>\<open>strings.Index(s, c)\<close> for a one-byte separator: the first position, or none.\<close>

fun IndexByte :: "string \<Rightarrow> char \<Rightarrow> nat option" where
  "IndexByte [] c = None"
| "IndexByte (x # xs) c = (if x = c then Some 0 else map_option Suc (IndexByte xs c))"

lemma IndexByte_Some_split: "IndexByte s c = Some i \<Longrightarrow> s = take i s @ c # drop (Suc i) s"
proof (induction s arbitrary: i)
  case (Cons x xs)
  then show ?case by (cases "x = c") auto
qed simp

end
