(* ===== verification/Adaptive_Limiter.thy ===== *)
theory Adaptive_Limiter
  imports Go_Prelude
begin

text \<open>
  The adaptive concurrency limiter of \<open>internal/resilience/adaptive_limiter.go\<close>: a limit that
  follows the ratio of the best to the average round-trip time, and the number of requests in
  flight.
\<close>

section \<open>State and operations\<close>

record AdaptiveLimiter =
  al_minLimit :: float64
  al_maxLimit :: float64
  al_alpha :: float64
  al_limit :: float64
  al_minRTT :: go_duration
  al_inflight :: int
  al_lastReset :: go_time
  al_rttSamples :: "go_duration list"
  al_maxSamples :: int
  al_resetInterval :: go_duration

definition NewAdaptiveLimiter :: "go_time \<Rightarrow> float64 \<Rightarrow> float64 \<Rightarrow> AdaptiveLimiter" where
  "NewAdaptiveLimiter now minLimit maxLimit =
     (let lo = (if minLimit < 1 then 1 else minLimit);
          hi = (if maxLimit < lo then lo else maxLimit)
      in \<lparr>al_minLimit = lo, al_maxLimit = hi, al_alpha = 1 / 10, al_limit = lo, al_minRTT = 0,
          al_inflight = 0, al_lastReset = now, al_rttSamples = [], al_maxSamples = 10,
          al_resetInterval = 5 * minute\<rparr>)"

definition al_TryAcquire :: "AdaptiveLimiter \<Rightarrow> bool \<times> AdaptiveLimiter" where
  "al_TryAcquire l =
     (if of_int (al_inflight l) \<ge> (of_int \<lceil>al_limit l\<rceil> :: float64) then (False, l)
      else (True, l\<lparr>al_inflight := al_inflight l + 1\<rparr>))"

text \<open>
  \<open>Acquire\<close> polls. Its schedule lists what happens at each failed attempt: the context is
  cancelled (\<^term>\<open>None\<close>), or ten milliseconds pass in which the other goroutines change the
  limiter by a function. The result is \<^term>\<open>Some True\<close> for a permit, \<^term>\<open>Some False\<close> for
  the context's error and \<^term>\<open>None\<close> while still waiting at the end of the schedule.
\<close>

fun al_Acquire ::
  "(AdaptiveLimiter \<Rightarrow> AdaptiveLimiter) option list \<Rightarrow> AdaptiveLimiter \<Rightarrow> bool option \<times> AdaptiveLimiter"
where
  "al_Acquire sched l =
     (case al_TryAcquire l of
        (True, l') \<Rightarrow> (Some True, l')
      | (False, l') \<Rightarrow>
          (case sched of
             [] \<Rightarrow> (None, l')
           | None # rest \<Rightarrow> (Some False, l')
           | Some others # rest \<Rightarrow> al_Acquire rest (others l')))"

declare al_Acquire.simps [simp del]

definition al_updateLimit :: "AdaptiveLimiter \<Rightarrow> AdaptiveLimiter" where
  "al_updateLimit l =
     (if al_rttSamples l = [] \<or> al_minRTT l \<le> 0 then l
      else let total = sum_list (al_rttSamples l);
               avgRTT = go_div total (int (length (al_rttSamples l)));
               gradient = of_int (al_minRTT l) / of_int avgRTT;
               buffer = sqrt (al_limit l);
               newLimit = al_limit l * gradient + buffer;
               l1 = l\<lparr>al_limit := al_limit l * (1 - al_alpha l) + newLimit * al_alpha l\<rparr>;
               l2 = (if al_limit l1 < al_minLimit l1 then l1\<lparr>al_limit := al_minLimit l1\<rparr> else l1)
           in if al_limit l2 > al_maxLimit l2 then l2\<lparr>al_limit := al_maxLimit l2\<rparr> else l2)"

text \<open>\<open>Release\<close> reads the clock twice: to test the interval and to restart it.\<close>

definition al_Release ::
  "go_time \<Rightarrow> go_time \<Rightarrow> go_duration \<Rightarrow> AdaptiveLimiter \<Rightarrow> AdaptiveLimiter" where
  "al_Release now now2 rtt l =
     (let l1 = l\<lparr>al_inflight := al_inflight l - 1\<rparr>;
          l2 = (if al_inflight l1 < 0 then l1\<lparr>al_inflight := 0\<rparr> else l1)
      in if rtt \<le> 0 then l2
         else let l3 = (if now - al_lastReset l2 > al_resetInterval l2
                        then l2\<lparr>al_minRTT := rtt, al_lastReset := now2\<rparr>
                        else if al_minRTT l2 \<le> 0 \<or> rtt < al_minRTT l2
                        then l2\<lparr>al_minRTT := rtt\<rparr> else l2);
                  l4 = l3\<lparr>al_rttSamples := al_rttSamples l3 @ [rtt]\<rparr>
              in if int (length (al_rttSamples l4)) \<ge> al_maxSamples l4
                 then (al_updateLimit l4)\<lparr>al_rttSamples := []\<rparr> else l4)"

definition al_Limit :: "AdaptiveLimiter \<Rightarrow> int" where
  "al_Limit l = \<lceil>al_limit l\<rceil>"

section \<open>Invariant\<close>

text \<open>
  The limit stays between its bounds, the samples are positive, so that their average is
  never 0, and no more requests are in flight than the largest limit allows.
\<close>

definition al_inv :: "AdaptiveLimiter \<Rightarrow> bool" where
  "al_inv l \<longleftrightarrow>
     1 \<le> al_minLimit l \<and> al_minLimit l \<le> al_limit l \<and> al_limit l \<le> al_maxLimit l \<and>
     0 \<le> al_inflight l \<and> al_inflight l \<le> \<lceil>al_maxLimit l\<rceil> \<and>
     (\<forall>r\<in>set (al_rttSamples l). 0 < r) \<and> int (length (al_rttSamples l)) < al_maxSamples l"

lemma al_inv_New: "al_inv (NewAdaptiveLimiter now lo hi)"
proof -
  have "0 \<le> \<lceil>x\<rceil>" if "1 \<le> x" for x :: real
    using that ceiling_mono [OF that] by simp
  then show ?thesis by (auto simp: al_inv_def NewAdaptiveLimiter_def Let_def)
qed

lemma al_inv_TryAcquire [inv_intros]: "al_inv l \<Longrightarrow> al_inv (snd (al_TryAcquire l))"
proof (cases "fst (al_TryAcquire l)")
  case True
  assume inv: "al_inv l"
  from True have "al_inflight l < \<lceil>al_limit l\<rceil>"
    by (auto simp: al_TryAcquire_def split: if_splits)
  moreover have "\<lceil>al_limit l\<rceil> \<le> \<lceil>al_maxLimit l\<rceil>"
    using inv by (intro ceiling_mono) (simp add: al_inv_def)
  ultimately show ?thesis using inv by (auto simp: al_inv_def al_TryAcquire_def)
qed (auto simp: al_TryAcquire_def split: if_splits)

lemma al_updateLimit_simps [simp]:
  "al_minLimit (al_updateLimit l) = al_minLimit l"
  "al_maxLimit (al_updateLimit l) = al_maxLimit l"
  "al_inflight (al_updateLimit l) = al_inflight l"
  "al_maxSamples (al_updateLimit l) = al_maxSamples l"
  by (auto simp: al_updateLimit_def Let_def)

lemma al_updateLimit_bounds:
  assumes "al_minLimit l \<le> al_limit l" and "al_limit l \<le> al_maxLimit l"
  shows "al_minLimit l \<le> al_limit (al_updateLimit l) \<and> al_limit (al_updateLimit l) \<le> al_maxLimit l"
  using assms by (auto simp: al_updateLimit_def Let_def)

text \<open>\<open>Release\<close> keeps the bounds, whatever sample it adds.\<close>

lemma al_TryAcquire_simps [simp]:
  "al_minLimit (snd (al_TryAcquire l)) = al_minLimit l"
  "al_maxLimit (snd (al_TryAcquire l)) = al_maxLimit l"
  by (auto simp: al_TryAcquire_def)

lemma al_Release_simps [simp]:
  "al_minLimit (al_Release now now2 rtt l) = al_minLimit l"
  "al_maxLimit (al_Release now now2 rtt l) = al_maxLimit l"
  "al_maxSamples (al_Release now now2 rtt l) = al_maxSamples l"
  "al_inflight (al_Release now now2 rtt l) = max 0 (al_inflight l - 1)"
  by (auto simp: al_Release_def Let_def)

lemma al_Release_limit:
  assumes "al_minLimit l \<le> al_limit l" and "al_limit l \<le> al_maxLimit l"
  shows "al_minLimit l \<le> al_limit (al_Release now now2 rtt l) \<and>
         al_limit (al_Release now now2 rtt l) \<le> al_maxLimit l"
proof -
  have upd: "al_minLimit l \<le> al_limit (al_updateLimit l') \<and> al_limit (al_updateLimit l') \<le> al_maxLimit l"
    if "al_minLimit l' = al_minLimit l" "al_maxLimit l' = al_maxLimit l" "al_limit l' = al_limit l" for l'
    using al_updateLimit_bounds [of l'] assms that by simp
  show ?thesis using assms by (simp add: al_Release_def Let_def upd)
qed

lemma al_Release_samples:
  "al_rttSamples (al_Release now now2 rtt l) =
     (if rtt \<le> 0 then al_rttSamples l
      else if int (length (al_rttSamples l)) + 1 \<ge> al_maxSamples l then []
      else al_rttSamples l @ [rtt])"
  by (auto simp: al_Release_def Let_def)

lemma al_inv_Release [inv_intros]:
  assumes "al_inv l"
  shows "al_inv (al_Release now now2 rtt l)"
proof -
  have "0 < al_maxSamples l" using assms by (simp add: al_inv_def)
  with assms al_Release_limit [of l now now2 rtt] show ?thesis
    by (auto simp: al_inv_def al_Release_samples)
qed

lemma al_inv_Acquire:
  assumes "al_inv l" and "\<forall>f. Some f \<in> set sched \<longrightarrow> (\<forall>l. al_inv l \<longrightarrow> al_inv (f l))"
  shows "al_inv (snd (al_Acquire sched l))"
  using assms
proof (induction sched l rule: al_Acquire.induct)
  case (1 sched l)
  have "al_inv (snd (al_TryAcquire l))" using "1.prems"(1) by (rule inv_intros)
  with "1" show ?case
    by (auto simp: al_Acquire.simps [of sched l] split: prod.splits bool.splits list.splits option.splits)
qed

section \<open>Properties\<close>

datatype al_event = AlTryAcquire | AlRelease go_time go_time go_duration

fun al_apply :: "al_event \<Rightarrow> AdaptiveLimiter \<Rightarrow> AdaptiveLimiter" where
  "al_apply AlTryAcquire l = snd (al_TryAcquire l)"
| "al_apply (AlRelease now now2 rtt) l = al_Release now now2 rtt l"

lemma al_inv_apply: "al_inv l \<Longrightarrow> al_inv (al_apply e l)"
  by (cases e) (auto intro: inv_intros)

lemma al_apply_bounds [simp]:
  "al_minLimit (al_apply e l) = al_minLimit l"
  "al_maxLimit (al_apply e l) = al_maxLimit l"
  by (cases e; simp)+

lemma al_run_bounds [simp]:
  "al_minLimit (fold al_apply es l) = al_minLimit l"
  "al_maxLimit (fold al_apply es l) = al_maxLimit l"
  by (induction es arbitrary: l) auto

text \<open>
  Whatever the order of acquisitions and releases and whatever round-trip times are
  reported, the limit of a new adaptive limiter stays at least 1 and within the configured
  bounds, and the number of requests in flight is never negative and never above the ceiling
  of the (normalised) maximum limit.
\<close>

theorem al_limits_hold:
  "let l = fold al_apply es (NewAdaptiveLimiter now lo hi)
   in 1 \<le> al_Limit l \<and> max 1 lo \<le> al_limit l \<and> al_limit l \<le> max hi (max 1 lo) \<and>
      0 \<le> al_inflight l \<and> al_inflight l \<le> \<lceil>max hi (max 1 lo)\<rceil>"
proof -
  define l where "l = fold al_apply es (NewAdaptiveLimiter now lo hi)"
  have inv: "al_inv (fold al_apply es l0)" if "al_inv l0" for l0
    using that by (induction es arbitrary: l0) (auto intro: al_inv_apply)
  have "al_inv l" unfolding l_def by (rule inv) (rule al_inv_New)
  moreover have "al_minLimit l = max 1 lo" and "al_maxLimit l = max hi (max 1 lo)"
    unfolding l_def al_run_bounds by (auto simp: NewAdaptiveLimiter_def Let_def max_def)
  ultimately show ?thesis
    unfolding l_def [symmetric] Let_def al_Limit_def al_inv_def
    by (metis ceiling_mono ceiling_one dual_order.trans)
qed

text \<open>
  Admission control: an attempt succeeds exactly when fewer requests are in flight than
  the ceiling of the current limit, and then at most that many are in flight afterwards.
\<close>

theorem al_TryAcquire_admits:
  "fst (al_TryAcquire l) = (al_inflight l < al_Limit l) \<and>
   (if fst (al_TryAcquire l)
    then snd (al_TryAcquire l) = l\<lparr>al_inflight := al_inflight l + 1\<rparr> \<and>
         al_inflight (snd (al_TryAcquire l)) \<le> al_Limit (snd (al_TryAcquire l))
    else snd (al_TryAcquire l) = l)"
  by (auto simp: al_TryAcquire_def al_Limit_def)

end
