(* ===== verification/Circuit_Breaker.thy ===== *)
theory Circuit_Breaker
  imports Go_Prelude
begin

text \<open>
  The circuit breaker of \<open>internal/resilience/circuitbreaker.go\<close>: its configuration and state
  as records, one definition per method, and the breaker as a state machine driven by
  timed events. Every method runs under the breaker's mutex and is therefore one step. The
  goroutine that \<open>transitionTo\<close> starts for a registered callback is recorded in the list of
  calls issued.
\<close>

section \<open>State and operations\<close>

datatype CircuitState = StateClosed | StateOpen | StateHalfOpen

fun CircuitState_String :: "CircuitState \<Rightarrow> string" where
  "CircuitState_String StateClosed = ''closed''"
| "CircuitState_String StateOpen = ''open''"
| "CircuitState_String StateHalfOpen = ''half-open''"

record CircuitBreakerConfig =
  FailureThreshold :: int
  SuccessThreshold :: int
  cb_Timeout :: go_duration
  HalfOpenMaxRequests :: int

definition DefaultCircuitBreakerConfig :: CircuitBreakerConfig where
  "DefaultCircuitBreakerConfig =
     \<lparr>FailureThreshold = 5, SuccessThreshold = 2, cb_Timeout = 30 * second,
      HalfOpenMaxRequests = 3\<rparr>"

record CircuitBreaker =
  cb_name :: string
  cb_state :: CircuitState
  cb_failureCount :: int
  cb_successCount :: int
  cb_halfOpenCount :: int
  cb_lastFailureTime :: go_time
  cb_config :: CircuitBreakerConfig
  cb_onStateChange :: bool
  cb_calls :: "(string \<times> CircuitState \<times> CircuitState) list"

definition NewCircuitBreaker :: "string \<Rightarrow> CircuitBreakerConfig \<Rightarrow> CircuitBreaker" where
  "NewCircuitBreaker name cfg =
     \<lparr>cb_name = name, cb_state = StateClosed, cb_failureCount = 0, cb_successCount = 0,
      cb_halfOpenCount = 0, cb_lastFailureTime = zero_time, cb_config = cfg,
      cb_onStateChange = False, cb_calls = []\<rparr>"

definition OnStateChange :: "bool \<Rightarrow> CircuitBreaker \<Rightarrow> CircuitBreaker" where
  "OnStateChange fn cb = cb\<lparr>cb_onStateChange := fn\<rparr>"

definition transitionTo :: "CircuitState \<Rightarrow> CircuitBreaker \<Rightarrow> CircuitBreaker" where
  "transitionTo newState cb =
     (if cb_state cb = newState then cb
      else let oldState = cb_state cb; cb1 = cb\<lparr>cb_state := newState\<rparr>
           in if cb_onStateChange cb1
              then cb1\<lparr>cb_calls := cb_calls cb1 @ [(cb_name cb1, oldState, newState)]\<rparr>
              else cb1)"

definition cb_Allow :: "go_time \<Rightarrow> CircuitBreaker \<Rightarrow> bool \<times> CircuitBreaker" where
  "cb_Allow now cb =
     (case cb_state cb of
        StateClosed \<Rightarrow> (True, cb)
      | StateOpen \<Rightarrow>
          if now - cb_lastFailureTime cb \<ge> cb_Timeout (cb_config cb)
          then (True, (transitionTo StateHalfOpen cb)\<lparr>cb_halfOpenCount := 1\<rparr>)
          else (False, cb)
      | StateHalfOpen \<Rightarrow>
          if cb_halfOpenCount cb < HalfOpenMaxRequests (cb_config cb)
          then (True, cb\<lparr>cb_halfOpenCount := cb_halfOpenCount cb + 1\<rparr>)
          else (False, cb))"

definition cb_RecordSuccess :: "CircuitBreaker \<Rightarrow> CircuitBreaker" where
  "cb_RecordSuccess cb =
     (case cb_state cb of
        StateClosed \<Rightarrow> cb\<lparr>cb_failureCount := 0\<rparr>
      | StateOpen \<Rightarrow> cb
      | StateHalfOpen \<Rightarrow>
          let cb1 = cb\<lparr>cb_successCount := cb_successCount cb + 1\<rparr>
          in if cb_successCount cb1 \<ge> SuccessThreshold (cb_config cb1)
             then (transitionTo StateClosed cb1)\<lparr>cb_failureCount := 0, cb_successCount := 0\<rparr>
             else cb1)"

definition cb_RecordFailure :: "go_time \<Rightarrow> CircuitBreaker \<Rightarrow> CircuitBreaker" where
  "cb_RecordFailure now cb =
     (let cb0 = cb\<lparr>cb_lastFailureTime := now\<rparr>
      in case cb_state cb0 of
           StateClosed \<Rightarrow>
             let cb1 = cb0\<lparr>cb_failureCount := cb_failureCount cb0 + 1\<rparr>
             in if cb_failureCount cb1 \<ge> FailureThreshold (cb_config cb1)
                then transitionTo StateOpen cb1 else cb1
         | StateOpen \<Rightarrow> cb0
         | StateHalfOpen \<Rightarrow> (transitionTo StateOpen cb0)\<lparr>cb_successCount := 0\<rparr>)"

definition cb_Reset :: "CircuitBreaker \<Rightarrow> CircuitBreaker" where
  "cb_Reset cb =
     (transitionTo StateClosed cb)\<lparr>cb_failureCount := 0, cb_successCount := 0, cb_halfOpenCount := 0\<rparr>"

lemmas cb_op_defs = cb_Allow_def cb_RecordSuccess_def cb_RecordFailure_def cb_Reset_def
  OnStateChange_def

lemma transitionTo_simps [simp]:
  "cb_state (transitionTo s cb) = s"
  "cb_failureCount (transitionTo s cb) = cb_failureCount cb"
  "cb_successCount (transitionTo s cb) = cb_successCount cb"
  "cb_halfOpenCount (transitionTo s cb) = cb_halfOpenCount cb"
  "cb_lastFailureTime (transitionTo s cb) = cb_lastFailureTime cb"
  "cb_config (transitionTo s cb) = cb_config cb"
  by (simp_all add: transitionTo_def Let_def)

section \<open>The breaker as a state machine\<close>

datatype cb_event = CbAllow go_time | CbSuccess | CbFailure go_time | CbReset

fun cb_apply :: "cb_event \<Rightarrow> CircuitBreaker \<Rightarrow> CircuitBreaker" where
  "cb_apply (CbAllow now) cb = snd (cb_Allow now cb)"
| "cb_apply CbSuccess cb = cb_RecordSuccess cb"
| "cb_apply (CbFailure now) cb = cb_RecordFailure now cb"
| "cb_apply CbReset cb = cb_Reset cb"

fun cb_run :: "cb_event list \<Rightarrow> CircuitBreaker \<Rightarrow> CircuitBreaker" where
  "cb_run [] cb = cb"
| "cb_run (e # es) cb = cb_run es (cb_apply e cb)"

text \<open>The number of requests let through along a run.\<close>

fun cb_admits :: "cb_event \<Rightarrow> CircuitBreaker \<Rightarrow> nat" where
  "cb_admits (CbAllow now) cb = (if fst (cb_Allow now cb) then 1 else 0)"
| "cb_admits _ cb = 0"

fun cb_admitted :: "cb_event list \<Rightarrow> CircuitBreaker \<Rightarrow> nat" where
  "cb_admitted [] cb = 0"
| "cb_admitted (e # es) cb = cb_admits e cb + cb_admitted es (cb_apply e cb)"

lemma cb_run_append [simp]: "cb_run (xs @ ys) cb = cb_run ys (cb_run xs cb)"
  by (induction xs arbitrary: cb) auto

lemma cb_apply_config [simp]: "cb_config (cb_apply e cb) = cb_config cb"
  by (cases e) (auto simp: cb_op_defs Let_def split: CircuitState.splits)

lemma cb_Allow_config [simp]: "cb_config (snd (cb_Allow now cb)) = cb_config cb"
  using cb_apply_config [of "CbAllow now" cb] by simp

lemma cb_run_config [simp]: "cb_config (cb_run es cb) = cb_config cb"
  by (induction es arbitrary: cb) auto

text \<open>
  The invariant: a closed breaker has seen fewer failures in a row than its threshold, a
  half-open one has granted at most its quota and fewer successes than it needs to close, and
  the counter of half-open successes is 0 outside the half-open state.
\<close>

definition cb_wf_config :: "CircuitBreakerConfig \<Rightarrow> bool" where
  "cb_wf_config cfg \<longleftrightarrow> 0 < FailureThreshold cfg \<and> 0 < SuccessThreshold cfg"

definition cb_inv :: "CircuitBreaker \<Rightarrow> bool" where
  "cb_inv cb \<longleftrightarrow>
     cb_wf_config (cb_config cb) \<and> 0 \<le> cb_failureCount cb \<and> 0 \<le> cb_halfOpenCount cb \<and>
     (case cb_state cb of
        StateClosed \<Rightarrow>
          cb_failureCount cb < FailureThreshold (cb_config cb) \<and> cb_successCount cb = 0
      | StateOpen \<Rightarrow> cb_successCount cb = 0
      | StateHalfOpen \<Rightarrow>
          0 \<le> cb_successCount cb \<and> cb_successCount cb < SuccessThreshold (cb_config cb) \<and>
          1 \<le> cb_halfOpenCount cb \<and>
          cb_halfOpenCount cb \<le> max 1 (HalfOpenMaxRequests (cb_config cb)))"

lemma cb_inv_New: "cb_wf_config cfg \<Longrightarrow> cb_inv (NewCircuitBreaker name cfg)"
  by (simp add: cb_inv_def cb_wf_config_def NewCircuitBreaker_def)

lemma cb_inv_Allow [inv_intros]: "cb_inv cb \<Longrightarrow> cb_inv (snd (cb_Allow now cb))"
  by (cases "cb_state cb") (auto simp: cb_inv_def cb_wf_config_def cb_Allow_def)

lemma cb_inv_RecordSuccess [inv_intros]: "cb_inv cb \<Longrightarrow> cb_inv (cb_RecordSuccess cb)"
  by (cases "cb_state cb")
     (auto simp: cb_inv_def cb_wf_config_def cb_RecordSuccess_def Let_def)

lemma cb_inv_RecordFailure [inv_intros]: "cb_inv cb \<Longrightarrow> cb_inv (cb_RecordFailure now cb)"
  by (cases "cb_state cb")
     (auto simp: cb_inv_def cb_wf_config_def cb_RecordFailure_def Let_def)

lemma cb_inv_Reset [inv_intros]: "cb_inv cb \<Longrightarrow> cb_inv (cb_Reset cb)"
  by (auto simp: cb_inv_def cb_wf_config_def cb_Reset_def)

lemma cb_inv_apply: "cb_inv cb \<Longrightarrow> cb_inv (cb_apply e cb)"
  by (cases e) (auto intro: inv_intros)

lemma cb_inv_run: "cb_inv cb \<Longrightarrow> cb_inv (cb_run es cb)"
  by (induction es arbitrary: cb) (auto intro: cb_inv_apply)


section \<open>Opening\<close>

lemma cb_failures_from_closed:
  assumes "cb_inv cb" and "cb_state cb = StateClosed"
  shows "cb_state (cb_run (map CbFailure ts) cb) =
    (if cb_failureCount cb + int (length ts) < FailureThreshold (cb_config cb)
     then StateClosed else StateOpen)"
  using assms
proof (induction ts arbitrary: cb)
  case Nil
  then show ?case by (simp add: cb_inv_def)
next
  case (Cons t ts)
  let ?cb = "cb_RecordFailure t cb"
  have stays: "cb_state (cb_run (map CbFailure ss) d) = StateOpen"
    if "cb_state d = StateOpen" for ss d
    using that by (induction ss arbitrary: d) (auto simp: cb_RecordFailure_def Let_def)
  have inv: "cb_inv ?cb" using Cons.prems(1) by (rule inv_intros)
  show ?case
  proof (cases "cb_failureCount cb + 1 < FailureThreshold (cb_config cb)")
    case True
    with Cons.prems have "cb_state ?cb = StateClosed"
      and "cb_failureCount ?cb = cb_failureCount cb + 1" and "cb_config ?cb = cb_config cb"
      by (auto simp: cb_RecordFailure_def Let_def)
    with Cons.IH [OF inv] show ?thesis by (simp add: algebra_simps)
  next
    case False
    with Cons.prems have "cb_state ?cb = StateOpen"
      by (auto simp: cb_RecordFailure_def Let_def)
    with False stays show ?thesis by auto
  qed
qed

text \<open>
  \<^bold>\<open>C15\<close>. A new circuit breaker with positive thresholds that records a run of failures is open
  exactly when the number of failures reached the failure threshold; before that it is closed
  and lets every request through.
\<close>

theorem cb_opens_exactly_at_threshold:
  assumes "cb_wf_config cfg"
  shows "cb_state (cb_run (map CbFailure ts) (NewCircuitBreaker name cfg)) =
      (if int (length ts) < FailureThreshold cfg then StateClosed else StateOpen)
    \<and> (int (length ts) < FailureThreshold cfg \<longrightarrow>
        fst (cb_Allow now (cb_run (map CbFailure ts) (NewCircuitBreaker name cfg))))"
proof -
  have "cb_inv (NewCircuitBreaker name cfg)" using assms by (rule cb_inv_New)
  then have "cb_state (cb_run (map CbFailure ts) (NewCircuitBreaker name cfg)) =
      (if int (length ts) < FailureThreshold cfg then StateClosed else StateOpen)"
    by (subst cb_failures_from_closed) (auto simp: NewCircuitBreaker_def)
  then show ?thesis by (simp add: cb_Allow_def)
qed

theorem cb_opens_exactly_at_threshold_witness:
  "cb_wf_config DefaultCircuitBreakerConfig \<and>
   cb_state (cb_run (map CbFailure [1, 2, 3, 4])
     (NewCircuitBreaker ''p'' DefaultCircuitBreakerConfig)) = StateClosed \<and>
   cb_state (cb_run (map CbFailure [1, 2, 3, 4, 5])
     (NewCircuitBreaker ''p'' DefaultCircuitBreakerConfig)) = StateOpen"
proof -
  have wf: "cb_wf_config DefaultCircuitBreakerConfig"
    by (simp add: cb_wf_config_def DefaultCircuitBreakerConfig_def)
  show ?thesis
    using wf cb_opens_exactly_at_threshold [OF wf, of "[1, 2, 3, 4]" "''p''" 0]
      cb_opens_exactly_at_threshold [OF wf, of "[1, 2, 3, 4, 5]" "''p''" 0]
    by (simp add: DefaultCircuitBreakerConfig_def)
qed

section \<open>Blocking while open\<close>

text \<open>Events that an open breaker must ignore: a request before the timeout, a late success.\<close>

fun cb_before_timeout :: "CircuitBreaker \<Rightarrow> cb_event \<Rightarrow> bool" where
  "cb_before_timeout cb (CbAllow now) \<longleftrightarrow>
     now - cb_lastFailureTime cb < cb_Timeout (cb_config cb)"
| "cb_before_timeout cb CbSuccess \<longleftrightarrow> True"
| "cb_before_timeout cb _ \<longleftrightarrow> False"

lemma cb_open_ignores:
  assumes "cb_state cb = StateOpen" and "cb_before_timeout cb e"
  shows "cb_apply e cb = cb \<and> cb_admits e cb = 0"
  using assms by (cases e) (auto simp: cb_Allow_def cb_RecordSuccess_def)

text \<open>
  An open circuit breaker lets no request through until its timeout has passed since the
  last failure, however many requests are tried and however many late successes are recorded
  in the meantime, and its state does not change.
\<close>

theorem cb_open_blocks_until_timeout:
  assumes "cb_state cb = StateOpen" and "\<forall>e\<in>set es. cb_before_timeout cb e"
  shows "cb_run es cb = cb \<and> cb_admitted es cb = 0"
  using assms by (induction es) (auto simp: cb_open_ignores)

theorem cb_open_blocks_until_timeout_witness:
  "cb_admitted [CbAllow 10, CbSuccess, CbAllow (29 * second)]
     (cb_run (map CbFailure [1, 2, 3, 4, 5])
       (NewCircuitBreaker ''p'' DefaultCircuitBreakerConfig)) = 0"
proof -
  let ?cb = "cb_run (map CbFailure [1, 2, 3, 4, 5])
    (NewCircuitBreaker ''p'' DefaultCircuitBreakerConfig)"
  have "cb_state ?cb = StateOpen"
    and "\<forall>e\<in>set [CbAllow 10, CbSuccess, CbAllow (29 * second)]. cb_before_timeout ?cb e"
    by (simp_all add: NewCircuitBreaker_def DefaultCircuitBreakerConfig_def
        cb_RecordFailure_def transitionTo_def)
  then show ?thesis using cb_open_blocks_until_timeout by blast
qed

section \<open>The half-open quota\<close>

lemma cb_half_open_count:
  assumes "cb_state cb = StateHalfOpen" and "cb_state (cb_apply e cb) = StateHalfOpen"
  shows "cb_halfOpenCount (cb_apply e cb) = cb_halfOpenCount cb + int (cb_admits e cb)"
  using assms by (cases e) (auto simp: cb_op_defs Let_def)

lemma cb_half_open_run:
  assumes "\<forall>n\<le>length es. cb_state (cb_run (take n es) cb) = StateHalfOpen"
  shows "cb_halfOpenCount (cb_run es cb) = cb_halfOpenCount cb + int (cb_admitted es cb)"
  using assms
proof (induction es arbitrary: cb)
  case (Cons e es)
  have "cb_state cb = StateHalfOpen" using Cons.prems by (metis cb_run.simps(1) take0 zero_le)
  moreover have next_ok: "\<forall>n\<le>length es. cb_state (cb_run (take n es) (cb_apply e cb)) = StateHalfOpen"
    using Cons.prems by (metis Suc_le_mono cb_run.simps(2) length_Cons take_Suc_Cons)
  then have "cb_state (cb_apply e cb) = StateHalfOpen"
    by (metis cb_run.simps(1) take0 zero_le)
  ultimately show ?case
    using Cons.IH [OF next_ok] cb_half_open_count [of cb e] by simp
qed simp

text \<open>
  From the step that takes an open breaker to half-open until it leaves that state again,
  the breaker lets at most \<open>HalfOpenMaxRequests\<close> requests through (at least the one that made
  the transition), whatever successes and failures are recorded meanwhile.
\<close>

theorem cb_half_open_quota:
  assumes "cb_inv cb" and "cb_state cb = StateOpen"
    and "\<forall>n\<le>length es. cb_state (cb_run (take n es) (cb_apply (CbAllow now) cb)) = StateHalfOpen"
  shows "int (cb_admitted (CbAllow now # es) cb) \<le> max 1 (HalfOpenMaxRequests (cb_config cb))"
proof -
  let ?cb = "cb_apply (CbAllow now) cb"
  have half: "cb_state ?cb = StateHalfOpen"
    using assms(3) by (metis cb_run.simps(1) take0 zero_le)
  with assms(2) have first: "cb_halfOpenCount ?cb = int (cb_admits (CbAllow now) cb)"
    by (auto simp: cb_Allow_def split: if_splits)
  have "cb_inv (cb_run es ?cb)" using assms(1) by (intro cb_inv_run cb_inv_apply)
  moreover have "cb_state (cb_run es ?cb) = StateHalfOpen" using assms(3) by auto
  ultimately have "cb_halfOpenCount (cb_run es ?cb) \<le> max 1 (HalfOpenMaxRequests (cb_config cb))"
    by (simp add: cb_inv_def)
  with cb_half_open_run [OF assms(3)] first show ?thesis by simp
qed

theorem cb_half_open_quota_witness:
  "int (cb_admitted (CbAllow (31 * second) # replicate 9 (CbAllow (32 * second)))
     (cb_run (map CbFailure [1, 2, 3, 4, 5])
       (NewCircuitBreaker ''p'' DefaultCircuitBreakerConfig))) \<le> 3"
proof -
  let ?cb = "cb_run (map CbFailure [1, 2, 3, 4, 5])
    (NewCircuitBreaker ''p'' DefaultCircuitBreakerConfig)"
  let ?es = "replicate 9 (CbAllow (32 * second))"
  have wf: "cb_wf_config DefaultCircuitBreakerConfig"
    by (simp add: cb_wf_config_def DefaultCircuitBreakerConfig_def)
  have inv: "cb_inv ?cb" using cb_inv_New [OF wf] by (rule cb_inv_run)
  have open_cb: "cb_state ?cb = StateOpen"
    by (simp add: NewCircuitBreaker_def DefaultCircuitBreakerConfig_def
        cb_RecordFailure_def transitionTo_def)
  have allow_half: "cb_state (snd (cb_Allow t d)) = StateHalfOpen"
    if "cb_state d = StateHalfOpen" for t d
    using that by (simp add: cb_Allow_def)
  have run_half: "cb_state (cb_run (replicate k (CbAllow t)) d) = StateHalfOpen"
    if "cb_state d = StateHalfOpen" for k t d
    using that by (induction k arbitrary: d) (auto simp: allow_half)
  have "cb_state (cb_apply (CbAllow (31 * second)) ?cb) = StateHalfOpen"
    by (simp add: NewCircuitBreaker_def DefaultCircuitBreakerConfig_def
        cb_RecordFailure_def transitionTo_def cb_Allow_def)
  then have "\<forall>n\<le>length ?es. cb_state (cb_run (take n ?es)
      (cb_apply (CbAllow (31 * second)) ?cb)) = StateHalfOpen"
    using run_half by (simp add: min_def)
  moreover have "max 1 (HalfOpenMaxRequests (cb_config ?cb)) = 3"
    by (simp only: cb_run_config)
      (simp add: DefaultCircuitBreakerConfig_def NewCircuitBreaker_def)
  ultimately show ?thesis using cb_half_open_quota [OF inv open_cb] by metis
qed


section \<open>Recovery\<close>

lemma cb_half_open_allows:
  assumes "cb_state cb = StateHalfOpen"
    and "cb_halfOpenCount cb + int n \<le> HalfOpenMaxRequests (cb_config cb)"
  shows "cb_run (replicate n (CbAllow now)) cb
      = cb\<lparr>cb_halfOpenCount := cb_halfOpenCount cb + int n\<rparr>
    \<and> cb_admitted (replicate n (CbAllow now)) cb = n"
  using assms
proof (induction n arbitrary: cb)
  case (Suc n)
  let ?cb = "cb\<lparr>cb_halfOpenCount := cb_halfOpenCount cb + 1\<rparr>"
  have "cb_Allow now cb = (True, ?cb)" using Suc.prems by (simp add: cb_Allow_def)
  with Suc.IH [of ?cb] Suc.prems show ?case by (simp add: algebra_simps)
qed simp

lemma cb_half_open_successes:
  assumes "cb_state cb = StateHalfOpen" and "0 < n"
    and "cb_successCount cb + int n = SuccessThreshold (cb_config cb)"
  shows "cb_state (cb_run (replicate n CbSuccess) cb) = StateClosed"
  using assms
proof (induction n arbitrary: cb)
  case (Suc n)
  show ?case
  proof (cases "n = 0")
    case True
    with Suc.prems show ?thesis by (simp add: cb_RecordSuccess_def)
  next
    case False
    let ?cb = "cb\<lparr>cb_successCount := cb_successCount cb + 1\<rparr>"
    have "cb_RecordSuccess cb = ?cb" using Suc.prems False by (simp add: cb_RecordSuccess_def)
    with Suc.IH [of ?cb] Suc.prems False show ?thesis by simp
  qed
qed simp



text \<open>
  A half-open breaker whose quota is used up refuses every later request at every later
  time: the half-open state has no timeout of its own. If the admitted requests never report
  an outcome, or if the quota is smaller than the success threshold, the breaker stays there
  until it is reset.
\<close>

theorem cb_half_open_exhausted_stays:
  assumes "cb_state cb = StateHalfOpen"
    and "HalfOpenMaxRequests (cb_config cb) \<le> cb_halfOpenCount cb"
  shows "cb_run (map CbAllow ts) cb = cb \<and> cb_admitted (map CbAllow ts) cb = 0"
  using assms by (induction ts) (auto simp: cb_Allow_def)

theorem cb_half_open_exhausted_stays_witness:
  "cb_admitted (map CbAllow [1000 * hour, 2000 * hour])
     (cb_run (map CbFailure [1, 2, 3, 4, 5] @ replicate 3 (CbAllow (31 * second)))
       (NewCircuitBreaker ''p'' DefaultCircuitBreakerConfig)) = 0"
proof -
  let ?cb = "cb_run (map CbFailure [1, 2, 3, 4, 5] @ replicate 3 (CbAllow (31 * second)))
    (NewCircuitBreaker ''p'' DefaultCircuitBreakerConfig)"
  have "cb_state ?cb = StateHalfOpen"
    and "HalfOpenMaxRequests (cb_config ?cb) \<le> cb_halfOpenCount ?cb"
    by (simp_all add: NewCircuitBreaker_def DefaultCircuitBreakerConfig_def
        cb_RecordFailure_def transitionTo_def cb_Allow_def numeral_3_eq_3)
  then show ?thesis using cb_half_open_exhausted_stays by blast
qed

end
