(* ===== verification/Token_Bucket.thy ===== *)
theory Token_Bucket
  imports Go_Prelude
begin

text \<open>
  The token bucket of \<open>internal/resilience/ratelimiter.go\<close>. The bucket holds a real number of
  tokens; every call first refills it for the time since the last refill and caps it at the
  burst size.
\<close>

section \<open>State and operations\<close>

record RateLimiter =
  rl_rate :: float64
  rl_burst :: int
  rl_tokens :: float64
  rl_lastRefill :: go_time

definition NewRateLimiter :: "go_time \<Rightarrow> float64 \<Rightarrow> int \<Rightarrow> RateLimiter" where
  "NewRateLimiter now rate burst =
     \<lparr>rl_rate = rate, rl_burst = burst, rl_tokens = of_int burst, rl_lastRefill = now\<rparr>"

definition rl_refill :: "go_time \<Rightarrow> RateLimiter \<Rightarrow> RateLimiter" where
  "rl_refill now rl =
     (let elapsed = Seconds (now - rl_lastRefill rl);
          rl1 = rl\<lparr>rl_lastRefill := now, rl_tokens := rl_tokens rl + elapsed * rl_rate rl\<rparr>
      in if rl_tokens rl1 > of_int (rl_burst rl1)
         then rl1\<lparr>rl_tokens := of_int (rl_burst rl1)\<rparr> else rl1)"

definition rl_AllowN :: "go_time \<Rightarrow> int \<Rightarrow> RateLimiter \<Rightarrow> bool \<times> RateLimiter" where
  "rl_AllowN now n rl =
     (let rl1 = rl_refill now rl
      in if rl_tokens rl1 \<ge> of_int n
         then (True, rl1\<lparr>rl_tokens := rl_tokens rl1 - of_int n\<rparr>) else (False, rl1))"

definition rl_Allow :: "go_time \<Rightarrow> RateLimiter \<Rightarrow> bool \<times> RateLimiter" where
  "rl_Allow now rl = rl_AllowN now 1 rl"

definition rl_Tokens :: "go_time \<Rightarrow> RateLimiter \<Rightarrow> float64 \<times> RateLimiter" where
  "rl_Tokens now rl = (let rl1 = rl_refill now rl in (rl_tokens rl1, rl1))"

definition rl_SetRate :: "float64 \<Rightarrow> RateLimiter \<Rightarrow> RateLimiter" where
  "rl_SetRate rate rl = rl\<lparr>rl_rate := rate\<rparr>"

definition rl_SetBurst :: "int \<Rightarrow> RateLimiter \<Rightarrow> RateLimiter" where
  "rl_SetBurst burst rl =
     (let rl1 = rl\<lparr>rl_burst := burst\<rparr>
      in if rl_tokens rl1 > of_int burst then rl1\<lparr>rl_tokens := of_int burst\<rparr> else rl1)"

section \<open>Invariant\<close>

definition rl_inv :: "RateLimiter \<Rightarrow> bool" where
  "rl_inv rl \<longleftrightarrow>
     0 \<le> rl_rate rl \<and> 0 \<le> rl_burst rl \<and> 0 \<le> rl_tokens rl \<and> rl_tokens rl \<le> of_int (rl_burst rl)"

lemma rl_inv_New: "0 \<le> rate \<Longrightarrow> 0 \<le> burst \<Longrightarrow> rl_inv (NewRateLimiter now rate burst)"
  by (simp add: rl_inv_def NewRateLimiter_def)

lemma rl_refill_simps [simp]:
  "rl_rate (rl_refill now rl) = rl_rate rl"
  "rl_burst (rl_refill now rl) = rl_burst rl"
  "rl_lastRefill (rl_refill now rl) = now"
  "rl_tokens (rl_refill now rl) =
     min (rl_tokens rl + Seconds (now - rl_lastRefill rl) * rl_rate rl) (of_int (rl_burst rl))"
  by (auto simp: rl_refill_def Let_def min_def)

lemma rl_inv_refill [inv_intros]:
  assumes "rl_inv rl" and "rl_lastRefill rl \<le> now"
  shows "rl_inv (rl_refill now rl)"
proof -
  have "0 \<le> Seconds (now - rl_lastRefill rl) * rl_rate rl"
    using assms by (simp add: rl_inv_def)
  with assms show ?thesis by (simp add: rl_inv_def)
qed

lemma rl_AllowN_simps [simp]:
  "rl_rate (snd (rl_AllowN now n rl)) = rl_rate rl"
  "rl_burst (snd (rl_AllowN now n rl)) = rl_burst rl"
  "rl_lastRefill (snd (rl_AllowN now n rl)) = now"
  by (auto simp: rl_AllowN_def Let_def)

lemma rl_inv_AllowN [inv_intros]:
  assumes "rl_inv rl" and "rl_lastRefill rl \<le> now" and "0 \<le> n"
  shows "rl_inv (snd (rl_AllowN now n rl))"
  using rl_inv_refill [OF assms(1,2)] assms(3)
  by (auto simp: rl_inv_def rl_AllowN_def Let_def)

lemma rl_inv_SetBurst [inv_intros]: "rl_inv rl \<Longrightarrow> 0 \<le> burst \<Longrightarrow> rl_inv (rl_SetBurst burst rl)"
  by (auto simp: rl_inv_def rl_SetBurst_def Let_def)

section \<open>The rate bound\<close>

text \<open>A sequence of calls \<open>AllowN\<close>, each with its time, and the total it granted.\<close>

fun rl_run :: "(go_time \<times> int) list \<Rightarrow> RateLimiter \<Rightarrow> RateLimiter" where
  "rl_run [] rl = rl"
| "rl_run ((now, n) # cs) rl = rl_run cs (snd (rl_AllowN now n rl))"

fun rl_granted :: "(go_time \<times> int) list \<Rightarrow> RateLimiter \<Rightarrow> int" where
  "rl_granted [] rl = 0"
| "rl_granted ((now, n) # cs) rl =
     (if fst (rl_AllowN now n rl) then n else 0) + rl_granted cs (snd (rl_AllowN now n rl))"

fun rl_calls_ok :: "go_time \<Rightarrow> (go_time \<times> int) list \<Rightarrow> bool" where
  "rl_calls_ok t [] \<longleftrightarrow> True"
| "rl_calls_ok t ((now, n) # cs) \<longleftrightarrow> t \<le> now \<and> 0 \<le> n \<and> rl_calls_ok now cs"

text \<open>One call: what it grants and what it leaves is at most what there was plus the refill.\<close>

lemma rl_AllowN_budget:
  "of_int (if fst (rl_AllowN now n rl) then n else 0) + rl_tokens (snd (rl_AllowN now n rl))
     \<le> rl_tokens rl + Seconds (now - rl_lastRefill rl) * rl_rate rl"
  by (auto simp: rl_AllowN_def Let_def)

lemma rl_granted_budget:
  "of_int (rl_granted cs rl) + rl_tokens (rl_run cs rl)
     \<le> rl_tokens rl + Seconds (rl_lastRefill (rl_run cs rl) - rl_lastRefill rl) * rl_rate rl"
proof (induction cs arbitrary: rl)
  case Nil
  then show ?case by (simp add: Seconds_def)
next
  case (Cons c cs)
  obtain now n where c: "c = (now, n)" by (cases c)
  let ?rl = "snd (rl_AllowN now n rl)"
  let ?last = "rl_lastRefill (rl_run cs ?rl)"
  have "Seconds (?last - rl_lastRefill rl) * rl_rate rl
      = Seconds (now - rl_lastRefill rl) * rl_rate rl + Seconds (?last - now) * rl_rate rl"
    by (simp add: Seconds_def field_simps)
  with Cons [of ?rl] rl_AllowN_budget [of now n rl] c show ?case by simp
qed

lemma rl_inv_run: "rl_inv rl \<Longrightarrow> rl_calls_ok (rl_lastRefill rl) cs \<Longrightarrow> rl_inv (rl_run cs rl)"
proof (induction cs arbitrary: rl)
  case (Cons c cs)
  obtain now n where c: "c = (now, n)" by (cases c)
  with Cons.prems have "rl_inv (snd (rl_AllowN now n rl))" by (intro rl_inv_AllowN) simp_all
  with Cons c show ?case by simp
qed simp

lemma rl_run_lastRefill:
  "cs \<noteq> [] \<Longrightarrow> rl_lastRefill (rl_run cs rl) = fst (last cs)"
proof (induction cs arbitrary: rl)
  case (Cons c cs)
  then show ?case by (cases c; cases "cs = []") auto
qed simp

text \<open>
  \<^bold>\<open>C7\<close>. The long-term rate limit: for every sequence of requests at times that do not go
  backwards, a new token bucket grants at most its burst size plus its rate times the seconds
  from its creation to the last request.
\<close>

theorem rl_rate_bound:
  assumes "0 \<le> rate" and "0 \<le> burst" and "cs \<noteq> []" and "rl_calls_ok t0 cs"
  shows "of_int (rl_granted cs (NewRateLimiter t0 rate burst))
    \<le> of_int burst + Seconds (fst (last cs) - t0) * rate"
proof -
  let ?rl = "NewRateLimiter t0 rate burst"
  have "rl_inv (rl_run cs ?rl)"
    using assms by (intro rl_inv_run rl_inv_New) (simp_all add: NewRateLimiter_def)
  then have "0 \<le> rl_tokens (rl_run cs ?rl)" by (simp add: rl_inv_def)
  with rl_granted_budget [of cs ?rl] rl_run_lastRefill [OF assms(3), of ?rl] show ?thesis
    by (simp add: NewRateLimiter_def)
qed

theorem rl_rate_bound_witness:
  "rl_granted [(0, 3), (0, 4), (second, 2)] (NewRateLimiter 0 2 5) = 5 \<and>
   of_int (rl_granted [(0, 3), (0, 4), (second, 2)] (NewRateLimiter 0 2 5))
     \<le> (5 :: real) + 1 * 2"
proof -
  have "rl_granted [(0, 3), (0, 4), (second, 2)] (NewRateLimiter 0 2 5) = 5"
    by (simp add: rl_AllowN_def rl_refill_def NewRateLimiter_def Seconds_def Let_def)
  moreover have "of_int (rl_granted [(0, 3), (0, 4), (second, 2)] (NewRateLimiter 0 2 5))
      \<le> of_int 5 + Seconds (fst (last [(0, 3 :: int), (0, 4), (second, 2)]) - 0) * 2"
    by (rule rl_rate_bound) simp_all
  ultimately show ?thesis by (simp add: Seconds_def)
qed

text \<open>
  No starvation: a request for at most the burst size is granted as soon as the time
  since the last call pays for it at the bucket's rate.
\<close>

theorem rl_allows_after_wait:
  assumes "rl_inv rl" and "n \<le> rl_burst rl"
    and "of_int n \<le> Seconds (now - rl_lastRefill rl) * rl_rate rl"
  shows "fst (rl_AllowN now n rl)"
  using assms by (simp add: rl_AllowN_def rl_inv_def Let_def)

theorem rl_allows_after_wait_witness:
  "\<not> fst (rl_AllowN 0 1 \<lparr>rl_rate = 2, rl_burst = 5, rl_tokens = 0, rl_lastRefill = 0\<rparr>) \<and>
   fst (rl_AllowN (second div 2) 1
     \<lparr>rl_rate = 2, rl_burst = 5, rl_tokens = 0, rl_lastRefill = 0\<rparr>)"
proof
  show "fst (rl_AllowN (second div 2) 1
     \<lparr>rl_rate = 2, rl_burst = 5, rl_tokens = 0, rl_lastRefill = 0\<rparr>)"
    by (rule rl_allows_after_wait) (simp_all add: rl_inv_def Seconds_def)
qed (simp add: rl_AllowN_def Seconds_def Let_def)

end
