(* ===== verification/Counting_Semaphore.thy ===== *)
theory Counting_Semaphore
  imports Go_Prelude
begin

text \<open>
  The counting semaphore of \<open>internal/resilience/semaphore.go\<close>. The critical sections are the
  atomic operations; \<open>Acquire\<close> takes several of them, so goroutines that call \<open>Acquire\<close> and
  \<open>Release\<close> are modelled as a system whose steps interleave them.
\<close>

section \<open>State and critical sections\<close>

text \<open>A waiter's channel is named by a number; closing it adds its number to the closed ones.\<close>

record Semaphore =
  sem_capacity :: int
  sem_current :: int
  sem_waiters :: "nat list"

definition NewSemaphore :: "int \<Rightarrow> Semaphore" where
  "NewSemaphore capacity =
     \<lparr>sem_capacity = (if capacity \<le> 0 then 1 else capacity), sem_current = 0, sem_waiters = []\<rparr>"

definition sem_TryAcquire :: "Semaphore \<Rightarrow> bool \<times> Semaphore" where
  "sem_TryAcquire s =
     (if sem_current s < sem_capacity s then (True, s\<lparr>sem_current := sem_current s + 1\<rparr>)
      else (False, s))"

definition sem_enqueue :: "nat \<Rightarrow> Semaphore \<Rightarrow> Semaphore" where
  "sem_enqueue waiter s = s\<lparr>sem_waiters := sem_waiters s @ [waiter]\<rparr>"

definition sem_dequeue :: "nat \<Rightarrow> Semaphore \<Rightarrow> Semaphore" where
  "sem_dequeue waiter s = s\<lparr>sem_waiters := remove1 waiter (sem_waiters s)\<rparr>"

text \<open>\<open>Release\<close> returns the channel it closes, if any.\<close>

definition sem_Release :: "Semaphore \<Rightarrow> nat option \<times> Semaphore" where
  "sem_Release s =
     (if sem_current s \<le> 0 then (None, s)
      else case sem_waiters s of
             waiter # rest \<Rightarrow> (Some waiter, s\<lparr>sem_waiters := rest\<rparr>)
           | [] \<Rightarrow> (None, s\<lparr>sem_current := sem_current s - 1\<rparr>))"

definition sem_Available :: "Semaphore \<Rightarrow> int" where
  "sem_Available s = sem_capacity s - sem_current s"

section \<open>Goroutines\<close>

text \<open>
  A goroutine is outside, between the failed \<open>TryAcquire\<close> and the enqueueing of its channel,
  in the \<open>select\<close>, between the choice of \<open>ctx.Done()\<close> and the removal of its channel, or it
  holds a permit. Only a holder calls \<open>Release\<close>. The field \<open>sys_lost\<close> counts the goroutines
  that returned the context's error although their channel had been closed; no step reads it.
\<close>

datatype sem_phase =
    SemIdle
  | SemTryFailed
  | SemWaiting nat
  | SemCancelling nat
  | SemHolding

record sem_sys =
  sys_sem :: Semaphore
  sys_closed :: "nat list"
  sys_next :: nat
  sys_phases :: "sem_phase list"
  sys_lost :: nat

datatype sem_action =
    SemTry nat
  | SemEnqueue nat
  | SemWake nat
  | SemCtxDone nat
  | SemRemove nat
  | SemReleaseBy nat

definition phase_at :: "sem_phase list \<Rightarrow> nat \<Rightarrow> sem_phase option" where
  "phase_at ps i = (if i < length ps then Some (ps ! i) else None)"

abbreviation sys_phase :: "sem_sys \<Rightarrow> nat \<Rightarrow> sem_phase option" where
  "sys_phase y \<equiv> phase_at (sys_phases y)"

definition sys_set :: "nat \<Rightarrow> sem_phase \<Rightarrow> sem_sys \<Rightarrow> sem_sys" where
  "sys_set i p y = y\<lparr>sys_phases := (sys_phases y)[i := p]\<rparr>"

text \<open>\<open>Acquire\<close> is the first five actions, \<open>Release\<close> the last.\<close>

fun sem_next :: "sem_action \<Rightarrow> sem_sys \<Rightarrow> sem_sys option" where
  "sem_next (SemTry i) y =
     (if sys_phase y i = Some SemIdle
      then case sem_TryAcquire (sys_sem y) of
             (ok, s) \<Rightarrow> Some (sys_set i (if ok then SemHolding else SemTryFailed) (y\<lparr>sys_sem := s\<rparr>))
      else None)"
| "sem_next (SemEnqueue i) y =
     (if sys_phase y i = Some SemTryFailed
      then Some (sys_set i (SemWaiting (sys_next y))
                  (y\<lparr>sys_sem := sem_enqueue (sys_next y) (sys_sem y), sys_next := Suc (sys_next y)\<rparr>))
      else None)"
| "sem_next (SemWake i) y =
     (case sys_phase y i of
        Some (SemWaiting w) \<Rightarrow> (if w \<in> set (sys_closed y) then Some (sys_set i SemHolding y) else None)
      | _ \<Rightarrow> None)"
| "sem_next (SemCtxDone i) y =
     (case sys_phase y i of
        Some (SemWaiting w) \<Rightarrow> Some (sys_set i (SemCancelling w) y)
      | _ \<Rightarrow> None)"
| "sem_next (SemRemove i) y =
     (case sys_phase y i of
        Some (SemCancelling w) \<Rightarrow>
          Some (sys_set i SemIdle
            (y\<lparr>sys_sem := sem_dequeue w (sys_sem y),
               sys_lost := sys_lost y + (if w \<in> set (sys_closed y) then 1 else 0)\<rparr>))
      | _ \<Rightarrow> None)"
| "sem_next (SemReleaseBy i) y =
     (if sys_phase y i = Some SemHolding
      then case sem_Release (sys_sem y) of
             (c, s) \<Rightarrow> Some (sys_set i SemIdle
               (y\<lparr>sys_sem := s, sys_closed := (case c of None \<Rightarrow> [] | Some w \<Rightarrow> [w]) @ sys_closed y\<rparr>))
      else None)"

definition sem_start :: "int \<Rightarrow> nat \<Rightarrow> sem_sys" where
  "sem_start capacity n =
     \<lparr>sys_sem = NewSemaphore capacity, sys_closed = [], sys_next = 0,
      sys_phases = replicate n SemIdle, sys_lost = 0\<rparr>"

inductive sem_reach :: "int \<Rightarrow> nat \<Rightarrow> sem_sys \<Rightarrow> bool" for capacity n where
  start: "sem_reach capacity n (sem_start capacity n)"
| step: "sem_reach capacity n y \<Longrightarrow> sem_next a y = Some y' \<Longrightarrow> sem_reach capacity n y'"

fun sem_exec :: "sem_action list \<Rightarrow> sem_sys \<Rightarrow> sem_sys option" where
  "sem_exec [] y = Some y"
| "sem_exec (a # as) y = (case sem_next a y of None \<Rightarrow> None | Some y' \<Rightarrow> sem_exec as y')"

lemma sem_exec_reach:
  "sem_reach capacity n y \<Longrightarrow> sem_exec as y = Some y' \<Longrightarrow> sem_reach capacity n y'"
  by (induction as arbitrary: y) (auto split: option.splits intro: sem_reach.step)

section \<open>Invariant\<close>

text \<open>The channel of a goroutine, and whether it owns a permit: as a holder or in transfer.\<close>

fun ph_chan :: "sem_phase \<Rightarrow> nat option" where
  "ph_chan (SemWaiting w) = Some w"
| "ph_chan (SemCancelling w) = Some w"
| "ph_chan _ = None"

definition ph_owns :: "nat list \<Rightarrow> sem_phase \<Rightarrow> bool" where
  "ph_owns cl p \<longleftrightarrow> p = SemHolding \<or> (\<exists>w\<in>set cl. ph_chan p = Some w)"

definition owned :: "nat list \<Rightarrow> sem_phase list \<Rightarrow> nat set" where
  "owned cl ps = {i. i < length ps \<and> ph_owns cl (ps ! i)}"

abbreviation owners :: "sem_sys \<Rightarrow> nat set" where
  "owners y \<equiv> owned (sys_closed y) (sys_phases y)"

definition holders :: "sem_sys \<Rightarrow> nat set" where
  "holders y = {i. sys_phase y i = Some SemHolding}"

text \<open>
  The channels of the goroutines, as a map, against the queue, the closed channels and the
  number of the next channel: no two goroutines share a channel, and a queued channel is open
  and belongs to a goroutine.
\<close>

definition chan_map :: "sem_phase list \<Rightarrow> nat \<rightharpoonup> nat" where
  "chan_map ps i = (if i < length ps then ph_chan (ps ! i) else None)"

abbreviation chan_of :: "sem_sys \<Rightarrow> nat \<rightharpoonup> nat" where
  "chan_of y \<equiv> chan_map (sys_phases y)"

definition chans_ok :: "(nat \<rightharpoonup> nat) \<Rightarrow> nat list \<Rightarrow> nat list \<Rightarrow> nat \<Rightarrow> bool" where
  "chans_ok m ws cl n \<longleftrightarrow>
     distinct ws \<and> set ws \<inter> set cl = {} \<and> set ws \<union> set cl \<subseteq> {..<n} \<and>
     set ws \<subseteq> ran m \<and> ran m \<subseteq> {..<n} \<and> inj_on m (dom m)"

abbreviation chan_inv :: "sem_sys \<Rightarrow> bool" where
  "chan_inv y \<equiv> chans_ok (chan_of y) (sem_waiters (sys_sem y)) (sys_closed y) (sys_next y)"

lemma chans_ok_uniq: "chans_ok m ws cl n \<Longrightarrow> m i = Some w \<Longrightarrow> m j = Some w \<Longrightarrow> i = j"
  by (auto simp: chans_ok_def inj_on_def dom_def)

lemma chans_okD:
  assumes "chans_ok m ws cl n"
  shows "distinct ws" "set ws \<inter> set cl = {}" "set ws \<subseteq> {..<n}" "set cl \<subseteq> {..<n}"
    "set ws \<subseteq> ran m" "ran m \<subseteq> {..<n}" "inj_on m (dom m)"
  using assms by (simp_all add: chans_ok_def)

lemma chans_okI:
  assumes "distinct ws" "set ws \<inter> set cl = {}" "set ws \<subseteq> {..<n}" "set cl \<subseteq> {..<n}"
    "set ws \<subseteq> ran m" "ran m \<subseteq> {..<n}" "inj_on m (dom m)"
  shows "chans_ok m ws cl n"
  using assms by (simp add: chans_ok_def)

lemma chans_ok_enqueue:
  assumes ok: "chans_ok m ws cl n" and "m i = None"
  shows "chans_ok (m(i \<mapsto> n)) (ws @ [n]) cl (Suc n)"
proof (rule chans_okI)
  have ran: "ran (m(i \<mapsto> n)) = insert n (ran m)" using assms(2) by (rule ran_map_upd)
  show "set (ws @ [n]) \<subseteq> ran (m(i \<mapsto> n))" "ran (m(i \<mapsto> n)) \<subseteq> {..<Suc n}"
    unfolding ran using chans_okD(5,6) [OF ok] by (auto simp: subset_iff)
  have "Some n \<notin> m ` dom m" using chans_okD(6) [OF ok] by (force dest: ranI)
  then have "m j \<noteq> Some n" for j by (metis domI imageI)
  with chans_okD(7) [OF ok] show "inj_on (m(i \<mapsto> n)) (dom (m(i \<mapsto> n)))"
    by (auto simp: inj_on_def)
qed (use chans_okD(1-4) [OF ok] in \<open>auto simp: subset_iff\<close>)

lemma chans_ok_leave:
  assumes ok: "chans_ok m ws cl n" and i: "m i = Some w"
  shows "chans_ok (m(i := None)) (remove1 w ws) cl n"
proof (rule chans_okI)
  have sub: "set (remove1 w ws) \<subseteq> set ws - {w}"
    using chans_okD(1) [OF ok] by (simp add: set_remove1_eq)
  show "set (remove1 w ws) \<inter> set cl = {}" "set (remove1 w ws) \<subseteq> {..<n}"
    using sub chans_okD(2,3) [OF ok] by blast+
  have "v \<in> ran (m(i := None))" if v: "v \<in> ran m" "v \<noteq> w" for v
  proof -
    obtain a where a: "m a = Some v" using v(1) by (auto simp: ran_def)
    with v(2) i have "(m(i := None)) a = Some v" by auto
    then show ?thesis by (rule ranI)
  qed
  then show "set (remove1 w ws) \<subseteq> ran (m(i := None))"
    using sub chans_okD(5) [OF ok] by blast
  have "ran (m(i := None)) \<subseteq> ran m" by (auto simp: ran_def split: if_splits)
  then show "ran (m(i := None)) \<subseteq> {..<n}" using chans_okD(6) [OF ok] by blast
  show "inj_on (m(i := None)) (dom (m(i := None)))"
    using chans_okD(7) [OF ok] by (auto simp: inj_on_def)
qed (use chans_okD(1,4) [OF ok] in simp_all)

lemma chans_ok_close: "chans_ok m (w # ws) cl n \<Longrightarrow> chans_ok m ws (w # cl) n"
  by (auto simp: chans_ok_def)

definition count_inv :: "sem_sys \<Rightarrow> bool" where
  "count_inv y \<longleftrightarrow>
     sem_current (sys_sem y) = int (card (owners y)) + int (sys_lost y) \<and>
     sem_current (sys_sem y) \<le> sem_capacity (sys_sem y)"

lemma finite_owned [simp]: "finite (owned cl ps)"
  by (simp add: owned_def)

lemma phase_atD: "phase_at ps i = Some p \<Longrightarrow> i < length ps \<and> ps ! i = p"
  by (simp add: phase_at_def split: if_splits)

lemma sys_set_simps [simp]:
  "sys_sem (sys_set i p y) = sys_sem y"
  "sys_closed (sys_set i p y) = sys_closed y"
  "sys_next (sys_set i p y) = sys_next y"
  "sys_lost (sys_set i p y) = sys_lost y"
  "sys_phases (sys_set i p y) = (sys_phases y)[i := p]"
  by (simp_all add: sys_set_def)

lemma ph_owns_simps [simp]:
  "\<not> ph_owns c SemIdle" "\<not> ph_owns c SemTryFailed" "ph_owns c SemHolding"
  "ph_owns c (SemWaiting w) \<longleftrightarrow> w \<in> set c" "ph_owns c (SemCancelling w) \<longleftrightarrow> w \<in> set c"
  by (auto simp: ph_owns_def)

text \<open>The channels and the owners after a goroutine changes its phase.\<close>

lemma chan_map_phase: "phase_at ps i = Some p \<Longrightarrow> chan_map ps i = ph_chan p"
  by (auto simp: chan_map_def phase_at_def split: if_splits)

lemma chan_map_move: "phase_at ps i = Some q \<Longrightarrow> chan_map (ps[i := p]) = (chan_map ps)(i := ph_chan p)"
  by (auto simp: chan_map_def fun_eq_iff nth_list_update dest: phase_atD)

lemma chan_map_keep: "phase_at ps i = Some q \<Longrightarrow> ph_chan q = ph_chan p \<Longrightarrow> chan_map (ps[i := p]) = chan_map ps"
  by (simp add: chan_map_move fun_upd_idem chan_map_phase)

lemma owned_set:
  "phase_at ps i = Some q \<Longrightarrow>
   owned cl (ps[i := p]) = (if ph_owns cl p then insert i (owned cl ps) else owned cl ps - {i})"
  by (auto simp: owned_def nth_list_update dest!: phase_atD split: if_splits)

lemma mem_owned: "phase_at ps i = Some q \<Longrightarrow> i \<in> owned cl ps \<longleftrightarrow> ph_owns cl q"
  by (auto simp: owned_def dest!: phase_atD)

lemma card_owned_leave:
  assumes "phase_at ps i = Some q" and "ph_owns cl q" and "\<not> ph_owns cl p"
  shows "card (owned cl ps) = Suc (card (owned cl (ps[i := p])))"
  using assms card_Suc_Diff1 [OF finite_owned, of i cl ps, symmetric]
  by (simp only: owned_set mem_owned if_False simp_thms)

lemma card_owned_enter:
  "phase_at ps i = Some q \<Longrightarrow> \<not> ph_owns cl q \<Longrightarrow> ph_owns cl p \<Longrightarrow>
   card (owned cl (ps[i := p])) = Suc (card (owned cl ps))"
  by (simp add: owned_set mem_owned)

lemma owned_same:
  "phase_at ps i = Some q \<Longrightarrow> ph_owns cl q = ph_owns cl p \<Longrightarrow> owned cl (ps[i := p]) = owned cl ps"
  by (auto simp: owned_set mem_owned insert_absorb)

text \<open>Closing the channel of a waiter gives exactly one goroutine a permit.\<close>

lemma card_owned_close:
  assumes inv: "chans_ok (chan_map ps) ws cl n" and w: "w \<in> set ws"
  shows "card (owned (w # cl) ps) = Suc (card (owned cl ps))"
proof -
  obtain j where j: "chan_map ps j = Some w"
    using chans_okD(5) [OF inv] w by (auto simp: ran_def)
  then have jl: "j < length ps" "ph_chan (ps ! j) = Some w"
    by (auto simp: chan_map_def split: if_splits)
  have uniq: "i = j" if "i < length ps" "ph_chan (ps ! i) = Some w" for i
    using chans_ok_uniq [OF inv _ j, of i] that by (simp add: chan_map_def)
  have "w \<notin> set cl" using chans_okD(2) [OF inv] w by auto
  then have "j \<notin> owned cl ps" using jl by (auto simp: owned_def ph_owns_def)
  moreover have "ph_owns (w # cl) p \<longleftrightarrow> ph_chan p = Some w \<or> ph_owns cl p" for p
    by (auto simp: ph_owns_def)
  then have "owned (w # cl) ps = insert j (owned cl ps)"
    unfolding owned_def using jl by simp (use uniq in blast)
  ultimately show ?thesis by simp
qed

text \<open>Every step keeps both invariants.\<close>

lemma sem_inv_start: "chan_inv (sem_start capacity n)" "count_inv (sem_start capacity n)"
proof -
  have "chan_of (sem_start capacity n) = Map.empty"
    by (simp add: chan_map_def sem_start_def fun_eq_iff)
  then show "chan_inv (sem_start capacity n)"
    by (simp add: chans_ok_def sem_start_def NewSemaphore_def)
  have "owners (sem_start capacity n) = {}"
    by (auto simp: owned_def sem_start_def)
  then show "count_inv (sem_start capacity n)"
    by (simp add: count_inv_def) (simp add: sem_start_def NewSemaphore_def)
qed

lemmas sem_op_defs = sem_TryAcquire_def sem_enqueue_def sem_dequeue_def sem_Release_def

lemma chan_inv_wake:
  assumes inv: "chan_inv y" and stp: "sem_next (SemWake i) y = Some y'"
  shows "chan_inv y'"
proof -
  obtain w where w: "sys_phase y i = Some (SemWaiting w)" "w \<in> set (sys_closed y)"
    and y': "y' = sys_set i SemHolding y"
    using stp by (auto split: option.splits sem_phase.splits if_splits)
  have "w \<notin> set (sem_waiters (sys_sem y))" using chans_okD(2) [OF inv] w(2) by blast
  then show ?thesis
    using chans_ok_leave [OF inv, of i w] chan_map_phase [OF w(1)]
    by (simp add: y' chan_map_move [OF w(1)] remove1_idem)
qed

lemma chan_inv_step:
  assumes inv: "chan_inv y" and stp: "sem_next a y = Some y'"
  shows "chan_inv y'"
proof (cases a)
  case (SemTry i)
  then show ?thesis using stp inv
    by (auto simp: sem_TryAcquire_def chan_map_keep split: if_splits)
next
  case (SemEnqueue i)
  then show ?thesis using stp chans_ok_enqueue [OF inv, of i]
    by (auto simp: sem_enqueue_def chan_map_move chan_map_phase split: if_splits)
next
  case (SemWake i)
  then show ?thesis using chan_inv_wake assms by simp
next
  case (SemCtxDone i)
  then show ?thesis using stp inv
    by (auto simp: chan_map_keep split: option.splits sem_phase.splits)
next
  case (SemRemove i)
  then show ?thesis using stp chans_ok_leave [OF inv, of i]
    by (auto simp: sem_dequeue_def chan_map_move chan_map_phase split: option.splits sem_phase.splits)
next
  case (SemReleaseBy i)
  then show ?thesis using stp inv
    by (auto simp: sem_Release_def chan_map_keep intro: chans_ok_close split: if_splits list.splits)
qed

lemma card_owned_release:
  assumes inv: "chans_ok (chan_map ps) ws cl n" and ph: "phase_at ps i = Some SemHolding"
    and w: "w \<in> set ws"
  shows "card (owned (w # cl) (ps[i := SemIdle])) = card (owned cl ps)"
  using card_owned_leave [OF ph, of "w # cl" SemIdle] card_owned_close [OF inv w] by simp

lemma count_inv_release:
  assumes inv: "chan_inv y" and cnt: "count_inv y" and stp: "sem_next (SemReleaseBy i) y = Some y'"
  shows "count_inv y'"
proof -
  have ph: "sys_phase y i = Some SemHolding" using stp by (auto split: if_splits)
  have leave: "card (owners y) = Suc (card (owned (sys_closed y) ((sys_phases y)[i := SemIdle])))"
    using ph by (rule card_owned_leave) simp_all
  then have "0 < sem_current (sys_sem y)" using cnt unfolding count_inv_def by linarith
  then show ?thesis
    using stp ph cnt leave card_owned_release [OF inv ph]
    by (cases "sem_waiters (sys_sem y)") (auto simp: sem_Release_def count_inv_def)
qed

lemma count_inv_step:
  assumes inv: "chan_inv y" and cnt: "count_inv y" and stp: "sem_next a y = Some y'"
  shows "count_inv y'"
proof (cases a)
  case (SemTry i)
  then show ?thesis using stp cnt
    by (auto simp: sem_TryAcquire_def count_inv_def card_owned_enter owned_same split: if_splits)
next
  case (SemEnqueue i)
  have "sys_next y \<notin> set (sys_closed y)" using chans_okD(4) [OF inv] by auto
  with SemEnqueue show ?thesis using stp cnt
    by (auto simp: sem_enqueue_def count_inv_def owned_same split: if_splits)
next
  case (SemRemove i)
  then obtain w where w: "sys_phase y i = Some (SemCancelling w)"
    using stp by (auto split: option.splits sem_phase.splits)
  have "card (owners y) = Suc (card (owned (sys_closed y) ((sys_phases y)[i := SemIdle])))"
    if "w \<in> set (sys_closed y)" using w by (rule card_owned_leave) (simp_all add: that)
  with SemRemove w show ?thesis using stp cnt
    by (cases "w \<in> set (sys_closed y)") (auto simp: sem_dequeue_def count_inv_def owned_same)
next
  case (SemReleaseBy i)
  then show ?thesis using count_inv_release assms by blast
qed (use stp cnt in \<open>auto simp: count_inv_def owned_same
       split: option.splits sem_phase.splits if_splits\<close>)

lemma sem_reach_inv: "sem_reach capacity n y \<Longrightarrow> chan_inv y \<and> count_inv y"
  by (induction rule: sem_reach.induct)
     (auto simp del: sem_next.simps intro: sem_inv_start chan_inv_step count_inv_step)

lemma sem_next_capacity:
  "sem_next a y = Some y' \<Longrightarrow> sem_capacity (sys_sem y') = sem_capacity (sys_sem y)"
  by (cases a) (auto simp: sem_op_defs split: option.splits sem_phase.splits if_splits list.splits)

lemma sem_reach_capacity: "sem_reach capacity n y \<Longrightarrow> sem_capacity (sys_sem y) = max 1 capacity"
  by (induction rule: sem_reach.induct)
     (auto simp: sem_start_def NewSemaphore_def sem_next_capacity simp del: sem_next.simps)

section \<open>Properties\<close>

text \<open>
  \<^bold>\<open>C6\<close>. In every interleaving of any number of goroutines that call \<open>Acquire\<close>, cancel it and
  release what they hold, at most as many goroutines hold a permit as the semaphore has
  capacity. The counter is exactly the permits held or in transfer to a woken waiter plus the
  permits lost to waiters that were cancelled after they had been woken.
\<close>

theorem sem_mutual_exclusion:
  assumes "sem_reach capacity n y"
  shows "int (card (holders y)) + int (sys_lost y) \<le> max 1 capacity \<and>
    sem_current (sys_sem y) = int (card (owners y)) + int (sys_lost y)"
proof -
  have inv: "count_inv y" using sem_reach_inv [OF assms] by simp
  have "holders y \<subseteq> owners y"
    by (auto simp: holders_def owned_def dest: phase_atD)
  then have "card (holders y) \<le> card (owners y)" by (intro card_mono) simp_all
  with inv sem_reach_capacity [OF assms] show ?thesis by (simp add: count_inv_def)
qed

text \<open>A run in which the second of two goroutines waits and is woken by the first.\<close>

definition sem_handover :: "sem_action list" where
  "sem_handover = [SemTry 0, SemTry 1, SemEnqueue 1, SemReleaseBy 0]"

lemmas sem_run_simps =
  sem_handover_def sem_start_def NewSemaphore_def sem_op_defs phase_at_def sys_set_def

theorem sem_mutual_exclusion_witness:
  "\<exists>y. sem_exec (sem_handover @ [SemWake 1]) (sem_start 1 2) = Some y \<and>
       sys_phases y = [SemIdle, SemHolding] \<and> card (holders y) \<le> 1"
proof -
  obtain y where y: "sem_exec (sem_handover @ [SemWake 1]) (sem_start 1 2) = Some y"
    and ph: "sys_phases y = [SemIdle, SemHolding]"
    by (simp add: sem_run_simps numeral_2_eq_2)
  then have "sem_reach 1 2 y" by (blast intro: sem_exec_reach sem_reach.start)
  from sem_mutual_exclusion [OF this] have "card (holders y) \<le> 1" by simp
  with y ph show ?thesis by blast
qed

text \<open>
  \<^bold>\<open>C26\<close>. A permit can leak: with capacity 1 there is a run of two goroutines after which both
  are outside \<open>Acquire\<close> and hold nothing, yet no permit is available any more. It is the
  \<open>ctx.Done()\<close> branch of \<open>Acquire\<close>, which does not look whether the waiter has been woken.
\<close>

theorem sem_permit_leak:
  "\<exists>y. sem_reach 1 2 y \<and> sys_phases y = [SemIdle, SemIdle] \<and>
       sem_waiters (sys_sem y) = [] \<and> sem_Available (sys_sem y) = 0 \<and>
       fst (sem_TryAcquire (sys_sem y)) = False"
proof -
  obtain y where "sem_exec (sem_handover @ [SemCtxDone 1, SemRemove 1]) (sem_start 1 2) = Some y"
    and "sys_phases y = [SemIdle, SemIdle] \<and> sem_waiters (sys_sem y) = [] \<and>
      sem_Available (sys_sem y) = 0 \<and> fst (sem_TryAcquire (sys_sem y)) = False"
    by (simp add: sem_run_simps sem_Available_def numeral_2_eq_2)
  then show ?thesis by (blast intro: sem_exec_reach sem_reach.start)
qed

text \<open>
  A wake-up can be lost: there is a run after which one goroutine waits in \<open>Acquire\<close>
  although the only permit is available and no goroutine holds one, so that no \<open>Release\<close> is
  due. \<open>Acquire\<close> enqueues its channel without trying again under the lock.
\<close>

theorem sem_lost_wakeup:
  "\<exists>y. sem_reach 1 2 y \<and> sys_phases y = [SemIdle, SemWaiting 0] \<and>
       sem_Available (sys_sem y) = 1 \<and> holders y = {} \<and> sem_next (SemWake 1) y = None"
proof -
  obtain y where y: "sem_exec [SemTry 0, SemTry 1, SemReleaseBy 0, SemEnqueue 1] (sem_start 1 2) = Some y"
    and ph: "sys_phases y = [SemIdle, SemWaiting 0]"
    and rest: "sem_Available (sys_sem y) = 1 \<and> sem_next (SemWake 1) y = None"
    by (simp add: sem_run_simps sem_Available_def numeral_2_eq_2)
  have "holders y = {}"
    by (auto simp: holders_def ph phase_at_def nth_Cons split: if_splits nat.splits)
  with y ph rest show ?thesis by (blast intro: sem_exec_reach sem_reach.start)
qed

end
