(* ===== verification/Resilience_Manager.thy ===== *)
theory Resilience_Manager
  imports Circuit_Breaker Token_Bucket Counting_Semaphore
begin

text \<open>
  The manager of \<open>internal/resilience/manager.go\<close>: one circuit breaker, token bucket and
  semaphore per key, made on first use, and the admission check that combines them.
\<close>

section \<open>State and operations\<close>

record Manager =
  circuitBreakers :: "string \<rightharpoonup> CircuitBreaker"
  rateLimiters :: "string \<rightharpoonup> RateLimiter"
  semaphores :: "string \<rightharpoonup> Semaphore"
  cbConfig :: CircuitBreakerConfig
  defaultRate :: float64
  defaultBurst :: int

record ManagerConfig =
  mc_CircuitBreaker :: CircuitBreakerConfig
  mc_DefaultRate :: float64
  mc_DefaultBurst :: int

definition DefaultManagerConfig :: ManagerConfig where
  "DefaultManagerConfig =
     \<lparr>mc_CircuitBreaker = DefaultCircuitBreakerConfig, mc_DefaultRate = 100, mc_DefaultBurst = 50\<rparr>"

definition NewManager :: "ManagerConfig \<Rightarrow> Manager" where
  "NewManager cfg =
     \<lparr>circuitBreakers = Map.empty, rateLimiters = Map.empty, semaphores = Map.empty,
      cbConfig = mc_CircuitBreaker cfg, defaultRate = mc_DefaultRate cfg,
      defaultBurst = mc_DefaultBurst cfg\<rparr>"

definition GetCircuitBreaker :: "string \<Rightarrow> Manager \<Rightarrow> CircuitBreaker \<times> Manager" where
  "GetCircuitBreaker key m =
     (case circuitBreakers m key of
        Some cb \<Rightarrow> (cb, m)
      | None \<Rightarrow> let cb = NewCircuitBreaker key (cbConfig m)
                in (cb, m\<lparr>circuitBreakers := (circuitBreakers m)(key \<mapsto> cb)\<rparr>))"

definition GetRateLimiter :: "go_time \<Rightarrow> string \<Rightarrow> Manager \<Rightarrow> RateLimiter \<times> Manager" where
  "GetRateLimiter now key m =
     (case rateLimiters m key of
        Some rl \<Rightarrow> (rl, m)
      | None \<Rightarrow> let rl = NewRateLimiter now (defaultRate m) (defaultBurst m)
                in (rl, m\<lparr>rateLimiters := (rateLimiters m)(key \<mapsto> rl)\<rparr>))"

definition GetSemaphore :: "string \<Rightarrow> int \<Rightarrow> Manager \<Rightarrow> Semaphore \<times> Manager" where
  "GetSemaphore key capacity m =
     (case semaphores m key of
        Some s \<Rightarrow> (s, m)
      | None \<Rightarrow> let s = NewSemaphore capacity
                in (s, m\<lparr>semaphores := (semaphores m)(key \<mapsto> s)\<rparr>))"

definition SetRateLimiter :: "go_time \<Rightarrow> string \<Rightarrow> float64 \<Rightarrow> int \<Rightarrow> Manager \<Rightarrow> Manager" where
  "SetRateLimiter now key rate burst m =
     m\<lparr>rateLimiters := (rateLimiters m)(key \<mapsto> NewRateLimiter now rate burst)\<rparr>"

definition SetSemaphore :: "string \<Rightarrow> int \<Rightarrow> Manager \<Rightarrow> Manager" where
  "SetSemaphore key capacity m = m\<lparr>semaphores := (semaphores m)(key \<mapsto> NewSemaphore capacity)\<rparr>"

text \<open>
  The pointers the getters return alias the map's entries: what a method does to the object is
  written back under the key.
\<close>

definition mgr_Allow :: "go_time \<Rightarrow> string \<Rightarrow> Manager \<Rightarrow> bool \<times> Manager" where
  "mgr_Allow now key m =
     (case GetCircuitBreaker key m of
        (cb, m1) \<Rightarrow>
          (case cb_Allow now cb of
             (ok, cb') \<Rightarrow> (ok, m1\<lparr>circuitBreakers := (circuitBreakers m1)(key \<mapsto> cb')\<rparr>)))"

definition mgr_RateAllow :: "go_time \<Rightarrow> go_time \<Rightarrow> string \<Rightarrow> Manager \<Rightarrow> bool \<times> Manager" where
  "mgr_RateAllow created now key m =
     (case GetRateLimiter created key m of
        (rl, m1) \<Rightarrow>
          (case rl_Allow now rl of
             (ok, rl') \<Rightarrow> (ok, m1\<lparr>rateLimiters := (rateLimiters m1)(key \<mapsto> rl')\<rparr>)))"

text \<open>
  The check either decides at once or, when \<open>Acquire\<close>'s first attempt fails, blocks in the
  semaphore: \<open>CheckWaits\<close> is the state \<^const>\<open>SemTryFailed\<close> of the theory of the semaphore.
\<close>

datatype check_result = CheckAllowed | ErrCircuitOpen | ErrRateLimited | CheckWaits

definition CheckAndAcquire ::
  "go_time \<Rightarrow> go_time \<Rightarrow> go_time \<Rightarrow> string \<Rightarrow> int \<Rightarrow> Manager \<Rightarrow> check_result \<times> Manager" where
  "CheckAndAcquire t1 t2 t3 key maxConcurrent m =
     (case mgr_Allow t1 key m of
        (False, m1) \<Rightarrow> (ErrCircuitOpen, m1)
      | (True, m1) \<Rightarrow>
          (case mgr_RateAllow t2 t3 key m1 of
             (False, m2) \<Rightarrow> (ErrRateLimited, m2)
           | (True, m2) \<Rightarrow>
               if maxConcurrent > 0
               then case GetSemaphore key maxConcurrent m2 of
                      (s, m3) \<Rightarrow>
                        (case sem_TryAcquire s of
                           (ok, s') \<Rightarrow> (if ok then CheckAllowed else CheckWaits,
                                       m3\<lparr>semaphores := (semaphores m3)(key \<mapsto> s')\<rparr>))
               else (CheckAllowed, m2)))"

text \<open>\<open>Release\<close> also returns the channel that the semaphore closes.\<close>

definition mgr_Release :: "string \<Rightarrow> int \<Rightarrow> Manager \<Rightarrow> nat option \<times> Manager" where
  "mgr_Release key maxConcurrent m =
     (if maxConcurrent > 0
      then case semaphores m key of
             Some s \<Rightarrow> (case sem_Release s of
                          (c, s') \<Rightarrow> (c, m\<lparr>semaphores := (semaphores m)(key \<mapsto> s')\<rparr>))
           | None \<Rightarrow> (None, m)
      else (None, m))"

definition mgr_RecordSuccess :: "string \<Rightarrow> Manager \<Rightarrow> Manager" where
  "mgr_RecordSuccess key m =
     (case GetCircuitBreaker key m of
        (cb, m1) \<Rightarrow> m1\<lparr>circuitBreakers := (circuitBreakers m1)(key \<mapsto> cb_RecordSuccess cb)\<rparr>)"

definition mgr_RecordFailure :: "go_time \<Rightarrow> string \<Rightarrow> Manager \<Rightarrow> Manager" where
  "mgr_RecordFailure now key m =
     (case GetCircuitBreaker key m of
        (cb, m1) \<Rightarrow> m1\<lparr>circuitBreakers := (circuitBreakers m1)(key \<mapsto> cb_RecordFailure now cb)\<rparr>)"

record ResilienceStats =
  rs_Key :: string
  rs_CircuitState :: string
  rs_RateLimitTokens :: float64
  rs_ConcurrentCurrent :: int
  rs_ConcurrentCapacity :: int

text \<open>\<open>Stats\<close> refills the token bucket of the key, as \<open>Tokens\<close> does.\<close>

definition mgr_Stats :: "go_time \<Rightarrow> string \<Rightarrow> Manager \<Rightarrow> ResilienceStats \<times> Manager" where
  "mgr_Stats now key m =
     (let st0 = \<lparr>rs_Key = key, rs_CircuitState = [], rs_RateLimitTokens = 0,
                 rs_ConcurrentCurrent = 0, rs_ConcurrentCapacity = 0\<rparr>;
          st1 = (case circuitBreakers m key of
                   Some cb \<Rightarrow> st0\<lparr>rs_CircuitState := CircuitState_String (cb_state cb)\<rparr> | None \<Rightarrow> st0);
          (st2, m1) = (case rateLimiters m key of
                   Some rl \<Rightarrow> (case rl_Tokens now rl of
                      (tk, rl') \<Rightarrow> (st1\<lparr>rs_RateLimitTokens := tk\<rparr>,
                                    m\<lparr>rateLimiters := (rateLimiters m)(key \<mapsto> rl')\<rparr>))
                 | None \<Rightarrow> (st1, m))
      in case semaphores m1 key of
           Some s \<Rightarrow> (st2\<lparr>rs_ConcurrentCurrent := sem_current s,
                          rs_ConcurrentCapacity := sem_capacity s\<rparr>, m1)
         | None \<Rightarrow> (st2, m1))"

section \<open>Properties\<close>

text \<open>What is stored under a key, for all three components.\<close>

definition mgr_at :: "Manager \<Rightarrow> string \<Rightarrow> CircuitBreaker option \<times> RateLimiter option \<times> Semaphore option" where
  "mgr_at m key = (circuitBreakers m key, rateLimiters m key, semaphores m key)"

lemma mgr_Allow_at: "k \<noteq> key \<Longrightarrow> mgr_Allow now key m = (ok, m') \<Longrightarrow> mgr_at m' k = mgr_at m k"
  by (auto simp: mgr_Allow_def GetCircuitBreaker_def mgr_at_def Let_def
      split: option.splits prod.splits)

lemma mgr_RateAllow_at:
  "k \<noteq> key \<Longrightarrow> mgr_RateAllow t now key m = (ok, m') \<Longrightarrow> mgr_at m' k = mgr_at m k"
  by (auto simp: mgr_RateAllow_def GetRateLimiter_def mgr_at_def Let_def
      split: option.splits prod.splits)

lemma GetSemaphore_at: "k \<noteq> key \<Longrightarrow> GetSemaphore key n m = (s, m') \<Longrightarrow> mgr_at m' k = mgr_at m k"
  by (auto simp: GetSemaphore_def mgr_at_def Let_def split: option.splits)

text \<open>
  Deployments do not disturb each other: an admission check for one key, whatever its
  result, leaves the breaker, the bucket and the semaphore of every other key as they are.
\<close>

theorem mgr_keys_isolated:
  assumes "k \<noteq> key"
  shows "mgr_at (snd (CheckAndAcquire t1 t2 t3 key maxConcurrent m)) k = mgr_at m k"
proof -
  obtain ok1 m1 where r1: "mgr_Allow t1 key m = (ok1, m1)" by fastforce
  obtain ok2 m2 where r2: "mgr_RateAllow t2 t3 key m1 = (ok2, m2)" by fastforce
  obtain s m3 where r3: "GetSemaphore key maxConcurrent m2 = (s, m3)" by fastforce
  obtain ok3 s' where r4: "sem_TryAcquire s = (ok3, s')" by fastforce
  have "mgr_at m1 k = mgr_at m k" and "mgr_at m2 k = mgr_at m1 k" and "mgr_at m3 k = mgr_at m2 k"
    using mgr_Allow_at [OF assms r1] mgr_RateAllow_at [OF assms r2] GetSemaphore_at [OF assms r3]
    by simp_all
  moreover have "mgr_at (m3\<lparr>semaphores := (semaphores m3)(key \<mapsto> s')\<rparr>) k = mgr_at m3 k"
    using assms by (simp add: mgr_at_def)
  ultimately show ?thesis
    by (cases ok1; cases ok2) (simp_all add: CheckAndAcquire_def r1 r2 r3 r4)
qed

text \<open>
  A check that the breaker lets through in the half-open state and the token bucket then
  rejects uses up one of the breaker's probes: the count of half-open requests grows although
  no request is sent whose outcome could be recorded.
\<close>

theorem mgr_rate_limited_uses_probe:
  assumes "circuitBreakers m key = Some cb" and "cb_state cb = StateHalfOpen"
    and "cb_halfOpenCount cb < HalfOpenMaxRequests (cb_config cb)"
    and "rateLimiters m key = Some rl" and "rl_tokens (rl_refill t3 rl) < 1"
  shows "fst (CheckAndAcquire t1 t2 t3 key maxConcurrent m) = ErrRateLimited \<and>
    circuitBreakers (snd (CheckAndAcquire t1 t2 t3 key maxConcurrent m)) key =
      Some (cb\<lparr>cb_halfOpenCount := cb_halfOpenCount cb + 1\<rparr>)"
proof -
  have "cb_Allow t1 cb = (True, cb\<lparr>cb_halfOpenCount := cb_halfOpenCount cb + 1\<rparr>)"
    using assms by (simp add: cb_Allow_def)
  moreover have "rl_Allow t3 rl = (False, rl_refill t3 rl)"
    using assms by (simp add: rl_Allow_def rl_AllowN_def Let_def del: rl_refill_simps)
  ultimately show ?thesis
    using assms by (simp add: CheckAndAcquire_def mgr_Allow_def mgr_RateAllow_def
        GetCircuitBreaker_def GetRateLimiter_def)
qed

theorem mgr_rate_limited_uses_probe_witness:
  "\<exists>m cb. cb_halfOpenCount cb = 1 \<and>
     circuitBreakers (snd (CheckAndAcquire 0 0 0 ''k'' 0 m)) ''k'' =
       Some (cb\<lparr>cb_halfOpenCount := 2\<rparr>)"
proof -
  define cb where "cb = (NewCircuitBreaker ''k'' DefaultCircuitBreakerConfig)
    \<lparr>cb_state := StateHalfOpen, cb_halfOpenCount := 1\<rparr>"
  define m where "m = (NewManager DefaultManagerConfig)
    \<lparr>circuitBreakers := [''k'' \<mapsto> cb], rateLimiters := [''k'' \<mapsto> NewRateLimiter 0 1 0]\<rparr>"
  have "circuitBreakers (snd (CheckAndAcquire 0 0 0 ''k'' 0 m)) ''k'' =
       Some (cb\<lparr>cb_halfOpenCount := cb_halfOpenCount cb + 1\<rparr>)"
    by (rule mgr_rate_limited_uses_probe [where rl = "NewRateLimiter 0 1 0", THEN conjunct2])
       (simp_all add: m_def cb_def NewCircuitBreaker_def DefaultCircuitBreakerConfig_def
          NewRateLimiter_def Seconds_def)
  moreover have "cb_halfOpenCount cb = 1" by (simp add: cb_def)
  moreover have "cb\<lparr>cb_halfOpenCount := 1 + 1\<rparr> = cb\<lparr>cb_halfOpenCount := 2\<rparr>" by simp
  ultimately show ?thesis by (intro exI [of _ m] exI [of _ cb]) (simp only: simp_thms)
qed

end
