(* ===== verification/Router_Types.thy ===== *)
theory Router_Types
  imports Go_Prelude
begin

text \<open>
  The data of the routing layer: \<open>pkg/router/router.go\<close>, \<open>pkg/router/tenant_scope.go\<close>,
  \<open>pkg/provider/provider.go\<close> (\<open>Deployment\<close>), \<open>pkg/types/model.go\<close>, the error type of
  \<open>pkg/errors\<close> and \<open>routers/types.go\<close>. A request's context is reduced to what routing reads of
  it, the tenant scope.
\<close>

section \<open>Models, deployments and requests\<close>

record Deployment =
  dep_ID :: string
  dep_ProviderName :: string
  dep_ModelName :: string
  dep_ModelAlias :: string
  dep_BaseURL :: string
  dep_APIKey :: string
  dep_MaxConcurrent :: int
  dep_Timeout :: int
  dep_Priority :: int
  dep_Metadata :: "string \<rightharpoonup> string"

type_synonym Strategy = string

definition StrategyRoundRobin :: Strategy where "StrategyRoundRobin = ''round-robin''"
definition StrategySimpleShuffle :: Strategy where "StrategySimpleShuffle = ''simple-shuffle''"
definition StrategyLowestLatency :: Strategy where "StrategyLowestLatency = ''lowest-latency''"
definition StrategyLeastBusy :: Strategy where "StrategyLeastBusy = ''least-busy''"
definition StrategyLowestTPMRPM :: Strategy where "StrategyLowestTPMRPM = ''lowest-tpm-rpm''"
definition StrategyLowestCost :: Strategy where "StrategyLowestCost = ''lowest-cost''"
definition StrategyTagBased :: Strategy where "StrategyTagBased = ''tag-based''"

lemmas strategy_defs = StrategyRoundRobin_def StrategySimpleShuffle_def StrategyLowestLatency_def
  StrategyLeastBusy_def StrategyLowestTPMRPM_def StrategyLowestCost_def StrategyTagBased_def

record RequestContext =
  rq_Model :: string
  rq_IsStreaming :: bool
  rq_Tags :: "string list"
  rq_EstimatedInputTokens :: int
  rq_Metadata :: "string \<rightharpoonup> string"

definition model_request :: "string \<Rightarrow> RequestContext" where
  "model_request model =
     \<lparr>rq_Model = model, rq_IsStreaming = False, rq_Tags = [], rq_EstimatedInputTokens = 0,
      rq_Metadata = Map.empty\<rparr>"

record ResponseMetrics =
  rm_Latency :: go_duration
  rm_TimeToFirstToken :: go_duration
  rm_TotalTokens :: int
  rm_InputTokens :: int
  rm_OutputTokens :: int
  rm_Cost :: float64

record DeploymentStats =
  TotalRequests :: int
  SuccessCount :: int
  FailureCount :: int
  ActiveRequests :: int
  LatencyHistory :: "float64 list"
  TTFTHistory :: "float64 list"
  AvgLatencyMs :: float64
  AvgTTFTMs :: float64
  EWMALatencyMs :: float64
  EWMAAvgTTFTMs :: float64
  EWMASuccessRate :: float64
  MaxLatencyListSize :: int
  CurrentMinuteTPM :: int
  CurrentMinuteRPM :: int
  CurrentMinuteKey :: string
  LastRequestTime :: go_time
  CooldownUntil :: go_time

text \<open>The zero value of the struct, as a composite literal without fields gives it.\<close>

definition zero_stats :: DeploymentStats where
  "zero_stats =
     \<lparr>TotalRequests = 0, SuccessCount = 0, FailureCount = 0, ActiveRequests = 0,
      LatencyHistory = [], TTFTHistory = [], AvgLatencyMs = 0, AvgTTFTMs = 0, EWMALatencyMs = 0,
      EWMAAvgTTFTMs = 0, EWMASuccessRate = 0, MaxLatencyListSize = 0, CurrentMinuteTPM = 0,
      CurrentMinuteRPM = 0, CurrentMinuteKey = [], LastRequestTime = zero_time,
      CooldownUntil = zero_time\<rparr>"

record DeploymentConfig =
  dc_Weight :: float64
  dc_TPMLimit :: int
  dc_RPMLimit :: int
  dc_InputCostPerToken :: float64
  dc_OutputCostPerToken :: float64
  dc_Tags :: "string list"

definition zero_DeploymentConfig :: DeploymentConfig where
  "zero_DeploymentConfig =
     \<lparr>dc_Weight = 0, dc_TPMLimit = 0, dc_RPMLimit = 0, dc_InputCostPerToken = 0,
      dc_OutputCostPerToken = 0, dc_Tags = []\<rparr>"

record ExtendedDeployment =
  ext_Deployment :: Deployment
  ext_Config :: DeploymentConfig

abbreviation ext_ID :: "ExtendedDeployment \<Rightarrow> string" where
  "ext_ID d \<equiv> dep_ID (ext_Deployment d)"

record Config =
  cfg_Strategy :: Strategy
  CooldownPeriod :: go_duration
  LatencyBuffer :: float64
  cfg_MaxLatencyListSize :: int
  MetricsTTL :: go_duration
  EnableTagFiltering :: bool
  DefaultProvider :: string
  PricingFile :: string
  FailureThresholdPercent :: float64
  MinRequestsForThreshold :: int
  ImmediateCooldownOn429 :: bool
  EWMAAlpha :: float64

definition DefaultConfig :: Config where
  "DefaultConfig =
     \<lparr>cfg_Strategy = StrategySimpleShuffle, CooldownPeriod = 60 * second, LatencyBuffer = 1 / 10,
      cfg_MaxLatencyListSize = 10, MetricsTTL = 1 * hour, EnableTagFiltering = False,
      DefaultProvider = [], PricingFile = [], FailureThresholdPercent = 1 / 2,
      MinRequestsForThreshold = 5, ImmediateCooldownOn429 = True, EWMAAlpha = 1 / 10\<rparr>"

section \<open>Errors\<close>

record LLMError =
  StatusCode :: int
  err_Message :: string
  err_Type :: string
  err_Provider :: string
  err_Model :: string
  Retryable :: bool

datatype go_error = LLMErr LLMError | WrappedErr string go_error | PlainErr string

text \<open>\<open>errors.As\<close> follows the chain of wrapped errors; a type assertion looks at the head only.\<close>

fun errors_As :: "go_error \<Rightarrow> LLMError option" where
  "errors_As (LLMErr e) = Some e"
| "errors_As (WrappedErr msg e) = errors_As e"
| "errors_As (PlainErr msg) = None"

fun assert_LLMError :: "go_error \<Rightarrow> LLMError option" where
  "assert_LLMError (LLMErr e) = Some e"
| "assert_LLMError _ = None"

text \<open>\<open>PickPanic\<close> is the panic of \<open>rand.Intn(0)\<close>, when a strategy is left without candidates.\<close>

datatype pick_error = ErrNoAvailableDeployment | ErrNoDeploymentsWithTag | PickPanic

section \<open>Tenant scope and model names\<close>

text \<open>A context is its tenant scope; the empty string is a context without one.\<close>

type_synonym go_context = string

definition WithTenantScope :: "go_context \<Rightarrow> string \<Rightarrow> go_context" where
  "WithTenantScope ctx scope = (if scope = [] then ctx else scope)"

definition TenantScopeFromContext :: "go_context \<Rightarrow> string" where
  "TenantScopeFromContext ctx = ctx"

definition localStatsKey :: "go_context \<Rightarrow> string \<Rightarrow> string" where
  "localStatsKey ctx deploymentID =
     (let scope = TenantScopeFromContext ctx
      in if scope = [] then deploymentID else scope @ '':'' @ deploymentID)"

definition MaxModelNameLength :: nat where
  "MaxModelNameLength = 256"

definition ValidateModelName :: "string \<Rightarrow> bool" where
  "ValidateModelName model \<longleftrightarrow> \<not> length model > MaxModelNameLength"

definition SplitProviderModel :: "string \<Rightarrow> string \<times> string" where
  "SplitProviderModel model0 =
     (let model = TrimSpace model0
      in if model = [] then ([], [])
         else case IndexByte model (CHR ''/'') of
                None \<Rightarrow> ([], model)
              | Some idx \<Rightarrow> (if idx = 0 \<or> idx \<ge> length model - 1 then ([], model)
                            else (take idx model, drop (Suc idx) model)))"

definition canonicalModelKey :: "string \<Rightarrow> string" where
  "canonicalModelKey model = snd (SplitProviderModel model)"

definition minuteKey :: "go_time \<Rightarrow> string" where
  "minuteKey t = FormatInt (go_div (Unix t) 60)"

text \<open>The parts of a split model are not empty, and joined by a slash they are the name again.\<close>

lemma SplitProviderModel_join:
  assumes "SplitProviderModel model = (p, m)" and "p \<noteq> []"
  shows "TrimSpace model = p @ ''/'' @ m \<and> m \<noteq> [] \<and> CHR ''/'' \<notin> set p"
proof -
  obtain i where i: "IndexByte (TrimSpace model) (CHR ''/'') = Some i" "0 < i"
    "i < length (TrimSpace model) - 1" "p = take i (TrimSpace model)" "m = drop (Suc i) (TrimSpace model)"
    using assms by (auto simp: SplitProviderModel_def Let_def split: option.splits if_splits)
  have first: "IndexByte s c = Some i \<Longrightarrow> c \<notin> set (take i s)" for s c i
  proof (induction s arbitrary: i)
    case (Cons x s)
    then show ?case by (cases "x = c") auto
  qed simp
  show ?thesis
    using IndexByte_Some_split [OF i(1)] i first [OF i(1)] by auto
qed

lemma SplitProviderModel_plain:
  "fst (SplitProviderModel model) = [] \<Longrightarrow> snd (SplitProviderModel model) = TrimSpace model"
  by (auto simp: SplitProviderModel_def Let_def split: option.splits if_splits)

end
