(* ===== verification/Failure_Window.thy ===== *)
theory Failure_Window
  imports Router_Types
begin

text \<open>
  The per-deployment statistics of \<open>routers/base.go\<close> and the ring of one-minute buckets that
  counts the outcomes of the last five minutes. The ring is shown to be exact: it gives the
  same totals as the whole history of outcomes.
\<close>

section \<open>State and operations\<close>

record failureBucket =
  fb_minute :: int
  fb_success :: int
  fb_failure :: int

text \<open>
  The entry has the fields of \<^typ>\<open>DeploymentStats\<close> and the buckets; a snapshot of it for the
  strategies leaves out the buckets.
\<close>

record statsEntry = DeploymentStats +
  FailureBuckets :: "failureBucket list"

definition defaultFailureWindowMinutes :: int where "defaultFailureWindowMinutes = 5"
definition defaultFailureBucketSeconds :: int where "defaultFailureBucketSeconds = 60"
definition defaultSingleDeploymentFailureMinReq :: int where
  "defaultSingleDeploymentFailureMinReq = 1000"

definition failureWindowMinutes :: int where
  "failureWindowMinutes = defaultFailureWindowMinutes"

definition singleDeploymentFailureThreshold :: int where
  "singleDeploymentFailureThreshold = defaultSingleDeploymentFailureMinReq"

lemmas window_consts = failureWindowMinutes_def defaultFailureWindowMinutes_def
  defaultFailureBucketSeconds_def singleDeploymentFailureThreshold_def
  defaultSingleDeploymentFailureMinReq_def

definition newStatsEntry :: "Config \<Rightarrow> statsEntry" where
  "newStatsEntry cfg =
     (let windowSize = failureWindowMinutes;
          buckets = (if windowSize > 0
                     then replicate (nat windowSize) \<lparr>fb_minute = 0, fb_success = 0, fb_failure = 0\<rparr>
                     else [])
      in DeploymentStats.extend
           (zero_stats\<lparr>MaxLatencyListSize := cfg_MaxLatencyListSize cfg, EWMASuccessRate := 1\<rparr>)
           (statsEntry.fields buckets))"

definition statsEntrySnapshot :: "statsEntry option \<Rightarrow> DeploymentStats option" where
  "statsEntrySnapshot stats = map_option DeploymentStats.truncate stats"

text \<open>
  The index is the remainder of the minute; the clock is past 1970, so that it is not negative.
\<close>

definition recordWindow :: "go_time \<Rightarrow> bool \<Rightarrow> statsEntry \<Rightarrow> statsEntry" where
  "recordWindow now success stats =
     (if FailureBuckets stats = [] then stats
      else let mnt = go_div (Unix now) defaultFailureBucketSeconds;
               idx = nat (go_mod mnt (int (length (FailureBuckets stats))));
               bucket = FailureBuckets stats ! idx;
               bucket1 = (if fb_minute bucket \<noteq> mnt
                          then \<lparr>fb_minute = mnt, fb_success = 0, fb_failure = 0\<rparr> else bucket);
               bucket2 = (if success then bucket1\<lparr>fb_success := fb_success bucket1 + 1\<rparr>
                          else bucket1\<lparr>fb_failure := fb_failure bucket1 + 1\<rparr>)
           in stats\<lparr>FailureBuckets := (FailureBuckets stats)[idx := bucket2]\<rparr>)"

definition recordWindowSuccess :: "go_time \<Rightarrow> statsEntry \<Rightarrow> statsEntry" where
  "recordWindowSuccess now stats = recordWindow now True stats"

definition recordWindowFailure :: "go_time \<Rightarrow> statsEntry \<Rightarrow> statsEntry" where
  "recordWindowFailure now stats = recordWindow now False stats"

definition windowTotals :: "go_time \<Rightarrow> statsEntry \<Rightarrow> int \<times> int" where
  "windowTotals now stats =
     (if FailureBuckets stats = [] then (0, 0)
      else let currentMinute = go_div (Unix now) defaultFailureBucketSeconds;
               cutoff = currentMinute - (failureWindowMinutes - 1);
               recent = filter (\<lambda>bucket. fb_minute bucket \<ge> cutoff) (FailureBuckets stats)
           in (sum_list (map fb_success recent), sum_list (map fb_failure recent)))"

definition shouldCooldownByFailureRate :: "Config \<Rightarrow> go_time \<Rightarrow> bool \<Rightarrow> statsEntry \<Rightarrow> bool" where
  "shouldCooldownByFailureRate cfg now isSingleDeployment stats =
     (let (successTotal, failureTotal) = windowTotals now stats;
          total = successTotal + failureTotal
      in if total = 0 then False
         else if isSingleDeployment
         then total \<ge> singleDeploymentFailureThreshold \<and> failureTotal = total
         else if total < MinRequestsForThreshold cfg then False
         else (of_int failureTotal / of_int total :: float64) > FailureThresholdPercent cfg)"

section \<open>The ring against the history\<close>

text \<open>
  The history is the list of outcomes with their times. Its summary for a window is the number
  of successes and failures whose minute is at least the first minute of the window.
\<close>

definition minute_of :: "go_time \<Rightarrow> int" where
  "minute_of t = go_div (Unix t) 60"

definition outcomes :: "bool \<Rightarrow> (int \<Rightarrow> bool) \<Rightarrow> (go_time \<times> bool) list \<Rightarrow> int" where
  "outcomes ok P h = int (length (filter (\<lambda>(t, s). s = ok \<and> P (minute_of t)) h))"

definition window_spec :: "go_time \<Rightarrow> (go_time \<times> bool) list \<Rightarrow> int \<times> int" where
  "window_spec now h =
     (outcomes True (\<lambda>m. minute_of now - 4 \<le> m) h, outcomes False (\<lambda>m. minute_of now - 4 \<le> m) h)"

definition replay :: "(go_time \<times> bool) list \<Rightarrow> statsEntry \<Rightarrow> statsEntry" where
  "replay h st = fold (\<lambda>(t, ok) s. recordWindow t ok s) h st"

text \<open>Times as the clock gives them: past 1970 and not going backwards.\<close>

definition clock_ok :: "go_time list \<Rightarrow> bool" where
  "clock_ok ts \<longleftrightarrow> sorted ts \<and> (\<forall>t\<in>set ts. 0 \<le> Unix t)"

lemma minute_of_nonneg [simp]: "0 \<le> Unix t \<Longrightarrow> 0 \<le> minute_of t"
  by (simp add: minute_of_def)

lemma minute_of_mono: "0 \<le> Unix s \<Longrightarrow> s \<le> t \<Longrightarrow> minute_of s \<le> minute_of t"
  using Unix_mono [of s t] by (simp add: minute_of_def zdiv_mono1)

text \<open>
  What bucket \<open>i\<close> knows of the history: it counts the outcomes of its own minute, no outcome
  of its residue class is later, and the bucket is either of that class or still new.
\<close>

definition bucket_ok :: "(go_time \<times> bool) list \<Rightarrow> int \<Rightarrow> int \<Rightarrow> failureBucket \<Rightarrow> bool" where
  "bucket_ok h cur i b \<longleftrightarrow>
     fb_success b = outcomes True (\<lambda>m. m = fb_minute b \<and> m mod 5 = i) h \<and>
     fb_failure b = outcomes False (\<lambda>m. m = fb_minute b \<and> m mod 5 = i) h \<and>
     (\<forall>(t, s)\<in>set h. minute_of t mod 5 = i \<longrightarrow> minute_of t \<le> fb_minute b) \<and>
     fb_minute b \<le> cur \<and> (fb_minute b mod 5 = i \<or> fb_minute b = 0)"

definition ring_ok :: "(go_time \<times> bool) list \<Rightarrow> int \<Rightarrow> failureBucket list \<Rightarrow> bool" where
  "ring_ok h cur bs \<longleftrightarrow> length bs = 5 \<and> (\<forall>i<5. bucket_ok h cur (int i) (bs ! i))"

lemma outcomes_snoc [simp]:
  "outcomes ok P (h @ [(t, s)]) = outcomes ok P h + (if s = ok \<and> P (minute_of t) then 1 else 0)"
  by (simp add: outcomes_def)

lemma outcomes_none: "\<forall>(t, s)\<in>set h. \<not> P (minute_of t) \<Longrightarrow> outcomes ok P h = 0"
  by (auto simp: outcomes_def filter_empty_conv)

lemma outcomes_cong: "(\<And>t s. (t, s) \<in> set h \<Longrightarrow> P (minute_of t) = Q (minute_of t)) \<Longrightarrow> outcomes ok P h = outcomes ok Q h"
  unfolding outcomes_def by (intro arg_cong [where f = int] arg_cong [where f = length] filter_cong) auto

text \<open>An outcome at a minute not before all others.\<close>

lemma bucket_ok_other:
  assumes "bucket_ok h cur i b" and "cur \<le> minute_of t" and "minute_of t mod 5 \<noteq> i"
  shows "bucket_ok (h @ [(t, s)]) (minute_of t) i b"
  using assms by (auto simp: bucket_ok_def)

definition hit_bucket :: "int \<Rightarrow> bool \<Rightarrow> failureBucket \<Rightarrow> failureBucket" where
  "hit_bucket mnt ok b =
     (let b1 = (if fb_minute b \<noteq> mnt
                then \<lparr>fb_minute = mnt, fb_success = 0, fb_failure = 0\<rparr> else b)
      in if ok then b1\<lparr>fb_success := fb_success b1 + 1\<rparr> else b1\<lparr>fb_failure := fb_failure b1 + 1\<rparr>)"

lemma bucket_okD:
  assumes "bucket_ok h cur i b"
  shows "fb_success b = outcomes True (\<lambda>m. m = fb_minute b \<and> m mod 5 = i) h"
    and "fb_failure b = outcomes False (\<lambda>m. m = fb_minute b \<and> m mod 5 = i) h"
    and "(t, s) \<in> set h \<Longrightarrow> minute_of t mod 5 = i \<Longrightarrow> minute_of t \<le> fb_minute b"
    and "fb_minute b \<le> cur" and "fb_minute b mod 5 = i \<or> fb_minute b = 0"
  using assms by (auto simp: bucket_ok_def)

lemma bucket_ok_hit:
  assumes ok: "bucket_ok h cur i b" and cur: "cur \<le> minute_of t" and i: "minute_of t mod 5 = i"
  shows "bucket_ok (h @ [(t, s)]) (minute_of t) i (hit_bucket (minute_of t) s b)"
proof -
  have late: "\<forall>(t', s')\<in>set (h @ [(t, s)]). minute_of t' mod 5 = i \<longrightarrow> minute_of t' \<le> minute_of t"
    using bucket_okD(3,4) [OF ok] cur by fastforce
  have fresh: "outcomes r (\<lambda>m. m = minute_of t \<and> m mod 5 = i) h = 0"
    if "fb_minute b \<noteq> minute_of t" for r
    using bucket_okD(3,4) [OF ok] cur that by (intro outcomes_none) fastforce
  have succ: "fb_success (hit_bucket (minute_of t) s b)
      = outcomes True (\<lambda>m. m = minute_of t \<and> m mod 5 = i) (h @ [(t, s)])"
    using bucket_okD(1) [OF ok] fresh i by (cases "fb_minute b = minute_of t") (simp_all add: hit_bucket_def)
  have fail: "fb_failure (hit_bucket (minute_of t) s b)
      = outcomes False (\<lambda>m. m = minute_of t \<and> m mod 5 = i) (h @ [(t, s)])"
    using bucket_okD(2) [OF ok] fresh i by (cases "fb_minute b = minute_of t") (simp_all add: hit_bucket_def)
  have "fb_minute (hit_bucket (minute_of t) s b) = minute_of t"
    by (simp add: hit_bucket_def Let_def)
  then show ?thesis
    unfolding bucket_ok_def using succ fail late i by simp
qed

lemma recordWindow_ring:
  assumes ring: "ring_ok h cur (FailureBuckets st)" and "cur \<le> minute_of t" and "0 \<le> Unix t"
  shows "ring_ok (h @ [(t, s)]) (minute_of t) (FailureBuckets (recordWindow t s st))"
proof -
  let ?bs = "FailureBuckets st" and ?k = "nat (minute_of t mod 5)"
  have len: "length ?bs = 5" using ring by (simp add: ring_ok_def)
  have k: "?k < 5" "int ?k = minute_of t mod 5"
    by simp_all
  have mn: "go_div (Unix t) defaultFailureBucketSeconds = minute_of t"
    by (simp add: minute_of_def window_consts)
  have md: "go_mod (minute_of t) 5 = minute_of t mod 5"
    using assms(3) by (intro go_mod_nonneg) simp_all
  have ne: "?bs \<noteq> []" using len by auto
  have upd: "FailureBuckets (recordWindow t s st) = ?bs[?k := hit_bucket (minute_of t) s (?bs ! ?k)]"
    unfolding recordWindow_def mn Let_def len hit_bucket_def using ne by (simp add: md)
  have "bucket_ok (h @ [(t, s)]) (minute_of t) (int i) (?bs[?k := hit_bucket (minute_of t) s (?bs ! ?k)] ! i)"
    if "i < 5" for i
  proof (cases "i = ?k")
    case True
    have "bucket_ok h cur (int i) (?bs ! i)" using ring that by (simp add: ring_ok_def)
    then have "bucket_ok (h @ [(t, s)]) (minute_of t) (int i) (hit_bucket (minute_of t) s (?bs ! i))"
      using assms(2) k(2) True by (intro bucket_ok_hit) simp_all
    then show ?thesis using True that len by simp
  next
    case False
    have "bucket_ok h cur (int i) (?bs ! i)" using ring that by (simp add: ring_ok_def)
    then have "bucket_ok (h @ [(t, s)]) (minute_of t) (int i) (?bs ! i)"
      using assms(2) k(2) False by (intro bucket_ok_other) (assumption | linarith)+
    then show ?thesis using False by simp
  qed
  then show ?thesis using len by (simp add: upd ring_ok_def)
qed

lemma ring_ok_new: "ring_ok [] 0 (FailureBuckets (newStatsEntry cfg))"
proof -
  have "FailureBuckets (newStatsEntry cfg) = replicate 5 \<lparr>fb_minute = 0, fb_success = 0, fb_failure = 0\<rparr>"
    by (simp add: newStatsEntry_def window_consts DeploymentStats.defs statsEntry.defs)
  then show ?thesis by (simp add: ring_ok_def bucket_ok_def outcomes_def)
qed

lemma clock_ok_snoc: "clock_ok (ts @ [t]) \<Longrightarrow> clock_ok ts \<and> 0 \<le> Unix t \<and> (\<forall>u\<in>set ts. u \<le> t)"
  by (auto simp: clock_ok_def sorted_append)

lemma replay_ring:
  "clock_ok (map fst h) \<Longrightarrow>
   ring_ok h (if h = [] then 0 else minute_of (fst (last h))) (FailureBuckets (replay h (newStatsEntry cfg)))"
proof (induction h rule: rev_induct)
  case Nil
  then show ?case by (simp add: replay_def ring_ok_new)
next
  case (snoc e h)
  obtain t s where e: "e = (t, s)" by (cases e)
  have clk: "clock_ok (map fst h)" "0 \<le> Unix t" "\<forall>u\<in>fst ` set h. u \<le> t"
    using clock_ok_snoc [of "map fst h" t] snoc.prems e by simp_all
  have "(if h = [] then 0 else minute_of (fst (last h))) \<le> minute_of t"
  proof (cases "h = []")
    case False
    then have "last h \<in> set h" by simp
    then have "fst (last h) \<le> t" and "0 \<le> Unix (fst (last h))"
      using clk by (auto simp: clock_ok_def)
    then show ?thesis using False minute_of_mono by simp
  qed (use clk(2) in simp)
  from recordWindow_ring [OF snoc.IH [OF clk(1)] this clk(2), of s] show ?case
    by (simp add: e replay_def)
qed

text \<open>Each outcome of the window is counted by the bucket of its residue class.\<close>

lemma outcomes_residues:
  "outcomes ok P h = (\<Sum>i<5. outcomes ok (\<lambda>m. P m \<and> m mod 5 = int i) h)"
proof (induction h rule: rev_induct)
  case Nil
  then show ?case by (simp add: outcomes_def)
next
  case (snoc e h)
  obtain t s where e: "e = (t, s)" by (cases e)
  have "nat (minute_of t mod 5) < 5" by simp
  then have "(\<Sum>i<5. if minute_of t mod 5 = int i then (1::int) else 0) = 1"
    by (subst sum.cong [OF refl, of _ _ "\<lambda>i. if i = nat (minute_of t mod 5) then 1 else 0"])
       auto
  then have "(\<Sum>i<5. if s = ok \<and> P (minute_of t) \<and> minute_of t mod 5 = int i then (1::int) else 0)
      = (if s = ok \<and> P (minute_of t) then 1 else 0)"
    by (cases "s = ok \<and> P (minute_of t)") auto
  with snoc show ?case by (simp add: e sum.distrib)
qed

lemma same_residue: "a mod 5 = b mod (5::int) \<Longrightarrow> a \<le> b \<Longrightarrow> b < a + 5 \<Longrightarrow> a = b"
  by presburger

lemma bucket_window:
  assumes ok: "bucket_ok h cur i b" and cur: "cur \<le> minute_of now"
    and nonneg: "\<forall>(t, s)\<in>set h. 0 \<le> minute_of t"
  shows "outcomes r (\<lambda>m. minute_of now - 4 \<le> m \<and> m mod 5 = i) h
    = (if minute_of now - 4 \<le> fb_minute b
       then outcomes r (\<lambda>m. m = fb_minute b \<and> m mod 5 = i) h else 0)"
proof -
  have same: "minute_of t = fb_minute b"
    if "(t, s) \<in> set h" "minute_of now - 4 \<le> minute_of t" "minute_of t mod 5 = i" for t s
  proof -
    have le: "minute_of t \<le> fb_minute b" using bucket_okD(3) [OF ok] that by blast
    have less: "fb_minute b < minute_of t + 5" using bucket_okD(4) [OF ok] cur that by linarith
    have nn: "0 \<le> minute_of t" using bspec [OF nonneg that(1)] by simp
    from bucket_okD(5) [OF ok] show ?thesis
    proof
      assume "fb_minute b mod 5 = i"
      with that(3) have "minute_of t mod 5 = fb_minute b mod 5" by simp
      from same_residue [OF this le less] show ?thesis .
    next
      assume "fb_minute b = 0"
      with le nn show ?thesis by linarith
    qed
  qed
  show ?thesis
  proof (cases "minute_of now - 4 \<le> fb_minute b")
    case True
    have "outcomes r (\<lambda>m. minute_of now - 4 \<le> m \<and> m mod 5 = i) h
        = outcomes r (\<lambda>m. m = fb_minute b \<and> m mod 5 = i) h"
    proof (rule outcomes_cong)
      fix t s
      assume "(t, s) \<in> set h"
      from same [OF this] True
      show "(minute_of now - 4 \<le> minute_of t \<and> minute_of t mod 5 = i)
          = (minute_of t = fb_minute b \<and> minute_of t mod 5 = i)" by auto
    qed
    with True show ?thesis by simp
  next
    case False
    have "outcomes r (\<lambda>m. minute_of now - 4 \<le> m \<and> m mod 5 = i) h = 0"
    proof (rule outcomes_none, clarify)
      fix t s
      assume "(t, s) \<in> set h" "minute_of now - 4 \<le> minute_of t" "i = minute_of t mod 5"
      with same [of t s] False show False by simp
    qed
    with False show ?thesis by simp
  qed
qed

lemma sum_list_filter_nth:
  fixes f :: "'a \<Rightarrow> int"
  shows "sum_list (map f (filter P bs)) = (\<Sum>i<length bs. if P (bs ! i) then f (bs ! i) else 0)"
  by (induction bs) (simp_all add: sum.lessThan_Suc_shift del: sum.lessThan_Suc cong: if_cong)

lemma windowTotals_ring:
  assumes ring: "ring_ok h cur (FailureBuckets st)" and cur: "cur \<le> minute_of now"
    and nonneg: "\<forall>(t, s)\<in>set h. 0 \<le> minute_of t"
  shows "windowTotals now st = window_spec now h"
proof -
  let ?bs = "FailureBuckets st" and ?c = "minute_of now - 4"
  have len: "length ?bs = 5" using ring by (simp add: ring_ok_def)
  have ok: "bucket_ok h cur (int i) (?bs ! i)" if "i < 5" for i
    using ring that by (simp add: ring_ok_def)
  have succ: "(if ?c \<le> fb_minute (?bs ! i) then fb_success (?bs ! i) else 0)
      = outcomes True (\<lambda>m. ?c \<le> m \<and> m mod 5 = int i) h" if "i < 5" for i
    using bucket_window [OF ok [OF that] cur nonneg, of True] bucket_okD(1) [OF ok [OF that]] by simp
  have fail: "(if ?c \<le> fb_minute (?bs ! i) then fb_failure (?bs ! i) else 0)
      = outcomes False (\<lambda>m. ?c \<le> m \<and> m mod 5 = int i) h" if "i < 5" for i
    using bucket_window [OF ok [OF that] cur nonneg, of False] bucket_okD(2) [OF ok [OF that]] by simp
  have mn: "go_div (Unix now) defaultFailureBucketSeconds - (failureWindowMinutes - 1) = ?c"
    by (simp add: minute_of_def window_consts)
  have ne: "?bs \<noteq> []" using len by auto
  have "windowTotals now st =
      (\<Sum>i<5. if ?c \<le> fb_minute (?bs ! i) then fb_success (?bs ! i) else 0,
       \<Sum>i<5. if ?c \<le> fb_minute (?bs ! i) then fb_failure (?bs ! i) else 0)"
    unfolding windowTotals_def Let_def mn sum_list_filter_nth len using ne by simp
  also have "\<dots> = (\<Sum>i<5. outcomes True (\<lambda>m. ?c \<le> m \<and> m mod 5 = int i) h,
       \<Sum>i<5. outcomes False (\<lambda>m. ?c \<le> m \<and> m mod 5 = int i) h)"
    by (intro arg_cong2 [where f = Pair] sum.cong refl succ fail) simp_all
  also have "\<dots> = window_spec now h"
    unfolding window_spec_def by (simp only: outcomes_residues [symmetric])
  finally show ?thesis .
qed

section \<open>Properties\<close>

lemma windowTotals_replay:
  assumes "clock_ok (map fst h @ [now])"
  shows "windowTotals now (replay h (newStatsEntry cfg)) = window_spec now h"
proof (rule windowTotals_ring)
  have clk: "clock_ok (map fst h)" "0 \<le> Unix now" "\<forall>u\<in>fst ` set h. u \<le> now"
    using clock_ok_snoc [OF assms] by simp_all
  show "ring_ok h (if h = [] then 0 else minute_of (fst (last h)))
      (FailureBuckets (replay h (newStatsEntry cfg)))"
    using clk(1) by (rule replay_ring)
  have late: "0 \<le> Unix (fst e) \<and> fst e \<le> now" if "e \<in> set h" for e
    using clk that by (auto simp: clock_ok_def)
  show "(if h = [] then 0 else minute_of (fst (last h))) \<le> minute_of now"
  proof (cases "h = []")
    case False
    then show ?thesis using late [of "last h"] minute_of_mono by simp
  qed (use clk(2) in simp)
  show "\<forall>(t, s)\<in>set h. 0 \<le> minute_of t"
    using late by fastforce
qed

text \<open>
  \<^bold>\<open>C3\<close>. The five one-minute buckets lose nothing: for every history of outcomes recorded in the
  order of the clock, the totals they give at any later time are exactly the numbers of
  successes and failures of the current and the four preceding minutes.
\<close>

theorem failure_window_exact:
  assumes "clock_ok (map fst h @ [now])"
  shows "windowTotals now (replay h (newStatsEntry cfg)) = window_spec now h"
  using assms by (rule windowTotals_replay)

text \<open>The time that is a number of seconds after the beginning of 1970.\<close>

abbreviation at_unix :: "int \<Rightarrow> go_time" where
  "at_unix n \<equiv> (62135596800 + n) * second"

theorem failure_window_exact_witness:
  "windowTotals (at_unix 660)
     (replay [(at_unix 0, True), (at_unix 305, False), (at_unix 480, True), (at_unix 659, False)]
       (newStatsEntry DefaultConfig)) = (1, 1)"
proof -
  let ?h = "[(at_unix 0, True), (at_unix 305, False), (at_unix 480, True), (at_unix 659, False)]"
  have "clock_ok (map fst ?h @ [at_unix 660])" by (simp add: clock_ok_def Unix_def)
  from failure_window_exact [OF this, of DefaultConfig] show ?thesis
    by (simp add: window_spec_def outcomes_def minute_of_def Unix_def)
qed

text \<open>
  The cooldown decision over the history: with several deployments, the failures of the
  last five minutes must exceed the configured share of the outcomes, and there must be at
  least the configured number of outcomes; the only deployment of a model is put on cooldown
  just when all of at least a thousand outcomes are failures.
\<close>

theorem failure_rate_decision:
  assumes "clock_ok (map fst h @ [now])" and "window_spec now h = (s, f)"
  shows "shouldCooldownByFailureRate cfg now single (replay h (newStatsEntry cfg)) \<longleftrightarrow>
    (if single then s = 0 \<and> f \<ge> 1000
     else s + f > 0 \<and> s + f \<ge> MinRequestsForThreshold cfg \<and>
          of_int f > FailureThresholdPercent cfg * of_int (s + f))"
proof -
  have nn: "0 \<le> s" "0 \<le> f" using assms(2) by (auto simp: window_spec_def outcomes_def)
  have "of_int f / of_int (s + f) > FailureThresholdPercent cfg \<longleftrightarrow>
      of_int f > FailureThresholdPercent cfg * (of_int (s + f) :: real)" if "0 < s + f"
    using that by (simp add: pos_less_divide_eq)
  then show ?thesis
    using windowTotals_replay [OF assms(1), of cfg] assms(2) nn
    by (auto simp: shouldCooldownByFailureRate_def window_consts Let_def)
qed

theorem failure_rate_decision_witness:
  "\<not> shouldCooldownByFailureRate DefaultConfig (at_unix 10) False
      (replay (replicate 4 (at_unix 5, False)) (newStatsEntry DefaultConfig)) \<and>
   shouldCooldownByFailureRate DefaultConfig (at_unix 10) False
      (replay (replicate 5 (at_unix 5, False)) (newStatsEntry DefaultConfig))"
proof -
  have clk: "clock_ok (map fst (replicate n (at_unix 5, False)) @ [at_unix 10])" for n
    by (auto simp: clock_ok_def Unix_def sorted_append)
  have sp: "window_spec (at_unix 10) (replicate n (at_unix 5, False)) = (0, int n)" for n
    by (simp add: window_spec_def outcomes_def minute_of_def Unix_def filter_replicate)
  show ?thesis
    using failure_rate_decision [OF clk sp, of DefaultConfig False 4]
      failure_rate_decision [OF clk sp, of DefaultConfig False 5]
    by (simp add: DefaultConfig_def)
qed

end
