(* ===== verification/Stats_Store.thy ===== *)
theory Stats_Store
  imports Router_Types
begin

text \<open>
  The interface \<open>StatsStore\<close> of \<open>pkg/router/stats_store.go\<close> with the laws its comments promise,
  and its in-memory implementation, \<open>routers/memory_stats_store.go\<close>.
\<close>

section \<open>The interface\<close>

datatype store_error = ErrStatsNotFound | ErrStoreNotAvailable | StoreFailure string

text \<open>
  A store is a record of its methods over a state. A method that writes returns its error, if
  any, and the new state. \<open>RecordFailureWithOptions\<close> is the optional method of
  \<open>failureRecordWithOptions\<close>; its last argument is \<open>isSingleDeployment\<close>. The times are what
  \<open>time.Now()\<close> returns in the method.
\<close>

record 's StatsStore =
  ss_GetStats :: "go_context \<Rightarrow> string \<Rightarrow> 's \<Rightarrow> store_error + DeploymentStats"
  ss_IncrementActiveRequests :: "go_context \<Rightarrow> string \<Rightarrow> 's \<Rightarrow> store_error option \<times> 's"
  ss_DecrementActiveRequests :: "go_context \<Rightarrow> string \<Rightarrow> 's \<Rightarrow> store_error option \<times> 's"
  ss_RecordSuccess :: "go_context \<Rightarrow> string \<Rightarrow> ResponseMetrics \<Rightarrow> go_time \<Rightarrow> go_time \<Rightarrow> 's \<Rightarrow> store_error option \<times> 's"
  ss_RecordFailure :: "go_context \<Rightarrow> string \<Rightarrow> go_error \<Rightarrow> go_time \<Rightarrow> 's \<Rightarrow> store_error option \<times> 's"
  ss_RecordFailureWithOptions ::
    "(go_context \<Rightarrow> string \<Rightarrow> go_error \<Rightarrow> bool \<Rightarrow> go_time \<Rightarrow> 's \<Rightarrow> store_error option \<times> 's) option"
  ss_SetCooldown :: "go_context \<Rightarrow> string \<Rightarrow> go_time \<Rightarrow> 's \<Rightarrow> store_error option \<times> 's"
  ss_GetCooldownUntil :: "go_context \<Rightarrow> string \<Rightarrow> 's \<Rightarrow> store_error + go_time"
  ss_DeleteStats :: "go_context \<Rightarrow> string \<Rightarrow> 's \<Rightarrow> store_error option \<times> 's"
  ss_Close :: "'s \<Rightarrow> store_error option \<times> 's"

text \<open>What a client sees of a counter: 0 while there are no statistics.\<close>

definition ss_active :: "'s StatsStore \<Rightarrow> go_context \<Rightarrow> string \<Rightarrow> 's \<Rightarrow> int" where
  "ss_active ops ctx i s =
     (case ss_GetStats ops ctx i s of Inr st \<Rightarrow> ActiveRequests st | Inl _ \<Rightarrow> 0)"

definition ss_total :: "'s StatsStore \<Rightarrow> go_context \<Rightarrow> string \<Rightarrow> 's \<Rightarrow> int" where
  "ss_total ops ctx i s =
     (case ss_GetStats ops ctx i s of Inr st \<Rightarrow> TotalRequests st | Inl _ \<Rightarrow> 0)"

text \<open>
  The laws. Every method may fail; the laws say what a call that did not fail has done, and
  that it left the other deployments alone.
\<close>

locale stats_store =
  fixes ops :: "'s StatsStore" and sinv :: "'s \<Rightarrow> bool"
  assumes inc: "\<lbrakk>sinv s; ss_IncrementActiveRequests ops ctx i s = (None, s')\<rbrakk> \<Longrightarrow>
      sinv s' \<and> ss_active ops ctx i s' = ss_active ops ctx i s + 1"
    and dec: "\<lbrakk>sinv s; ss_DecrementActiveRequests ops ctx i s = (None, s')\<rbrakk> \<Longrightarrow>
      sinv s' \<and> ss_active ops ctx i s' = max 0 (ss_active ops ctx i s - 1)"
    and active_nonneg: "sinv s \<Longrightarrow> 0 \<le> ss_active ops ctx i s"
    and success: "\<lbrakk>sinv s; ss_RecordSuccess ops ctx i rm t1 t2 s = (None, s')\<rbrakk> \<Longrightarrow>
      sinv s' \<and> ss_total ops ctx i s' = ss_total ops ctx i s + 1
        \<and> ss_active ops ctx i s' = ss_active ops ctx i s"
    and failure: "\<lbrakk>sinv s; ss_RecordFailure ops ctx i e t s = (None, s')\<rbrakk> \<Longrightarrow>
      sinv s' \<and> ss_total ops ctx i s' = ss_total ops ctx i s + 1
        \<and> ss_active ops ctx i s' = ss_active ops ctx i s"
    and cooldown: "\<lbrakk>sinv s; ss_SetCooldown ops ctx i until s = (None, s')\<rbrakk> \<Longrightarrow>
      sinv s' \<and> ss_GetCooldownUntil ops ctx i s' = Inr until"
    and inc_other: "\<lbrakk>sinv s; ss_IncrementActiveRequests ops ctx i s = (None, s'); j \<noteq> i\<rbrakk> \<Longrightarrow>
      ss_GetStats ops ctx j s' = ss_GetStats ops ctx j s"
    and dec_other: "\<lbrakk>sinv s; ss_DecrementActiveRequests ops ctx i s = (None, s'); j \<noteq> i\<rbrakk> \<Longrightarrow>
      ss_GetStats ops ctx j s' = ss_GetStats ops ctx j s"
    and delete: "\<lbrakk>sinv s; ss_DeleteStats ops ctx i s = (None, s')\<rbrakk> \<Longrightarrow>
      sinv s' \<and> ss_GetStats ops ctx i s' = Inl ErrStatsNotFound"
begin

text \<open>A request that starts and ends leaves the active count as it was.\<close>

lemma inc_dec:
  assumes "sinv s" and "ss_IncrementActiveRequests ops ctx i s = (None, s1)"
    and "ss_DecrementActiveRequests ops ctx i s1 = (None, s2)"
  shows "ss_active ops ctx i s2 = ss_active ops ctx i s"
  using inc [OF assms(1,2)] dec [OF _ assms(3)] active_nonneg [OF assms(1), of ctx i] by simp

end

section \<open>The in-memory store\<close>

record MemoryStatsStore =
  ms_stats :: "string \<rightharpoonup> DeploymentStats"
  ms_maxLatencyListSize :: int

definition NewMemoryStatsStore :: MemoryStatsStore where
  "NewMemoryStatsStore = \<lparr>ms_stats = Map.empty, ms_maxLatencyListSize = 10\<rparr>"

definition NewMemoryStatsStoreWithConfig :: "int \<Rightarrow> MemoryStatsStore" where
  "NewMemoryStatsStoreWithConfig maxLatencyListSize =
     \<lparr>ms_stats = Map.empty, ms_maxLatencyListSize = maxLatencyListSize\<rparr>"

definition ms_GetStats :: "go_context \<Rightarrow> string \<Rightarrow> MemoryStatsStore \<Rightarrow> store_error + DeploymentStats" where
  "ms_GetStats ctx deploymentID m =
     (case ms_stats m deploymentID of None \<Rightarrow> Inl ErrStatsNotFound | Some stats \<Rightarrow> Inr stats)"

definition ms_getOrCreate :: "string \<Rightarrow> MemoryStatsStore \<Rightarrow> DeploymentStats" where
  "ms_getOrCreate deploymentID m =
     (case ms_stats m deploymentID of
        Some stats \<Rightarrow> stats
      | None \<Rightarrow> zero_stats\<lparr>MaxLatencyListSize := ms_maxLatencyListSize m\<rparr>)"

text \<open>
  The pointer \<open>getOrCreateStatsLocked\<close> returns is stored in the map: a method reads the entry
  and writes it back changed.
\<close>

definition ms_update :: "string \<Rightarrow> (DeploymentStats \<Rightarrow> DeploymentStats) \<Rightarrow> MemoryStatsStore \<Rightarrow> MemoryStatsStore" where
  "ms_update deploymentID f m =
     m\<lparr>ms_stats := (ms_stats m)(deploymentID \<mapsto> f (ms_getOrCreate deploymentID m))\<rparr>"

definition ms_appendToHistory :: "MemoryStatsStore \<Rightarrow> float64 \<Rightarrow> float64 list \<Rightarrow> float64 list" where
  "ms_appendToHistory m v history =
     (let maxSize = (if ms_maxLatencyListSize m \<le> 0 then 10 else ms_maxLatencyListSize m)
      in roll (nat maxSize) history v)"

definition ms_updateUsageStats :: "go_time \<Rightarrow> int \<Rightarrow> DeploymentStats \<Rightarrow> DeploymentStats" where
  "ms_updateUsageStats now tokens stats =
     (let currentMinute = minuteKey now;
          stats1 = (if CurrentMinuteKey stats \<noteq> currentMinute
                    then stats\<lparr>CurrentMinuteKey := currentMinute, CurrentMinuteTPM := 0,
                               CurrentMinuteRPM := 0\<rparr>
                    else stats)
      in stats1\<lparr>CurrentMinuteTPM := CurrentMinuteTPM stats1 + tokens,
                CurrentMinuteRPM := CurrentMinuteRPM stats1 + 1\<rparr>)"

definition ms_IncrementActiveRequests ::
  "go_context \<Rightarrow> string \<Rightarrow> MemoryStatsStore \<Rightarrow> store_error option \<times> MemoryStatsStore" where
  "ms_IncrementActiveRequests ctx deploymentID m =
     (None, ms_update deploymentID (\<lambda>st. st\<lparr>ActiveRequests := ActiveRequests st + 1\<rparr>) m)"

definition ms_DecrementActiveRequests ::
  "go_context \<Rightarrow> string \<Rightarrow> MemoryStatsStore \<Rightarrow> store_error option \<times> MemoryStatsStore" where
  "ms_DecrementActiveRequests ctx deploymentID m =
     (None, ms_update deploymentID
        (\<lambda>st. if ActiveRequests st > 0 then st\<lparr>ActiveRequests := ActiveRequests st - 1\<rparr> else st) m)"

definition ms_success_stats ::
  "MemoryStatsStore \<Rightarrow> ResponseMetrics \<Rightarrow> go_time \<Rightarrow> go_time \<Rightarrow> DeploymentStats \<Rightarrow> DeploymentStats" where
  "ms_success_stats m metrics now now2 st0 =
     (let st1 = st0\<lparr>TotalRequests := TotalRequests st0 + 1, SuccessCount := SuccessCount st0 + 1,
                    LastRequestTime := now\<rparr>;
          latencyMs = of_int (Milliseconds (rm_Latency metrics));
          st2 = st1\<lparr>LatencyHistory := ms_appendToHistory m latencyMs (LatencyHistory st1)\<rparr>;
          ttftMs = of_int (Milliseconds (rm_TimeToFirstToken metrics));
          st3 = (if rm_TimeToFirstToken metrics > 0
                 then st2\<lparr>TTFTHistory := ms_appendToHistory m ttftMs (TTFTHistory st2)\<rparr> else st2);
          st4 = (if AvgLatencyMs st3 = 0 then st3\<lparr>AvgLatencyMs := latencyMs\<rparr>
                 else st3\<lparr>AvgLatencyMs := AvgLatencyMs st3 * (9 / 10) + latencyMs * (1 / 10)\<rparr>);
          st5 = (if rm_TimeToFirstToken metrics > 0
                 then if AvgTTFTMs st4 = 0 then st4\<lparr>AvgTTFTMs := ttftMs\<rparr>
                      else st4\<lparr>AvgTTFTMs := AvgTTFTMs st4 * (9 / 10) + ttftMs * (1 / 10)\<rparr>
                 else st4)
      in ms_updateUsageStats now2 (rm_TotalTokens metrics) st5)"

definition ms_RecordSuccess ::
  "go_context \<Rightarrow> string \<Rightarrow> ResponseMetrics \<Rightarrow> go_time \<Rightarrow> go_time \<Rightarrow> MemoryStatsStore \<Rightarrow>
   store_error option \<times> MemoryStatsStore" where
  "ms_RecordSuccess ctx deploymentID metrics now now2 m =
     (None, ms_update deploymentID (ms_success_stats m metrics now now2) m)"

definition ms_failure_stats ::
  "MemoryStatsStore \<Rightarrow> go_error \<Rightarrow> go_time \<Rightarrow> DeploymentStats \<Rightarrow> DeploymentStats" where
  "ms_failure_stats m err now st0 =
     (let st1 = st0\<lparr>TotalRequests := TotalRequests st0 + 1, FailureCount := FailureCount st0 + 1,
                    LastRequestTime := now\<rparr>
      in case assert_LLMError err of
           None \<Rightarrow> st1
         | Some e \<Rightarrow>
             if StatusCode e = 408 \<or> StatusCode e = 504
             then st1\<lparr>LatencyHistory := ms_appendToHistory m 1000000 (LatencyHistory st1)\<rparr>
             else st1)"

definition ms_RecordFailure ::
  "go_context \<Rightarrow> string \<Rightarrow> go_error \<Rightarrow> go_time \<Rightarrow> MemoryStatsStore \<Rightarrow>
   store_error option \<times> MemoryStatsStore" where
  "ms_RecordFailure ctx deploymentID err now m =
     (None, ms_update deploymentID (ms_failure_stats m err now) m)"

definition ms_RecordFailureWithOptions ::
  "go_context \<Rightarrow> string \<Rightarrow> go_error \<Rightarrow> bool \<Rightarrow> go_time \<Rightarrow> MemoryStatsStore \<Rightarrow>
   store_error option \<times> MemoryStatsStore" where
  "ms_RecordFailureWithOptions ctx deploymentID err isSingleDeployment now m =
     ms_RecordFailure ctx deploymentID err now m"

definition ms_SetCooldown ::
  "go_context \<Rightarrow> string \<Rightarrow> go_time \<Rightarrow> MemoryStatsStore \<Rightarrow> store_error option \<times> MemoryStatsStore" where
  "ms_SetCooldown ctx deploymentID until m =
     (None, ms_update deploymentID (\<lambda>st. st\<lparr>CooldownUntil := until\<rparr>) m)"

definition ms_GetCooldownUntil ::
  "go_context \<Rightarrow> string \<Rightarrow> MemoryStatsStore \<Rightarrow> store_error + go_time" where
  "ms_GetCooldownUntil ctx deploymentID m =
     (case ms_stats m deploymentID of None \<Rightarrow> Inr zero_time | Some stats \<Rightarrow> Inr (CooldownUntil stats))"

text \<open>\<open>ListDeployments\<close> returns the keys in the order the map is iterated in.\<close>

definition ms_ListDeployments :: "string list \<Rightarrow> MemoryStatsStore \<Rightarrow> string list" where
  "ms_ListDeployments order m = filter (\<lambda>i. ms_stats m i \<noteq> None) order"

definition ms_DeleteStats ::
  "go_context \<Rightarrow> string \<Rightarrow> MemoryStatsStore \<Rightarrow> store_error option \<times> MemoryStatsStore" where
  "ms_DeleteStats ctx deploymentID m = (None, m\<lparr>ms_stats := (ms_stats m)(deploymentID := None)\<rparr>)"

definition ms_Close :: "MemoryStatsStore \<Rightarrow> store_error option \<times> MemoryStatsStore" where
  "ms_Close m = (None, m\<lparr>ms_stats := Map.empty\<rparr>)"

definition memory_ops :: "MemoryStatsStore StatsStore" where
  "memory_ops =
     \<lparr>ss_GetStats = ms_GetStats, ss_IncrementActiveRequests = ms_IncrementActiveRequests,
      ss_DecrementActiveRequests = ms_DecrementActiveRequests, ss_RecordSuccess = ms_RecordSuccess,
      ss_RecordFailure = ms_RecordFailure,
      ss_RecordFailureWithOptions = Some ms_RecordFailureWithOptions,
      ss_SetCooldown = ms_SetCooldown, ss_GetCooldownUntil = ms_GetCooldownUntil,
      ss_DeleteStats = ms_DeleteStats, ss_Close = ms_Close\<rparr>"

section \<open>Invariant\<close>

text \<open>
  The counters agree, the active count is not negative and the histories stay within the
  configured length.
\<close>

definition ms_cap :: "MemoryStatsStore \<Rightarrow> nat" where
  "ms_cap m = nat (if ms_maxLatencyListSize m \<le> 0 then 10 else ms_maxLatencyListSize m)"

definition stats_ok :: "nat \<Rightarrow> DeploymentStats \<Rightarrow> bool" where
  "stats_ok n st \<longleftrightarrow>
     TotalRequests st = SuccessCount st + FailureCount st \<and> 0 \<le> SuccessCount st \<and>
     0 \<le> FailureCount st \<and> 0 \<le> ActiveRequests st \<and>
     length (LatencyHistory st) \<le> n \<and> length (TTFTHistory st) \<le> n"

definition ms_inv :: "MemoryStatsStore \<Rightarrow> bool" where
  "ms_inv m \<longleftrightarrow> (\<forall>st\<in>ran (ms_stats m). stats_ok (ms_cap m) st)"

lemma ms_update_simps [simp]:
  "ms_stats (ms_update i f m) = (ms_stats m)(i \<mapsto> f (ms_getOrCreate i m))"
  "ms_maxLatencyListSize (ms_update i f m) = ms_maxLatencyListSize m"
  "ms_cap (ms_update i f m) = ms_cap m"
  by (simp_all add: ms_update_def ms_cap_def)

lemma stats_ok_getOrCreate: "ms_inv m \<Longrightarrow> stats_ok (ms_cap m) (ms_getOrCreate i m)"
  by (auto simp: ms_inv_def ms_getOrCreate_def stats_ok_def zero_stats_def ran_def split: option.splits)

lemma ms_inv_update:
  assumes "ms_inv m" and "\<And>st. stats_ok (ms_cap m) st \<Longrightarrow> stats_ok (ms_cap m) (f st)"
  shows "ms_inv (ms_update i f m)"
  using assms stats_ok_getOrCreate [OF assms(1), of i]
  by (auto simp: ms_inv_def ran_def)

lemma length_ms_append: "length xs \<le> ms_cap m \<Longrightarrow> length (ms_appendToHistory m v xs) \<le> ms_cap m"
  unfolding ms_appendToHistory_def ms_cap_def Let_def by (rule length_roll) auto

lemma ms_usage_simps [simp]:
  "TotalRequests (ms_updateUsageStats now n st) = TotalRequests st"
  "SuccessCount (ms_updateUsageStats now n st) = SuccessCount st"
  "FailureCount (ms_updateUsageStats now n st) = FailureCount st"
  "ActiveRequests (ms_updateUsageStats now n st) = ActiveRequests st"
  "LatencyHistory (ms_updateUsageStats now n st) = LatencyHistory st"
  "TTFTHistory (ms_updateUsageStats now n st) = TTFTHistory st"
  "CooldownUntil (ms_updateUsageStats now n st) = CooldownUntil st"
  by (simp_all add: ms_updateUsageStats_def Let_def)

lemma ms_success_simps [simp]:
  "TotalRequests (ms_success_stats m rm t t2 st) = TotalRequests st + 1"
  "SuccessCount (ms_success_stats m rm t t2 st) = SuccessCount st + 1"
  "FailureCount (ms_success_stats m rm t t2 st) = FailureCount st"
  "ActiveRequests (ms_success_stats m rm t t2 st) = ActiveRequests st"
  "LatencyHistory (ms_success_stats m rm t t2 st) =
     ms_appendToHistory m (of_int (Milliseconds (rm_Latency rm))) (LatencyHistory st)"
  "TTFTHistory (ms_success_stats m rm t t2 st) =
     (if rm_TimeToFirstToken rm > 0
      then ms_appendToHistory m (of_int (Milliseconds (rm_TimeToFirstToken rm))) (TTFTHistory st)
      else TTFTHistory st)"
  by (simp_all add: ms_success_stats_def Let_def)

lemma ms_failure_simps [simp]:
  "TotalRequests (ms_failure_stats m e t st) = TotalRequests st + 1"
  "SuccessCount (ms_failure_stats m e t st) = SuccessCount st"
  "FailureCount (ms_failure_stats m e t st) = FailureCount st + 1"
  "ActiveRequests (ms_failure_stats m e t st) = ActiveRequests st"
  "TTFTHistory (ms_failure_stats m e t st) = TTFTHistory st"
  "CooldownUntil (ms_failure_stats m e t st) = CooldownUntil st"
  by (simp_all add: ms_failure_stats_def Let_def split: option.split)

lemma ms_failure_latency:
  "LatencyHistory (ms_failure_stats m e t st) \<in>
     {LatencyHistory st, ms_appendToHistory m 1000000 (LatencyHistory st)}"
  by (auto simp: ms_failure_stats_def Let_def split: option.split)

lemma stats_ok_success: "stats_ok (ms_cap m) st \<Longrightarrow> stats_ok (ms_cap m) (ms_success_stats m rm t t2 st)"
  by (auto simp: stats_ok_def length_ms_append)

lemma stats_ok_failure: "stats_ok (ms_cap m) st \<Longrightarrow> stats_ok (ms_cap m) (ms_failure_stats m e t st)"
  using ms_failure_latency [of m e t st] by (auto simp: stats_ok_def length_ms_append)

lemma ms_inv_ops:
  assumes "ms_inv m"
  shows "ms_inv (snd (ms_IncrementActiveRequests ctx i m))"
    and "ms_inv (snd (ms_DecrementActiveRequests ctx i m))"
    and "ms_inv (snd (ms_RecordSuccess ctx i rm t t2 m))"
    and "ms_inv (snd (ms_RecordFailure ctx i e t m))"
    and "ms_inv (snd (ms_SetCooldown ctx i until m))"
    and "ms_inv (snd (ms_DeleteStats ctx i m))"
proof -
  show "ms_inv (snd (ms_IncrementActiveRequests ctx i m))"
    unfolding ms_IncrementActiveRequests_def snd_conv
    using assms by (rule ms_inv_update) (simp add: stats_ok_def)
  show "ms_inv (snd (ms_DecrementActiveRequests ctx i m))"
    unfolding ms_DecrementActiveRequests_def snd_conv
    using assms by (rule ms_inv_update) (simp add: stats_ok_def)
  show "ms_inv (snd (ms_RecordSuccess ctx i rm t t2 m))"
    unfolding ms_RecordSuccess_def snd_conv
    using assms by (rule ms_inv_update) (rule stats_ok_success)
  show "ms_inv (snd (ms_RecordFailure ctx i e t m))"
    unfolding ms_RecordFailure_def snd_conv
    using assms by (rule ms_inv_update) (rule stats_ok_failure)
  show "ms_inv (snd (ms_SetCooldown ctx i until m))"
    unfolding ms_SetCooldown_def snd_conv
    using assms by (rule ms_inv_update) (simp add: stats_ok_def)
  show "ms_inv (snd (ms_DeleteStats ctx i m))"
    using assms by (auto simp: ms_DeleteStats_def ms_inv_def ms_cap_def ran_def)
qed

section \<open>The store meets the interface\<close>

lemmas ms_view_defs = ss_active_def ss_total_def ms_GetStats_def ms_getOrCreate_def zero_stats_def

lemma ms_active_nonneg: "ms_inv m \<Longrightarrow> 0 \<le> ss_active memory_ops ctx i m"
  by (auto simp: memory_ops_def ss_active_def ms_GetStats_def ms_inv_def stats_ok_def ran_def
      split: option.splits)

interpretation mem: stats_store memory_ops ms_inv
proof (unfold_locales, goal_cases)
  case (1 s ctx i s')
  then show ?case using ms_inv_ops(1) [of s ctx i]
    by (auto simp: memory_ops_def ms_view_defs ms_IncrementActiveRequests_def split: option.splits)
next
  case (2 s ctx i s')
  then show ?case using ms_inv_ops(2) [of s ctx i] ms_active_nonneg [of s ctx i]
    by (auto simp: memory_ops_def ms_view_defs ms_DecrementActiveRequests_def split: option.splits)
next
  case (3 s ctx i)
  then show ?case by (rule ms_active_nonneg)
next
  case (4 s ctx i rm t1 t2 s')
  then show ?case using ms_inv_ops(3) [of s ctx i rm t1 t2]
    by (auto simp: memory_ops_def ms_view_defs ms_RecordSuccess_def split: option.splits)
next
  case (5 s ctx i e t s')
  then show ?case using ms_inv_ops(4) [of s ctx i e t]
    by (auto simp: memory_ops_def ms_view_defs ms_RecordFailure_def split: option.splits)
next
  case (6 s ctx i until s')
  then show ?case using ms_inv_ops(5) [of s ctx i until]
    by (auto simp: memory_ops_def ms_SetCooldown_def ms_GetCooldownUntil_def)
next
  case (7 s ctx i s' j)
  then show ?case by (auto simp: memory_ops_def ms_IncrementActiveRequests_def ms_GetStats_def)
next
  case (8 s ctx i s' j)
  then show ?case by (auto simp: memory_ops_def ms_DecrementActiveRequests_def ms_GetStats_def)
next
  case (9 s ctx i s')
  then show ?case using ms_inv_ops(6) [of s ctx i]
    by (auto simp: memory_ops_def ms_DeleteStats_def ms_GetStats_def)
qed

section \<open>Properties\<close>

datatype ms_event =
    MsStart string
  | MsEnd string
  | MsSuccess string ResponseMetrics go_time go_time
  | MsFailure string go_error go_time
  | MsCooldown string go_time
  | MsDelete string

fun ms_apply :: "ms_event \<Rightarrow> MemoryStatsStore \<Rightarrow> MemoryStatsStore" where
  "ms_apply (MsStart i) m = snd (ms_IncrementActiveRequests [] i m)"
| "ms_apply (MsEnd i) m = snd (ms_DecrementActiveRequests [] i m)"
| "ms_apply (MsSuccess i rm t t2) m = snd (ms_RecordSuccess [] i rm t t2 m)"
| "ms_apply (MsFailure i e t) m = snd (ms_RecordFailure [] i e t m)"
| "ms_apply (MsCooldown i t) m = snd (ms_SetCooldown [] i t m)"
| "ms_apply (MsDelete i) m = snd (ms_DeleteStats [] i m)"

lemma ms_apply_inv: "ms_inv m \<Longrightarrow> ms_inv (ms_apply e m)"
  by (cases e) (simp_all add: ms_inv_ops)

lemma ms_apply_cap: "ms_cap (ms_apply e m) = ms_cap m"
  by (cases e) (simp_all add: ms_IncrementActiveRequests_def ms_DecrementActiveRequests_def
      ms_RecordSuccess_def ms_RecordFailure_def ms_SetCooldown_def ms_DeleteStats_def ms_cap_def)

lemma ms_run_inv: "ms_inv m \<Longrightarrow> ms_inv (fold ms_apply es m) \<and> ms_cap (fold ms_apply es m) = ms_cap m"
  by (induction es arbitrary: m) (simp_all add: ms_apply_inv ms_apply_cap)

text \<open>
  Whatever sequence of operations a new in-memory store of a positive history size has
  gone through, the statistics of every deployment are consistent: the total is the successes
  plus the failures, the number of active requests is not negative, and neither history has
  more samples than configured.
\<close>

theorem memory_store_consistent:
  assumes "0 < size0" and "ms_stats (fold ms_apply es (NewMemoryStatsStoreWithConfig size0)) i = Some st"
  shows "TotalRequests st = SuccessCount st + FailureCount st \<and> 0 \<le> ActiveRequests st \<and>
    int (length (LatencyHistory st)) \<le> size0 \<and> int (length (TTFTHistory st)) \<le> size0"
proof -
  let ?m = "NewMemoryStatsStoreWithConfig size0"
  have "ms_inv ?m" by (simp add: ms_inv_def NewMemoryStatsStoreWithConfig_def)
  from ms_run_inv [OF this, of es] have "stats_ok (ms_cap ?m) st"
    using assms(2) by (auto simp: ms_inv_def ran_def)
  moreover have "ms_cap ?m = nat size0"
    using assms(1) by (simp add: ms_cap_def NewMemoryStatsStoreWithConfig_def)
  ultimately show ?thesis using assms(1) by (auto simp: stats_ok_def)
qed

theorem memory_store_consistent_witness:
  "\<exists>st. ms_stats (fold ms_apply [MsStart ''d'', MsFailure ''d'' (PlainErr ''x'') 7, MsEnd ''d'', MsEnd ''d'']
          (NewMemoryStatsStoreWithConfig 3)) ''d'' = Some st \<and>
        FailureCount st = 1 \<and> TotalRequests st = SuccessCount st + FailureCount st \<and>
        ActiveRequests st = 0"
proof -
  let ?es = "[MsStart ''d'', MsFailure ''d'' (PlainErr ''x'') 7, MsEnd ''d'', MsEnd ''d'']"
  obtain st where st: "ms_stats (fold ms_apply ?es (NewMemoryStatsStoreWithConfig 3)) ''d'' = Some st"
    and vals: "FailureCount st = 1" "ActiveRequests st = 0"
    by (simp add: ms_IncrementActiveRequests_def ms_DecrementActiveRequests_def ms_RecordFailure_def
        ms_getOrCreate_def NewMemoryStatsStoreWithConfig_def zero_stats_def)
  from memory_store_consistent [OF _ st] have "TotalRequests st = SuccessCount st + FailureCount st"
    by simp
  with st vals show ?thesis by blast
qed

text \<open>
  The in-memory store never puts a deployment on cooldown by itself: recording a failure,
  whatever the error and whether or not the deployment is the only one, leaves every cooldown
  as it is.
\<close>

theorem memory_store_failure_keeps_cooldown:
  "ms_GetCooldownUntil ctx j (snd (ms_RecordFailureWithOptions ctx i e single now m))
     = ms_GetCooldownUntil ctx j m"
  by (auto simp: ms_GetCooldownUntil_def ms_RecordFailureWithOptions_def ms_RecordFailure_def
      ms_getOrCreate_def zero_stats_def split: option.splits)

end
