(* ===== verification/Base_Router.thy ===== *)
theory Base_Router
  imports Failure_Window Stats_Store
begin

text \<open>
  The state that all strategies share, \<open>BaseRouter\<close> of \<open>routers/base.go\<close>: deployments per model
  name, local statistics or a store for them, cooldowns, the filters and the basic pick.
\<close>

section \<open>State\<close>

text \<open>
  The store's methods are the argument \<open>ops\<close>; the field holds the store's state when there is a
  store. Calls of the metrics collector are a log.
\<close>

datatype metric_event =
    RecordActiveRequest string string string int
  | RecordDeploymentCooldown string string string string string

record 's BaseRouter =
  br_deployments :: "string \<Rightarrow> ExtendedDeployment list"
  br_stats :: "string \<rightharpoonup> statsEntry"
  br_config :: Config
  br_rng :: rng
  br_strategy :: Strategy
  br_statsStore :: "'s option"
  br_metrics :: "metric_event list"

definition NewBaseRouter :: "rng \<Rightarrow> Config \<Rightarrow> 's BaseRouter" where
  "NewBaseRouter seed config =
     \<lparr>br_deployments = (\<lambda>_. []), br_stats = Map.empty, br_config = config, br_rng = seed,
      br_strategy = cfg_Strategy config, br_statsStore = None, br_metrics = []\<rparr>"

definition NewBaseRouterWithStore :: "rng \<Rightarrow> Config \<Rightarrow> 's \<Rightarrow> 's BaseRouter" where
  "NewBaseRouterWithStore seed config store = (NewBaseRouter seed config)\<lparr>br_statsStore := Some store\<rparr>"

section \<open>Deployments\<close>

definition deployment_model :: "Deployment \<Rightarrow> string" where
  "deployment_model deployment =
     (if dep_ModelAlias deployment \<noteq> [] then dep_ModelAlias deployment else dep_ModelName deployment)"

definition AddDeploymentWithConfig ::
  "Deployment \<Rightarrow> DeploymentConfig \<Rightarrow> 's BaseRouter \<Rightarrow> 's BaseRouter" where
  "AddDeploymentWithConfig deployment config r =
     (let model = deployment_model deployment;
          extended = \<lparr>ext_Deployment = deployment, ext_Config = config\<rparr>;
          ds1 = (br_deployments r)(model := br_deployments r model @ [extended]);
          key = dep_ProviderName deployment @ ''/'' @ model;
          ds2 = (if dep_ProviderName deployment \<noteq> [] \<and> model \<noteq> []
                 then ds1(key := ds1 key @ [extended]) else ds1)
      in r\<lparr>br_deployments := ds2,
           br_stats := (br_stats r)(dep_ID deployment \<mapsto> newStatsEntry (br_config r))\<rparr>)"

definition AddDeployment :: "Deployment \<Rightarrow> 's BaseRouter \<Rightarrow> 's BaseRouter" where
  "AddDeployment deployment r = AddDeploymentWithConfig deployment zero_DeploymentConfig r"

definition RemoveDeployment :: "string \<Rightarrow> 's BaseRouter \<Rightarrow> 's BaseRouter" where
  "RemoveDeployment deploymentID r =
     r\<lparr>br_deployments := (\<lambda>model. remove_first (\<lambda>d. ext_ID d = deploymentID) (br_deployments r model)),
       br_stats := (br_stats r)(deploymentID := None)\<rparr>"

definition snapshotDeployments :: "string \<Rightarrow> 's BaseRouter \<Rightarrow> ExtendedDeployment list" where
  "snapshotDeployments model r =
     (let deps = br_deployments r model;
          stripped = snd (SplitProviderModel model)
      in if deps = [] \<and> stripped \<noteq> [] \<and> stripped \<noteq> model then br_deployments r stripped else deps)"

definition GetDeployments :: "string \<Rightarrow> 's BaseRouter \<Rightarrow> Deployment list" where
  "GetDeployments model r = map ext_Deployment (snapshotDeployments model r)"

definition isSingleDeployment :: "Deployment \<Rightarrow> 's BaseRouter \<Rightarrow> bool" where
  "isSingleDeployment deployment r \<longleftrightarrow> length (br_deployments r (deployment_model deployment)) = 1"

text \<open>The search visits the models in the order in which the map is iterated.\<close>

definition findDeploymentByID :: "string list \<Rightarrow> string \<Rightarrow> 's BaseRouter \<Rightarrow> Deployment option" where
  "findDeploymentByID order deploymentID r =
     map_option ext_Deployment
       (find (\<lambda>d. ext_ID d = deploymentID) (concat (map (br_deployments r) order)))"

section \<open>Statistics\<close>

definition getOrCreateStats :: "string \<Rightarrow> 's BaseRouter \<Rightarrow> statsEntry" where
  "getOrCreateStats i r =
     (case br_stats r i of Some stats \<Rightarrow> stats | None \<Rightarrow> newStatsEntry (br_config r))"

text \<open>The entry is a pointer into the map: it is written back under its key.\<close>

definition putStats :: "string \<Rightarrow> statsEntry \<Rightarrow> 's BaseRouter \<Rightarrow> 's BaseRouter" where
  "putStats i stats r = r\<lparr>br_stats := (br_stats r)(i \<mapsto> stats)\<rparr>"

definition localStatsSnapshot :: "string \<Rightarrow> 's BaseRouter \<Rightarrow> DeploymentStats option" where
  "localStatsSnapshot deploymentID r = statsEntrySnapshot (br_stats r deploymentID)"

definition br_GetStats :: "'s StatsStore \<Rightarrow> string \<Rightarrow> 's BaseRouter \<Rightarrow> DeploymentStats option" where
  "br_GetStats ops deploymentID r =
     (case br_statsStore r of
        Some store \<Rightarrow>
          (case ss_GetStats ops [] deploymentID store of
             Inr stats \<Rightarrow> Some stats
           | Inl err \<Rightarrow> (if err \<noteq> ErrStatsNotFound then localStatsSnapshot deploymentID r else None))
      | None \<Rightarrow> localStatsSnapshot deploymentID r)"

definition statsSnapshot ::
  "'s StatsStore \<Rightarrow> go_context \<Rightarrow> ExtendedDeployment list \<Rightarrow> 's BaseRouter \<Rightarrow> string \<rightharpoonup> DeploymentStats" where
  "statsSnapshot ops ctx deployments r =
     (case br_statsStore r of
        Some store \<Rightarrow>
          fold (\<lambda>d statsByID.
                  case ss_GetStats ops ctx (ext_ID d) store of
                    Inr stats \<Rightarrow> statsByID(ext_ID d \<mapsto> stats)
                  | Inl err \<Rightarrow>
                      if err = ErrStatsNotFound then statsByID
                      else case localStatsSnapshot (ext_ID d) r of
                             Some local \<Rightarrow> statsByID(ext_ID d \<mapsto> local)
                           | None \<Rightarrow> statsByID)
            deployments Map.empty
      | None \<Rightarrow>
          fold (\<lambda>d statsByID.
                  case br_stats r (localStatsKey ctx (ext_ID d)) of
                    Some stats \<Rightarrow> statsByID(ext_ID d := statsEntrySnapshot (Some stats))
                  | None \<Rightarrow> statsByID)
            deployments Map.empty)"

definition appendToHistory :: "float64 \<Rightarrow> int \<Rightarrow> float64 list \<Rightarrow> float64 list" where
  "appendToHistory v maxSize history = roll (nat (if maxSize \<le> 0 then 10 else maxSize)) history v"

definition updateUsageStats :: "go_time \<Rightarrow> int \<Rightarrow> statsEntry \<Rightarrow> statsEntry" where
  "updateUsageStats now tokens stats =
     (let currentMinute = minuteKey now;
          stats1 = (if CurrentMinuteKey stats \<noteq> currentMinute
                    then stats\<lparr>CurrentMinuteKey := currentMinute, CurrentMinuteTPM := 0,
                               CurrentMinuteRPM := 0\<rparr>
                    else stats)
      in stats1\<lparr>CurrentMinuteTPM := CurrentMinuteTPM stats1 + tokens,
                CurrentMinuteRPM := CurrentMinuteRPM stats1 + 1\<rparr>)"

section \<open>Cooldown\<close>

definition IsCircuitOpen :: "'s StatsStore \<Rightarrow> go_time \<Rightarrow> Deployment \<Rightarrow> 's BaseRouter \<Rightarrow> bool" where
  "IsCircuitOpen ops now deployment r =
     (case br_statsStore r of
        Some store \<Rightarrow>
          (case ss_GetCooldownUntil ops [] (dep_ID deployment) store of
             Inl err \<Rightarrow> False
           | Inr cooldownUntil \<Rightarrow> now < cooldownUntil)
      | None \<Rightarrow>
          (case br_stats r (dep_ID deployment) of
             None \<Rightarrow> False
           | Some stats \<Rightarrow> now < CooldownUntil stats))"

definition recordCooldownMetric ::
  "go_time \<Rightarrow> Deployment option \<Rightarrow> go_time \<Rightarrow> go_time \<Rightarrow> 's BaseRouter \<Rightarrow> 's BaseRouter" where
  "recordCooldownMetric now deployment before after r =
     (case deployment of
        None \<Rightarrow> r
      | Some d \<Rightarrow>
          if after = zero_time then r
          else if now > after then r
          else if before \<noteq> zero_time \<and> now < before then r
          else r\<lparr>br_metrics := br_metrics r @
                 [RecordDeploymentCooldown (dep_ID d) (dep_ModelName d) (dep_ModelAlias d)
                    (dep_ProviderName d) (dep_BaseURL d)]\<rparr>)"

text \<open>The time that a failing \<open>GetCooldownUntil\<close> returns beside its error is the zero time.\<close>

definition cooldown_or_zero :: "store_error + go_time \<Rightarrow> go_time" where
  "cooldown_or_zero res = (case res of Inr t \<Rightarrow> t | Inl _ \<Rightarrow> zero_time)"

definition SetCooldown ::
  "'s StatsStore \<Rightarrow> string list \<Rightarrow> go_time \<Rightarrow> string \<Rightarrow> go_time \<Rightarrow> 's BaseRouter \<Rightarrow>
   store_error option \<times> 's BaseRouter" where
  "SetCooldown ops order now deploymentID until r =
     (case br_statsStore r of
        Some store \<Rightarrow>
          (let before = cooldown_or_zero (ss_GetCooldownUntil ops [] deploymentID store)
           in case ss_SetCooldown ops [] deploymentID until store of
                (Some err, store') \<Rightarrow> (Some err, r\<lparr>br_statsStore := Some store'\<rparr>)
              | (None, store') \<Rightarrow>
                  (None, recordCooldownMetric now (findDeploymentByID order deploymentID r) before until
                           (r\<lparr>br_statsStore := Some store'\<rparr>)))
      | None \<Rightarrow>
          (let stats = getOrCreateStats deploymentID r;
               before = CooldownUntil stats;
               r1 = putStats deploymentID (stats\<lparr>CooldownUntil := until\<rparr>) r
           in (None, recordCooldownMetric now (findDeploymentByID order deploymentID r1) before until r1)))"

section \<open>Reports\<close>

definition ReportRequestStart ::
  "'s StatsStore \<Rightarrow> go_context \<Rightarrow> Deployment \<Rightarrow> 's BaseRouter \<Rightarrow> 's BaseRouter" where
  "ReportRequestStart ops ctx deployment r0 =
     (let r = r0\<lparr>br_metrics := br_metrics r0 @
                [RecordActiveRequest (dep_ID deployment) (dep_ModelName deployment)
                   (dep_ProviderName deployment) 1]\<rparr>
      in case br_statsStore r of
           Some store \<Rightarrow>
             r\<lparr>br_statsStore := Some (snd (ss_IncrementActiveRequests ops ctx (dep_ID deployment) store))\<rparr>
         | None \<Rightarrow>
             (let key = localStatsKey ctx (dep_ID deployment); stats = getOrCreateStats key r
              in putStats key (stats\<lparr>ActiveRequests := ActiveRequests stats + 1\<rparr>) r))"

definition ReportRequestEnd ::
  "'s StatsStore \<Rightarrow> go_context \<Rightarrow> Deployment \<Rightarrow> 's BaseRouter \<Rightarrow> 's BaseRouter" where
  "ReportRequestEnd ops ctx deployment r0 =
     (let r = r0\<lparr>br_metrics := br_metrics r0 @
                [RecordActiveRequest (dep_ID deployment) (dep_ModelName deployment)
                   (dep_ProviderName deployment) (- 1)]\<rparr>
      in case br_statsStore r of
           Some store \<Rightarrow>
             r\<lparr>br_statsStore := Some (snd (ss_DecrementActiveRequests ops ctx (dep_ID deployment) store))\<rparr>
         | None \<Rightarrow>
             (let key = localStatsKey ctx (dep_ID deployment); stats = getOrCreateStats key r
              in putStats key
                   (if ActiveRequests stats > 0
                    then stats\<lparr>ActiveRequests := ActiveRequests stats - 1\<rparr> else stats) r))"

definition ewma_alpha :: "Config \<Rightarrow> float64" where
  "ewma_alpha config = (if EWMAAlpha config \<le> 0 then 1 / 10 else EWMAAlpha config)"

definition success_entry ::
  "Config \<Rightarrow> ResponseMetrics \<Rightarrow> go_time \<Rightarrow> go_time \<Rightarrow> statsEntry \<Rightarrow> statsEntry" where
  "success_entry config metrics now now2 st0 =
     (let st1 = recordWindowSuccess now
                  (st0\<lparr>TotalRequests := TotalRequests st0 + 1, SuccessCount := SuccessCount st0 + 1,
                       LastRequestTime := now\<rparr>);
          latencyMs = of_int (Milliseconds (rm_Latency metrics));
          ttftMs = of_int (Milliseconds (rm_TimeToFirstToken metrics));
          st2 = st1\<lparr>LatencyHistory := appendToHistory latencyMs (MaxLatencyListSize st1) (LatencyHistory st1)\<rparr>;
          st3 = (if rm_TimeToFirstToken metrics > 0
                 then st2\<lparr>TTFTHistory := appendToHistory ttftMs (MaxLatencyListSize st2) (TTFTHistory st2)\<rparr>
                 else st2);
          st4 = (if AvgLatencyMs st3 = 0 then st3\<lparr>AvgLatencyMs := latencyMs\<rparr>
                 else st3\<lparr>AvgLatencyMs := AvgLatencyMs st3 * (9 / 10) + latencyMs * (1 / 10)\<rparr>);
          alpha = ewma_alpha config;
          st5 = (if EWMALatencyMs st4 = 0 then st4\<lparr>EWMALatencyMs := latencyMs\<rparr>
                 else st4\<lparr>EWMALatencyMs := alpha * latencyMs + (1 - alpha) * EWMALatencyMs st4\<rparr>);
          st6 = (if rm_TimeToFirstToken metrics > 0
                 then if EWMAAvgTTFTMs st5 = 0 then st5\<lparr>EWMAAvgTTFTMs := ttftMs\<rparr>
                      else st5\<lparr>EWMAAvgTTFTMs := alpha * ttftMs + (1 - alpha) * EWMAAvgTTFTMs st5\<rparr>
                 else st5);
          st7 = st6\<lparr>EWMASuccessRate := alpha * 1 + (1 - alpha) * EWMASuccessRate st6\<rparr>
      in updateUsageStats now2 (rm_TotalTokens metrics) st7)"

definition ReportSuccess ::
  "'s StatsStore \<Rightarrow> go_context \<Rightarrow> go_time \<Rightarrow> go_time \<Rightarrow> Deployment \<Rightarrow> ResponseMetrics \<Rightarrow>
   's BaseRouter \<Rightarrow> 's BaseRouter" where
  "ReportSuccess ops ctx now now2 deployment metrics r =
     (case br_statsStore r of
        Some store \<Rightarrow>
          r\<lparr>br_statsStore :=
              Some (snd (ss_RecordSuccess ops ctx (dep_ID deployment) metrics now now2 store))\<rparr>
      | None \<Rightarrow>
          (let key = localStatsKey ctx (dep_ID deployment)
           in putStats key (success_entry (br_config r) metrics now now2 (getOrCreateStats key r)) r))"

text \<open>
  \<open>ReportFailure\<close> in local mode, on the entry: the result also tells whether the cooldown metric
  is recorded. \<open>now\<close> is the time of the failure, \<open>now2\<close> the second reading of the clock, from
  which the cooldown counts.
\<close>

definition failure_entry ::
  "Config \<Rightarrow> bool \<Rightarrow> go_error \<Rightarrow> go_time \<Rightarrow> go_time \<Rightarrow> statsEntry \<Rightarrow> bool \<times> statsEntry" where
  "failure_entry config single err now now2 st0 =
     (let st1 = recordWindowFailure now
                  (st0\<lparr>TotalRequests := TotalRequests st0 + 1, FailureCount := FailureCount st0 + 1,
                       LastRequestTime := now\<rparr>);
          cooled = st1\<lparr>CooldownUntil := now2 + CooldownPeriod config\<rparr>;
          by_rate = (\<lambda>st.
            let cool = shouldCooldownByFailureRate config now single st;
                st' = (if cool then st\<lparr>CooldownUntil := now2 + CooldownPeriod config\<rparr> else st);
                alpha = ewma_alpha config
            in (cool, st'\<lparr>EWMASuccessRate := alpha * 0 + (1 - alpha) * EWMASuccessRate st'\<rparr>))
      in case errors_As err of
           None \<Rightarrow> by_rate st1
         | Some e \<Rightarrow>
             if ImmediateCooldownOn429 config \<and> StatusCode e = 429 \<and> \<not> single then (True, cooled)
             else if StatusCode e = 401 \<or> StatusCode e = 404 \<or> StatusCode e = 408 then (True, cooled)
             else if StatusCode e = 408 \<or> StatusCode e = 504
             then by_rate (st1\<lparr>LatencyHistory :=
                    appendToHistory 1000000 (MaxLatencyListSize st1) (LatencyHistory st1)\<rparr>)
             else by_rate st1)"

definition ReportFailure ::
  "'s StatsStore \<Rightarrow> go_context \<Rightarrow> go_time \<Rightarrow> go_time \<Rightarrow> go_time \<Rightarrow> Deployment \<Rightarrow> go_error \<Rightarrow>
   's BaseRouter \<Rightarrow> 's BaseRouter" where
  "ReportFailure ops ctx now now2 now3 deployment err r =
     (let single = isSingleDeployment deployment r
      in case br_statsStore r of
           Some store \<Rightarrow>
             (let before = cooldown_or_zero (ss_GetCooldownUntil ops ctx (dep_ID deployment) store);
                  store' = snd (case ss_RecordFailureWithOptions ops of
                                  Some rec \<Rightarrow> rec ctx (dep_ID deployment) err single now store
                                | None \<Rightarrow> ss_RecordFailure ops ctx (dep_ID deployment) err now store);
                  after = cooldown_or_zero (ss_GetCooldownUntil ops ctx (dep_ID deployment) store')
              in recordCooldownMetric now3 (Some deployment) before after
                   (r\<lparr>br_statsStore := Some store'\<rparr>))
         | None \<Rightarrow>
             (let key = localStatsKey ctx (dep_ID deployment);
                  stats = getOrCreateStats key r;
                  (cool, stats') = failure_entry (br_config r) single err now now2 stats;
                  r1 = putStats key stats' r
              in if cool
                 then recordCooldownMetric now3 (Some deployment) (CooldownUntil stats)
                        (CooldownUntil stats') r1
                 else r1))"

section \<open>Filters and the basic pick\<close>

definition getHealthyDeployments ::
  "go_time \<Rightarrow> ExtendedDeployment list \<Rightarrow> (string \<rightharpoonup> DeploymentStats) \<Rightarrow> ExtendedDeployment list" where
  "getHealthyDeployments now deployments statsByID =
     filter (\<lambda>d. case statsByID (ext_ID d) of None \<Rightarrow> True | Some stats \<Rightarrow> now > CooldownUntil stats)
       deployments"

definition containsTag :: "string list \<Rightarrow> string \<Rightarrow> bool" where
  "containsTag tags tag = list_ex (\<lambda>t. t = tag) tags"

definition hasMatchingTag :: "string list \<Rightarrow> string list \<Rightarrow> bool" where
  "hasMatchingTag deploymentTags requestTags =
     list_ex (\<lambda>dt. list_ex (\<lambda>rt. dt = rt) requestTags) deploymentTags"

definition filterByTags :: "ExtendedDeployment list \<Rightarrow> string list \<Rightarrow> ExtendedDeployment list" where
  "filterByTags deployments tags =
     (if tags = []
      then let defaults = filter (\<lambda>d. containsTag (dc_Tags (ext_Config d)) ''default'') deployments
           in if length defaults > 0 then defaults else deployments
      else let tagged = filter (\<lambda>d. dc_Tags (ext_Config d) \<noteq> []) deployments;
               matched = filter (\<lambda>d. hasMatchingTag (dc_Tags (ext_Config d)) tags) tagged;
               defaults = filter (\<lambda>d. containsTag (dc_Tags (ext_Config d)) ''default'') tagged
           in if length matched > 0 then matched
              else if length defaults > 0 then defaults else [])"

definition filterByDefaultProvider :: "Config \<Rightarrow> ExtendedDeployment list \<Rightarrow> ExtendedDeployment list" where
  "filterByDefaultProvider config deployments =
     (if deployments = [] then deployments
      else if DefaultProvider config = [] then deployments
      else let preferred = filter (\<lambda>d. dep_ProviderName (ext_Deployment d) = DefaultProvider config) deployments
           in if length preferred > 0 then preferred else deployments)"

definition filterByTPMRPM ::
  "ExtendedDeployment list \<Rightarrow> (string \<rightharpoonup> DeploymentStats) \<Rightarrow> int \<Rightarrow> ExtendedDeployment list" where
  "filterByTPMRPM deployments statsByID inputTokens =
     filter (\<lambda>d. case statsByID (ext_ID d) of
                   None \<Rightarrow> True
                 | Some stats \<Rightarrow>
                     \<not> (dc_TPMLimit (ext_Config d) > 0 \<and>
                        CurrentMinuteTPM stats + inputTokens > dc_TPMLimit (ext_Config d)) \<and>
                     \<not> (dc_RPMLimit (ext_Config d) > 0 \<and>
                        CurrentMinuteRPM stats + 1 > dc_RPMLimit (ext_Config d)))
       deployments"

definition calculateAverageLatency :: "float64 list \<Rightarrow> float64" where
  "calculateAverageLatency history =
     (if length history = 0 then 0 else sum_list history / of_nat (length history))"

text \<open>
  The steps with which every strategy begins: the deployments of the model that are not on
  cooldown, with the statistics they were judged by, and then the request's tags.
\<close>

definition healthy_for ::
  "'s StatsStore \<Rightarrow> go_context \<Rightarrow> go_time \<Rightarrow> string \<Rightarrow> 's BaseRouter \<Rightarrow>
   pick_error + ((string \<rightharpoonup> DeploymentStats) \<times> ExtendedDeployment list)" where
  "healthy_for ops ctx now model r =
     (let deployments = snapshotDeployments model r
      in if length deployments = 0 then Inl ErrNoAvailableDeployment
         else let statsByID = statsSnapshot ops ctx deployments r;
                  healthy = getHealthyDeployments now deployments statsByID
              in if length healthy = 0 then Inl ErrNoAvailableDeployment else Inr (statsByID, healthy))"

definition tagged_for ::
  "Config \<Rightarrow> RequestContext \<Rightarrow> ExtendedDeployment list \<Rightarrow> pick_error + ExtendedDeployment list" where
  "tagged_for config reqCtx healthy =
     (if EnableTagFiltering config \<and> length (rq_Tags reqCtx) > 0
      then let matching = filterByTags healthy (rq_Tags reqCtx)
           in if length matching = 0 then Inl ErrNoDeploymentsWithTag else Inr matching
      else Inr healthy)"

definition within_limits ::
  "RequestContext \<Rightarrow> (string \<rightharpoonup> DeploymentStats) \<Rightarrow> ExtendedDeployment list \<Rightarrow>
   pick_error + ExtendedDeployment list" where
  "within_limits reqCtx statsByID healthy =
     (if rq_EstimatedInputTokens reqCtx > 0
      then let fitting = filterByTPMRPM healthy statsByID (rq_EstimatedInputTokens reqCtx)
           in if length fitting = 0 then Inl ErrNoAvailableDeployment else Inr fitting
      else Inr healthy)"

text \<open>One draw of the router's generator picks from a list; \<open>Intn\<close> panics when it is empty.\<close>

definition pick_random ::
  "ExtendedDeployment list \<Rightarrow> 's BaseRouter \<Rightarrow> (pick_error + Deployment) \<times> 's BaseRouter" where
  "pick_random ds r =
     (if ds = [] then (Inl PickPanic, r)
      else let (i, g) = randIntn (length ds) (br_rng r)
           in (Inr (ext_Deployment (ds ! i)), r\<lparr>br_rng := g\<rparr>))"

definition PickWithContext ::
  "'s StatsStore \<Rightarrow> go_context \<Rightarrow> go_time \<Rightarrow> RequestContext \<Rightarrow> 's BaseRouter \<Rightarrow>
   (pick_error + Deployment) \<times> 's BaseRouter" where
  "PickWithContext ops ctx now reqCtx r =
     (case healthy_for ops ctx now (rq_Model reqCtx) r of
        Inl e \<Rightarrow> (Inl e, r)
      | Inr (statsByID, healthy) \<Rightarrow>
          (case tagged_for (br_config r) reqCtx healthy of
             Inl e \<Rightarrow> (Inl e, r)
           | Inr tagged \<Rightarrow> pick_random (filterByDefaultProvider (br_config r) tagged) r))"

definition Pick ::
  "'s StatsStore \<Rightarrow> go_context \<Rightarrow> go_time \<Rightarrow> string \<Rightarrow> 's BaseRouter \<Rightarrow>
   (pick_error + Deployment) \<times> 's BaseRouter" where
  "Pick ops ctx now model r = PickWithContext ops ctx now (model_request model) r"

section \<open>What a pick sees\<close>

text \<open>
  The statistics a request of a tenant sees of a deployment, and whether they allow to use it.
  The snapshot of all deployments of a model is this, deployment by deployment.
\<close>

definition seen_stats :: "'s StatsStore \<Rightarrow> go_context \<Rightarrow> 's BaseRouter \<Rightarrow> string \<Rightarrow> DeploymentStats option" where
  "seen_stats ops ctx r i =
     (case br_statsStore r of
        Some store \<Rightarrow>
          (case ss_GetStats ops ctx i store of
             Inr stats \<Rightarrow> Some stats
           | Inl err \<Rightarrow> (if err = ErrStatsNotFound then None else localStatsSnapshot i r))
      | None \<Rightarrow> statsEntrySnapshot (br_stats r (localStatsKey ctx i)))"

definition available :: "'s StatsStore \<Rightarrow> go_context \<Rightarrow> go_time \<Rightarrow> 's BaseRouter \<Rightarrow> string \<Rightarrow> bool" where
  "available ops ctx now r i =
     (case seen_stats ops ctx r i of None \<Rightarrow> True | Some stats \<Rightarrow> now > CooldownUntil stats)"

lemma fold_map_upd:
  "fold (\<lambda>d m. case f (g d) of Some v \<Rightarrow> m(g d \<mapsto> v) | None \<Rightarrow> m) ds m0 i
     = (if i \<in> g ` set ds \<and> f i \<noteq> None then f i else m0 i)"
  by (induction ds arbitrary: m0) (auto split: option.splits)

lemma statsSnapshot_at:
  "statsSnapshot ops ctx ds r i = (if i \<in> ext_ID ` set ds then seen_stats ops ctx r i else None)"
proof (cases "br_statsStore r")
  case None
  have "statsSnapshot ops ctx ds r =
      fold (\<lambda>d m. case seen_stats ops ctx r (ext_ID d) of Some v \<Rightarrow> m(ext_ID d \<mapsto> v) | None \<Rightarrow> m) ds Map.empty"
    using None by (auto simp: statsSnapshot_def seen_stats_def statsEntrySnapshot_def
        intro!: fold_cong split: option.splits)
  then show ?thesis
    using fold_map_upd [of "\<lambda>d. ext_ID d" "seen_stats ops ctx r" ds Map.empty i] by simp
next
  case (Some store)
  have "statsSnapshot ops ctx ds r =
      fold (\<lambda>d m. case seen_stats ops ctx r (ext_ID d) of Some v \<Rightarrow> m(ext_ID d \<mapsto> v) | None \<Rightarrow> m) ds Map.empty"
    using Some by (auto simp: statsSnapshot_def seen_stats_def
        intro!: fold_cong split: option.splits sum.splits)
  then show ?thesis
    using fold_map_upd [of "\<lambda>d. ext_ID d" "seen_stats ops ctx r" ds Map.empty i] by simp
qed

lemma healthy_is_available:
  "getHealthyDeployments now ds (statsSnapshot ops ctx ds r)
     = filter (\<lambda>d. available ops ctx now r (ext_ID d)) ds"
  unfolding getHealthyDeployments_def available_def
  by (rule filter_cong) (auto simp: statsSnapshot_at)

lemma healthy_for_Inr:
  "healthy_for ops ctx now model r = Inr (st, h) \<longleftrightarrow>
     st = statsSnapshot ops ctx (snapshotDeployments model r) r \<and>
     h = filter (\<lambda>d. available ops ctx now r (ext_ID d)) (snapshotDeployments model r) \<and> h \<noteq> []"
  by (auto simp: healthy_for_def Let_def healthy_is_available)

lemma healthy_for_Inl:
  "healthy_for ops ctx now model r = Inl e \<longleftrightarrow>
     e = ErrNoAvailableDeployment \<and>
     (\<forall>d\<in>set (snapshotDeployments model r). \<not> available ops ctx now r (ext_ID d))"
  by (auto simp: healthy_for_def Let_def healthy_is_available filter_empty_conv)

lemma tagged_for_Inr:
  assumes "tagged_for cfg q h = Inr ts" and "h \<noteq> []"
  shows "ts \<noteq> [] \<and> set ts \<subseteq> set h"
  using assms by (auto simp: tagged_for_def filterByTags_def Let_def split: if_splits)

lemma tagged_for_off: "rq_Tags q = [] \<or> \<not> EnableTagFiltering cfg \<Longrightarrow> tagged_for cfg q h = Inr h"
  by (auto simp: tagged_for_def)

lemma within_limits_Inr:
  assumes "within_limits q st h = Inr ts" and "h \<noteq> []"
  shows "ts \<noteq> [] \<and> set ts \<subseteq> set h"
  using assms by (auto simp: within_limits_def filterByTPMRPM_def Let_def split: if_splits)

lemma filterByDefaultProvider_subset:
  "set (filterByDefaultProvider cfg ds) \<subseteq> set ds"
  "ds \<noteq> [] \<Longrightarrow> filterByDefaultProvider cfg ds \<noteq> []"
  by (auto simp: filterByDefaultProvider_def Let_def)

text \<open>
  What every way to select has in common: it returns one of its candidates if it returns any,
  it does not report that there is none, and it changes the generator only.
\<close>

definition selects ::
  "ExtendedDeployment list \<Rightarrow> 's BaseRouter \<Rightarrow> (pick_error + Deployment) \<times> 's BaseRouter \<Rightarrow> bool" where
  "selects ds r res \<longleftrightarrow>
     (\<forall>d. fst res = Inr d \<longrightarrow> d \<in> ext_Deployment ` set ds) \<and> (\<exists>g. snd res = r\<lparr>br_rng := g\<rparr>)"

lemma rng_self: "\<exists>g. r = r\<lparr>br_rng := g\<rparr>"
  by (rule exI [of _ "br_rng r"]) simp

lemma selects_pick_random: "selects ds r (pick_random ds r)"
proof (cases "ds = []")
  case True
  then show ?thesis using rng_self by (simp add: selects_def pick_random_def)
next
  case False
  obtain i g where ig: "randIntn (length ds) (br_rng r) = (i, g)" by fastforce
  have "i < length ds" using randIntn_bound [OF _ ig] False by simp
  then have "ds ! i \<in> set ds" by simp
  then show ?thesis using False ig by (auto simp: pick_random_def selects_def)
qed

lemma pick_random_returns: "ds \<noteq> [] \<Longrightarrow> \<exists>d. fst (pick_random ds r) = Inr d"
  by (simp add: pick_random_def split: prod.split)

lemma selects_mono: "selects ds r res \<Longrightarrow> set ds \<subseteq> set es \<Longrightarrow> selects es r res"
  unfolding selects_def by (meson image_mono subsetD)

lemma selects_rng: "selects ds (r\<lparr>br_rng := g\<rparr>) res \<Longrightarrow> selects ds r res"
  by (auto simp: selects_def)

section \<open>Tenant scopes\<close>

lemma localStatsKey_inj: "localStatsKey ctx i = localStatsKey ctx' i \<longleftrightarrow> ctx = ctx'"
  by (auto simp: localStatsKey_def TenantScopeFromContext_def Let_def
      dest: arg_cong [where f = length])

text \<open>In local mode, what changes one entry is seen under the entry's key only.\<close>

lemma seen_stats_put:
  "br_statsStore r = None \<Longrightarrow>
   seen_stats ops ctx (putStats k stats r) i =
     (if localStatsKey ctx i = k then Some (DeploymentStats.truncate stats) else seen_stats ops ctx r i)"
  by (simp add: seen_stats_def putStats_def statsEntrySnapshot_def)

lemma seen_stats_metrics [simp]:
  "seen_stats ops ctx (r\<lparr>br_metrics := ms\<rparr>) i = seen_stats ops ctx r i"
  "seen_stats ops ctx (r\<lparr>br_rng := g\<rparr>) i = seen_stats ops ctx r i"
  by (auto simp: seen_stats_def localStatsSnapshot_def split: option.splits sum.splits)

lemma recordCooldownMetric_frame: "\<exists>ms. recordCooldownMetric now d before after r = r\<lparr>br_metrics := ms\<rparr>"
proof -
  have self: "\<exists>ms. r = r\<lparr>br_metrics := ms\<rparr>" by (rule exI [of _ "br_metrics r"]) simp
  show ?thesis by (cases d) (auto simp: recordCooldownMetric_def intro: self)
qed

lemma seen_stats_cooldownMetric [simp]:
  "seen_stats ops ctx (recordCooldownMetric now d before after r) i = seen_stats ops ctx r i"
  using recordCooldownMetric_frame [of now d before after r] by auto

lemma truncate_CooldownUntil [simp]: "CooldownUntil (DeploymentStats.truncate st) = CooldownUntil st"
  "ActiveRequests (DeploymentStats.truncate st) = ActiveRequests st"
  by (simp_all add: DeploymentStats.defs)

end
