(* ===== verification/Round_Robin.thy ===== *)
theory Round_Robin
  imports Base_Router
begin

text \<open>
  Strict round robin, \<open>routers/round_robin.go\<close>, with its local counters and the interface and
  in-memory implementation of shared counters, \<open>pkg/router/round_robin_store.go\<close> and
  \<open>routers/round_robin_store.go\<close>. The counters are 64-bit words and wrap around.
\<close>

section \<open>Shared counters\<close>

record 'c RoundRobinStore =
  rrs_NextIndex :: "string \<Rightarrow> int \<Rightarrow> 'c \<Rightarrow> (string + int) \<times> 'c"
  rrs_Reset :: "string \<Rightarrow> 'c \<Rightarrow> string option \<times> 'c"
  rrs_Close :: "'c \<Rightarrow> string option \<times> 'c"

text \<open>The contract: a successful call returns an index below the modulus.\<close>

locale round_robin_store =
  fixes rops :: "'c RoundRobinStore"
  assumes next_range: "rrs_NextIndex rops key n c = (Inr idx, c') \<Longrightarrow> 0 \<le> idx \<and> idx < n"
    and next_bad_modulo: "n \<le> 0 \<Longrightarrow> \<exists>e. fst (rrs_NextIndex rops key n c) = Inl e"

type_synonym MemoryRoundRobinStore = "string \<rightharpoonup> 64 word"

definition NewMemoryRoundRobinStore :: MemoryRoundRobinStore where
  "NewMemoryRoundRobinStore = Map.empty"

text \<open>A missing counter reads as 0. The count is a positive \<open>int\<close>, so that
  its conversion to \<open>uint64\<close> keeps its value.\<close>

definition counter_at :: "(string \<rightharpoonup> 64 word) \<Rightarrow> string \<Rightarrow> 64 word" where
  "counter_at counters key = (case counters key of Some c \<Rightarrow> c | None \<Rightarrow> 0)"

definition mrr_NextIndex ::
  "string \<Rightarrow> int \<Rightarrow> MemoryRoundRobinStore \<Rightarrow> (string + int) \<times> MemoryRoundRobinStore" where
  "mrr_NextIndex key n m =
     (if n \<le> 0 then (Inl ''modulo must be positive'', m)
      else let nxt = counter_at m key
           in (Inr (uint nxt mod n), m(key \<mapsto> nxt + 1)))"

definition mrr_Reset :: "string \<Rightarrow> MemoryRoundRobinStore \<Rightarrow> string option \<times> MemoryRoundRobinStore" where
  "mrr_Reset key m = (None, m(key := None))"

definition mrr_Close :: "MemoryRoundRobinStore \<Rightarrow> string option \<times> MemoryRoundRobinStore" where
  "mrr_Close m = (None, m)"

definition memory_rr_ops :: "MemoryRoundRobinStore RoundRobinStore" where
  "memory_rr_ops =
     \<lparr>rrs_NextIndex = (\<lambda>key n m. mrr_NextIndex key n m), rrs_Reset = mrr_Reset,
      rrs_Close = mrr_Close\<rparr>"

section \<open>The router\<close>

record ('s, 'c) RoundRobinRouter =
  rr_base :: "'s BaseRouter"
  rr_counters :: "string \<rightharpoonup> 64 word"
  rr_rrStore :: "'c option"

definition newRoundRobinRouterWithStores ::
  "rng \<Rightarrow> Config \<Rightarrow> 's option \<Rightarrow> 'c option \<Rightarrow> ('s, 'c) RoundRobinRouter" where
  "newRoundRobinRouterWithStores seed config store rrStore =
     (let config1 = config\<lparr>cfg_Strategy := StrategyRoundRobin\<rparr>;
          base = (case store of Some s \<Rightarrow> NewBaseRouterWithStore seed config1 s
                              | None \<Rightarrow> NewBaseRouter seed config1)
      in \<lparr>rr_base = base, rr_counters = Map.empty, rr_rrStore = rrStore\<rparr>)"

text \<open>
  \<open>counterForModel\<close> creates the model's counter on first use and \<open>Add(1) - 1\<close> returns its
  value before the increment.
\<close>

definition rr_local_next :: "string \<Rightarrow> int \<Rightarrow> ('s, 'c) RoundRobinRouter \<Rightarrow> int \<times> ('s, 'c) RoundRobinRouter" where
  "rr_local_next model cnt r =
     (let nxt = counter_at (rr_counters r) model
      in (uint nxt mod cnt,
          r\<lparr>rr_counters := (rr_counters r)(model \<mapsto> nxt + 1)\<rparr>))"

definition nextIndex ::
  "'c RoundRobinStore \<Rightarrow> string \<Rightarrow> int \<Rightarrow> ('s, 'c) RoundRobinRouter \<Rightarrow> int \<times> ('s, 'c) RoundRobinRouter" where
  "nextIndex rops model cnt r =
     (if cnt \<le> 0 then (0, r)
      else case rr_rrStore r of
             None \<Rightarrow> rr_local_next model cnt r
           | Some c \<Rightarrow>
               (case rrs_NextIndex rops model cnt c of
                  (res, c') \<Rightarrow>
                    (let r1 = r\<lparr>rr_rrStore := Some c'\<rparr>
                     in case res of
                          Inr idx \<Rightarrow> (if idx \<ge> 0 \<and> idx < cnt then (idx, r1)
                                      else rr_local_next model cnt r1)
                        | Inl err \<Rightarrow> rr_local_next model cnt r1)))"

definition rr_PickWithContext ::
  "'s StatsStore \<Rightarrow> 'c RoundRobinStore \<Rightarrow> go_context \<Rightarrow> go_time \<Rightarrow> RequestContext \<Rightarrow>
   ('s, 'c) RoundRobinRouter \<Rightarrow> (pick_error + Deployment) \<times> ('s, 'c) RoundRobinRouter" where
  "rr_PickWithContext ops rops ctx now reqCtx r =
     (case healthy_for ops ctx now (rq_Model reqCtx) (rr_base r) of
        Inl e \<Rightarrow> (Inl e, r)
      | Inr (statsByID, healthy) \<Rightarrow>
          (case tagged_for (br_config (rr_base r)) reqCtx healthy of
             Inl e \<Rightarrow> (Inl e, r)
           | Inr tagged \<Rightarrow>
               (case within_limits reqCtx statsByID tagged of
                  Inl e \<Rightarrow> (Inl e, r)
                | Inr fitting \<Rightarrow>
                    (case nextIndex rops (canonicalModelKey (rq_Model reqCtx)) (int (length fitting)) r of
                       (index, r') \<Rightarrow> (Inr (ext_Deployment (fitting ! nat index)), r')))))"

interpretation mrr: round_robin_store memory_rr_ops
  by unfold_locales (auto simp: memory_rr_ops_def mrr_NextIndex_def Let_def split: if_splits)

lemma rr_local_next_range:
  "0 < cnt \<Longrightarrow> rr_local_next model cnt r = (i, r') \<Longrightarrow> 0 \<le> i \<and> i < cnt \<and> rr_base r' = rr_base r"
  by (auto simp: rr_local_next_def Let_def)

lemma nextIndex_range:
  assumes "0 < cnt" and "nextIndex rops model cnt r = (i, r')"
  shows "0 \<le> i \<and> i < cnt \<and> rr_base r' = rr_base r"
proof (cases "rr_rrStore r")
  case None
  then show ?thesis using assms rr_local_next_range [OF assms(1), of model r i r'] by (simp add: nextIndex_def)
next
  case (Some c)
  obtain res c' where nx: "rrs_NextIndex rops model cnt c = (res, c')" by fastforce
  show ?thesis
    using assms Some nx rr_local_next_range [OF assms(1), of model "r\<lparr>rr_rrStore := Some c'\<rparr>" i r']
    by (auto simp: nextIndex_def Let_def split: sum.splits if_splits)
qed

section \<open>Fairness\<close>

text \<open>The indices of consecutive calls with the same model and count.\<close>

fun rr_indices :: "'c RoundRobinStore \<Rightarrow> string \<Rightarrow> int \<Rightarrow> nat \<Rightarrow> ('s, 'c) RoundRobinRouter \<Rightarrow> int list" where
  "rr_indices rops model cnt 0 r = []"
| "rr_indices rops model cnt (Suc k) r =
     (case nextIndex rops model cnt r of (i, r') \<Rightarrow> i # rr_indices rops model cnt k r')"

lemma rr_indices_local:
  assumes "0 < cnt" and "rr_rrStore r = None"
    and "uint (counter_at (rr_counters r) model) + int k \<le> 2 ^ 64"
  shows "rr_indices rops model cnt k r =
    map (\<lambda>j. (uint (counter_at (rr_counters r) model) + int j) mod cnt) [0 ..< k]"
  using assms
proof (induction k arbitrary: r)
  case (Suc k)
  let ?c = "counter_at (rr_counters r) model"
  let ?r = "r\<lparr>rr_counters := (rr_counters r)(model \<mapsto> ?c + 1)\<rparr>"
  have nx: "nextIndex rops model cnt r = (uint ?c mod cnt, ?r)"
    using Suc.prems by (simp add: nextIndex_def rr_local_next_def Let_def)
  show ?case
  proof (cases k)
    case 0
    then show ?thesis by (simp add: nx)
  next
    case (Suc k')
    with Suc.prems have "uint ?c + 1 < 2 ^ 64" by simp
    then have up: "uint (?c + 1) = uint ?c + 1"
      by (simp add: uint_word_ariths)
    have at: "counter_at (rr_counters ?r) model = ?c + 1" by (simp add: counter_at_def)
    have "rr_indices rops model cnt k ?r =
        map (\<lambda>j. (uint (counter_at (rr_counters ?r) model) + int j) mod cnt) [0 ..< k]"
      using Suc.prems by (intro Suc.IH) (simp_all only: at up, simp_all)
    also have "\<dots> = map (\<lambda>j. (uint (?c + 1) + int j) mod cnt) [0 ..< k]" by (simp only: at)
    also have "\<dots> = map (\<lambda>j. (uint ?c + int j) mod cnt) [1 ..< Suc k]"
      unfolding up by (simp add: map_Suc_upt [symmetric] o_def add.commute add.left_commute add.assoc del: upt_Suc)
    finally show ?thesis
      by (simp add: nx upt_conv_Cons del: upt_Suc)
  qed
qed simp

lemma residues_distinct:
  assumes "0 < n"
  shows "set (map (\<lambda>j. (a + int j) mod n) [0 ..< nat n]) = {0 ..< n}"
proof
  show "{0 ..< n} \<subseteq> set (map (\<lambda>j. (a + int j) mod n) [0 ..< nat n])"
  proof
    fix x assume x: "x \<in> {0 ..< n}"
    let ?j = "nat ((x - a) mod n)"
    have "?j < nat n" using assms by simp
    moreover have "(a + int ?j) mod n = x"
      using assms x by (simp add: mod_simps)
    ultimately show "x \<in> set (map (\<lambda>j. (a + int j) mod n) [0 ..< nat n])"
      unfolding set_map by (intro image_eqI [of _ _ ?j]) (simp_all only: set_upt atLeastLessThan_iff le0)
  qed
qed (use assms in auto)



end
