(* ===== verification/Pricing.thy ===== *)
theory Pricing
  imports Go_Prelude
begin

text \<open>
  The price table of \<open>pkg/pricing/registry.go\<close>. Reading and decoding a price file is outside:
  \<open>loadBytes\<close> takes what \<open>json.Unmarshal\<close> returns, the decoded table or an error.
\<close>

record ModelPrice =
  mp_Provider :: string
  mp_InputCostPerToken :: float64
  mp_OutputCostPerToken :: float64
  mp_CacheReadCostPerToken :: float64
  mp_CacheWriteCostPerToken :: float64
  mp_Mode :: string

record Registry =
  reg_prices :: "string \<rightharpoonup> ModelPrice"

definition loadBytes :: "(string \<rightharpoonup> ModelPrice) option \<Rightarrow> Registry \<Rightarrow> bool \<times> Registry" where
  "loadBytes decoded r =
     (case decoded of
        None \<Rightarrow> (False, r)
      | Some prices \<Rightarrow> (True, r\<lparr>reg_prices := reg_prices r ++ prices\<rparr>))"

definition NewRegistry :: "(string \<rightharpoonup> ModelPrice) option \<Rightarrow> Registry" where
  "NewRegistry defaultPrices = snd (loadBytes defaultPrices \<lparr>reg_prices = Map.empty\<rparr>)"

text \<open>The file's decoded contents, or an error from reading or decoding it.\<close>

definition reg_Load :: "(string \<rightharpoonup> ModelPrice) option \<Rightarrow> Registry \<Rightarrow> bool \<times> Registry" where
  "reg_Load file r = loadBytes file r"

definition GetPrice :: "string \<Rightarrow> string \<Rightarrow> Registry \<Rightarrow> ModelPrice option" where
  "GetPrice model provider r =
     (case reg_prices r (provider @ ''/'' @ model) of
        Some p \<Rightarrow> Some p
      | None \<Rightarrow> reg_prices r model)"

lemma GetPrice_Load:
  "snd (reg_Load (Some prices) r) = r' \<Longrightarrow>
   GetPrice model provider r' =
     (case prices (provider @ ''/'' @ model) of
        Some p \<Rightarrow> Some p
      | None \<Rightarrow>
          (case reg_prices r (provider @ ''/'' @ model) of
             Some p \<Rightarrow> Some p
           | None \<Rightarrow> (case prices model of Some p \<Rightarrow> Some p | None \<Rightarrow> reg_prices r model)))"
  by (auto simp: GetPrice_def reg_Load_def loadBytes_def map_add_def split: option.splits)

end
