(* ===== verification/Router_Strategies.thy ===== *)
theory Router_Strategies
  imports Round_Robin Pricing
begin

text \<open>
  The strategies \<open>routers/leastbusy.go\<close>, \<open>tpmrpm.go\<close>, \<open>cost.go\<close>, \<open>latency.go\<close>, \<open>shuffle.go\<close> and
  \<open>tagbased.go\<close>, and the factory \<open>routers/factory.go\<close>. All strategies meet one contract, which is
  stated as a locale and interpreted for each of them.
\<close>

section \<open>Selection helpers\<close>

text \<open>
  The loop that keeps the first candidate with the smallest value; the start value \<open>-1\<close> stands
  for \<open>none yet\<close>.
\<close>

fun scan_min :: "('a \<times> int) list \<Rightarrow> int \<Rightarrow> 'a option \<Rightarrow> 'a option" where
  "scan_min [] lowest best = best"
| "scan_min ((d, v) # cs) lowest best =
     (if lowest < 0 \<or> v < lowest then scan_min cs v (Some d) else scan_min cs lowest best)"

text \<open>The loop over a running sum of weights, with the comparison the caller uses.\<close>

fun scan_weights :: "(float64 \<Rightarrow> bool) \<Rightarrow> float64 \<Rightarrow> ('a \<times> float64) list \<Rightarrow> 'a option" where
  "scan_weights hit running [] = None"
| "scan_weights hit running ((d, w) # cs) =
     (if hit (running + w) then Some d else scan_weights hit (running + w) cs)"

definition with_store :: "rng \<Rightarrow> Config \<Rightarrow> 's option \<Rightarrow> 's BaseRouter" where
  "with_store seed config store =
     (case store of Some s \<Rightarrow> NewBaseRouterWithStore seed config s | None \<Rightarrow> NewBaseRouter seed config)"

definition shuffled :: "'a list \<Rightarrow> 's BaseRouter \<Rightarrow> 'a list \<times> 's BaseRouter" where
  "shuffled xs r = (let (ys, g) = randShuffle xs (br_rng r) in (ys, r\<lparr>br_rng := g\<rparr>))"

section \<open>Least busy\<close>

definition newLeastBusyRouterWithStore :: "rng \<Rightarrow> Config \<Rightarrow> 's option \<Rightarrow> 's BaseRouter" where
  "newLeastBusyRouterWithStore seed config store =
     with_store seed (config\<lparr>cfg_Strategy := StrategyLeastBusy\<rparr>) store"

definition activeRequests :: "(string \<rightharpoonup> DeploymentStats) \<Rightarrow> ExtendedDeployment \<Rightarrow> int" where
  "activeRequests statsByID d =
     (case statsByID (ext_ID d) of Some stats \<Rightarrow> ActiveRequests stats | None \<Rightarrow> 0)"

definition lb_select ::
  "(string \<rightharpoonup> DeploymentStats) \<Rightarrow> ExtendedDeployment list \<Rightarrow> 's BaseRouter \<Rightarrow>
   (pick_error + Deployment) \<times> 's BaseRouter" where
  "lb_select statsByID healthy r =
     (let candidates0 = map (\<lambda>d. (d, activeRequests statsByID d)) healthy;
          (candidates, r1) = shuffled candidates0 r
      in case scan_min candidates (- 1) None of
           Some d \<Rightarrow> (Inr (ext_Deployment d), r1)
         | None \<Rightarrow> pick_random (map fst candidates) r1)"

definition lb_PickWithContext ::
  "'s StatsStore \<Rightarrow> go_context \<Rightarrow> go_time \<Rightarrow> RequestContext \<Rightarrow> 's BaseRouter \<Rightarrow>
   (pick_error + Deployment) \<times> 's BaseRouter" where
  "lb_PickWithContext ops ctx now reqCtx r =
     (case healthy_for ops ctx now (rq_Model reqCtx) r of
        Inl e \<Rightarrow> (Inl e, r)
      | Inr (statsByID, healthy) \<Rightarrow>
          (case tagged_for (br_config r) reqCtx healthy of
             Inl e \<Rightarrow> (Inl e, r)
           | Inr tagged \<Rightarrow>
               (case within_limits reqCtx statsByID tagged of
                  Inl e \<Rightarrow> (Inl e, r)
                | Inr fitting \<Rightarrow>
                    lb_select statsByID (filterByDefaultProvider (br_config r) fitting) r)))"

section \<open>Lowest TPM/RPM\<close>

definition newTPMRPMRouterWithStore :: "rng \<Rightarrow> Config \<Rightarrow> 's option \<Rightarrow> 's BaseRouter" where
  "newTPMRPMRouterWithStore seed config store =
     with_store seed (config\<lparr>cfg_Strategy := StrategyLowestTPMRPM\<rparr>) store"

definition current_usage :: "(string \<rightharpoonup> DeploymentStats) \<Rightarrow> ExtendedDeployment \<Rightarrow> int \<times> int" where
  "current_usage statsByID d =
     (case statsByID (ext_ID d) of
        Some stats \<Rightarrow> (CurrentMinuteTPM stats, CurrentMinuteRPM stats)
      | None \<Rightarrow> (0, 0))"

definition tpm_eligible :: "int \<Rightarrow> ExtendedDeployment \<times> int \<times> int \<Rightarrow> bool" where
  "tpm_eligible inputTokens c =
     (case c of (d, currentTPM, currentRPM) \<Rightarrow>
        let estimatedTokens = (if inputTokens = 0 then 100 else inputTokens)
        in \<not> (dc_TPMLimit (ext_Config d) > 0 \<and> currentTPM + estimatedTokens > dc_TPMLimit (ext_Config d)) \<and>
           \<not> (dc_RPMLimit (ext_Config d) > 0 \<and> currentRPM + 1 \<ge> dc_RPMLimit (ext_Config d)))"

definition tpm_select ::
  "Config \<Rightarrow> int \<Rightarrow> (ExtendedDeployment \<times> int \<times> int) list \<Rightarrow> pick_error + Deployment" where
  "tpm_select config inputTokens candidates =
     (let eligible = filter (tpm_eligible inputTokens) candidates
      in if length eligible = 0 then Inl ErrNoAvailableDeployment
         else let eligibleDeployments = map fst eligible;
                  preferred = filterByDefaultProvider config eligibleDeployments;
                  allowed = (if length preferred < length eligibleDeployments
                             then filter (\<lambda>c. list_ex (\<lambda>p. ext_ID p = ext_ID (fst c)) preferred) eligible
                             else eligible)
              in case scan_min (map (\<lambda>(d, tpm, rpm). (d, tpm)) allowed) (- 1) None of
                   Some d \<Rightarrow> Inr (ext_Deployment d)
                 | None \<Rightarrow> Inl ErrNoAvailableDeployment)"

definition tpm_PickWithContext ::
  "'s StatsStore \<Rightarrow> go_context \<Rightarrow> go_time \<Rightarrow> RequestContext \<Rightarrow> 's BaseRouter \<Rightarrow>
   (pick_error + Deployment) \<times> 's BaseRouter" where
  "tpm_PickWithContext ops ctx now reqCtx r =
     (case healthy_for ops ctx now (rq_Model reqCtx) r of
        Inl e \<Rightarrow> (Inl e, r)
      | Inr (statsByID, healthy) \<Rightarrow>
          (case tagged_for (br_config r) reqCtx healthy of
             Inl e \<Rightarrow> (Inl e, r)
           | Inr tagged \<Rightarrow>
               (let (candidates, r1) = shuffled (map (\<lambda>d. (d, current_usage statsByID d)) tagged) r
                in (tpm_select (br_config r) (rq_EstimatedInputTokens reqCtx) candidates, r1))))"

section \<open>Lowest cost\<close>

record 's CostRouter =
  cr_base :: "'s BaseRouter"
  cr_registry :: Registry

definition UnknownModelCost :: float64 where
  "UnknownModelCost = 1"

text \<open>\<open>defaults\<close> is the embedded table and \<open>file\<close> the decoded \<open>PricingFile\<close>.\<close>

definition newCostRouterWithStore ::
  "(string \<rightharpoonup> ModelPrice) option \<Rightarrow> (string \<rightharpoonup> ModelPrice) option \<Rightarrow> rng \<Rightarrow> Config \<Rightarrow> 's option \<Rightarrow>
   's CostRouter" where
  "newCostRouterWithStore defaults file seed config store =
     (let config1 = config\<lparr>cfg_Strategy := StrategyLowestCost\<rparr>;
          registry = NewRegistry defaults;
          registry1 = (if PricingFile config1 \<noteq> [] then snd (reg_Load file registry) else registry)
      in \<lparr>cr_base = with_store seed config1 store, cr_registry = registry1\<rparr>)"

definition deployment_cost :: "Registry \<Rightarrow> ExtendedDeployment \<Rightarrow> float64" where
  "deployment_cost registry d =
     (let input0 = dc_InputCostPerToken (ext_Config d);
          output0 = dc_OutputCostPerToken (ext_Config d);
          (input1, output1) =
            (if input0 = 0 \<and> output0 = 0
             then case GetPrice (dep_ModelName (ext_Deployment d)) (dep_ProviderName (ext_Deployment d)) registry of
                    Some price \<Rightarrow> (mp_InputCostPerToken price, mp_OutputCostPerToken price)
                  | None \<Rightarrow> (input0, output0)
             else (input0, output0));
          inputCost = (if input1 = 0 then UnknownModelCost else input1);
          outputCost = (if output1 = 0 then UnknownModelCost else output1)
      in inputCost + outputCost)"

definition cost_PickWithContext ::
  "'s StatsStore \<Rightarrow> go_context \<Rightarrow> go_time \<Rightarrow> RequestContext \<Rightarrow> 's CostRouter \<Rightarrow>
   (pick_error + Deployment) \<times> 's CostRouter" where
  "cost_PickWithContext ops ctx now reqCtx r =
     (let b = cr_base r
      in case healthy_for ops ctx now (rq_Model reqCtx) b of
        Inl e \<Rightarrow> (Inl e, r)
      | Inr (statsByID, healthy) \<Rightarrow>
          (case tagged_for (br_config b) reqCtx healthy of
             Inl e \<Rightarrow> (Inl e, r)
           | Inr tagged \<Rightarrow>
               (case within_limits reqCtx statsByID tagged of
                  Inl e \<Rightarrow> (Inl e, r)
                | Inr fitting \<Rightarrow>
                    (let preferred = filterByDefaultProvider (br_config b) fitting;
                         (candidates, b1) =
                           shuffled (map (\<lambda>d. (d, deployment_cost (cr_registry r) d)) preferred) b;
                         ordered = sort_key snd candidates
                     in (Inr (ext_Deployment (fst (hd ordered))), r\<lparr>cr_base := b1\<rparr>)))))"

section \<open>Lowest latency\<close>

definition newLatencyRouterWithStore :: "rng \<Rightarrow> Config \<Rightarrow> 's option \<Rightarrow> 's BaseRouter" where
  "newLatencyRouterWithStore seed config store =
     with_store seed (config\<lparr>cfg_Strategy := StrategyLowestLatency\<rparr>) store"

definition seen_latency :: "bool \<Rightarrow> (string \<rightharpoonup> DeploymentStats) \<Rightarrow> ExtendedDeployment \<Rightarrow> float64" where
  "seen_latency streaming statsByID d =
     (case statsByID (ext_ID d) of
        None \<Rightarrow> 0
      | Some stats \<Rightarrow>
          if streaming \<and> EWMAAvgTTFTMs stats > 0 then EWMAAvgTTFTMs stats
          else if \<not> streaming \<and> EWMALatencyMs stats > 0 then EWMALatencyMs stats
          else if streaming \<and> length (TTFTHistory stats) > 0 then calculateAverageLatency (TTFTHistory stats)
          else if length (LatencyHistory stats) > 0 then calculateAverageLatency (LatencyHistory stats)
          else 0)"

definition latency_weight ::
  "(string \<rightharpoonup> DeploymentStats) \<Rightarrow> bool \<Rightarrow> ExtendedDeployment \<times> float64 \<Rightarrow> float64" where
  "latency_weight statsByID hasCustomWeights c =
     (let (d, lat) = c;
          successRate = (case statsByID (ext_ID d) of Some stats \<Rightarrow> EWMASuccessRate stats | None \<Rightarrow> 1);
          latency = (if lat \<le> 0 then 1 else lat);
          baseWeight = (if \<not> hasCustomWeights then 1 else dc_Weight (ext_Config d))
      in baseWeight * (successRate * successRate) / latency)"

definition latency_select ::
  "float64 \<Rightarrow> (string \<rightharpoonup> DeploymentStats) \<Rightarrow> (ExtendedDeployment \<times> float64) list \<Rightarrow>
   's BaseRouter \<Rightarrow> (pick_error + Deployment) \<times> 's BaseRouter" where
  "latency_select latencyBuffer statsByID candidates r =
     (let lowestLatency = snd (hd candidates)
      in if lowestLatency = 0 then pick_random (map fst candidates) r
         else let buffer = latencyBuffer * lowestLatency;
                  threshold = lowestLatency + buffer;
                  validCandidates = filter (\<lambda>c. snd c \<le> threshold) candidates;
                  hasCustomWeights = list_ex (\<lambda>c. dc_Weight (ext_Config (fst c)) > 0) validCandidates;
                  weights = map (latency_weight statsByID hasCustomWeights) validCandidates;
                  totalWeight = sum_list weights
              in if totalWeight > 0
                 then let (x, g) = randFloat64 (br_rng r);
                          r1 = r\<lparr>br_rng := g\<rparr>;
                          target = x * totalWeight
                      in case scan_weights (\<lambda>running. target < running) 0
                                (zip (map fst validCandidates) weights) of
                           Some d \<Rightarrow> (Inr (ext_Deployment d), r1)
                         | None \<Rightarrow> pick_random (map fst validCandidates) r1
                 else pick_random (map fst validCandidates) r)"

definition latency_PickWithContext ::
  "'s StatsStore \<Rightarrow> go_context \<Rightarrow> go_time \<Rightarrow> RequestContext \<Rightarrow> 's BaseRouter \<Rightarrow>
   (pick_error + Deployment) \<times> 's BaseRouter" where
  "latency_PickWithContext ops ctx now reqCtx r =
     (case healthy_for ops ctx now (rq_Model reqCtx) r of
        Inl e \<Rightarrow> (Inl e, r)
      | Inr (statsByID, healthy) \<Rightarrow>
          (case tagged_for (br_config r) reqCtx healthy of
             Inl e \<Rightarrow> (Inl e, r)
           | Inr tagged \<Rightarrow>
               (case within_limits reqCtx statsByID tagged of
                  Inl e \<Rightarrow> (Inl e, r)
                | Inr fitting \<Rightarrow>
                    (let preferred = filterByDefaultProvider (br_config r) fitting;
                         (candidates, r1) =
                           shuffled (map (\<lambda>d. (d, seen_latency (rq_IsStreaming reqCtx) statsByID d)) preferred) r
                     in latency_select (LatencyBuffer (br_config r)) statsByID
                          (sort_key snd candidates) r1))))"

section \<open>Shuffle\<close>

definition newShuffleRouterWithStore :: "rng \<Rightarrow> Config \<Rightarrow> 's option \<Rightarrow> 's BaseRouter" where
  "newShuffleRouterWithStore seed config store =
     with_store seed (config\<lparr>cfg_Strategy := StrategySimpleShuffle\<rparr>) store"

definition weight_of :: "string \<Rightarrow> ExtendedDeployment \<Rightarrow> float64" where
  "weight_of weightType d =
     (if weightType = ''weight'' then dc_Weight (ext_Config d)
      else if weightType = ''rpm'' then of_int (dc_RPMLimit (ext_Config d))
      else if weightType = ''tpm'' then of_int (dc_TPMLimit (ext_Config d))
      else 0)"

definition weightedPick ::
  "ExtendedDeployment list \<Rightarrow> string \<Rightarrow> 's BaseRouter \<Rightarrow> Deployment option \<times> 's BaseRouter" where
  "weightedPick deployments weightType r =
     (let weights = map (weight_of weightType) deployments
      in if \<not> list_ex (\<lambda>w. w > 0) weights then (None, r)
         else let totalWeight = sum_list weights
              in if totalWeight = 0 then (None, r)
                 else let shares = map (\<lambda>w. w / totalWeight) weights;
                          (randVal, g) = randFloat64 (br_rng r);
                          r1 = r\<lparr>br_rng := g\<rparr>
                      in case scan_weights (\<lambda>cumulative. randVal \<le> cumulative) 0 (zip deployments shares) of
                           Some d \<Rightarrow> (Some (ext_Deployment d), r1)
                         | None \<Rightarrow> (Some (ext_Deployment (last deployments)), r1))"

definition shuffle_select ::
  "ExtendedDeployment list \<Rightarrow> 's BaseRouter \<Rightarrow> (pick_error + Deployment) \<times> 's BaseRouter" where
  "shuffle_select ds r =
     (case weightedPick ds ''weight'' r of
        (Some d, r1) \<Rightarrow> (Inr d, r1)
      | (None, r1) \<Rightarrow>
          (case weightedPick ds ''rpm'' r1 of
             (Some d, r2) \<Rightarrow> (Inr d, r2)
           | (None, r2) \<Rightarrow>
               (case weightedPick ds ''tpm'' r2 of
                  (Some d, r3) \<Rightarrow> (Inr d, r3)
                | (None, r3) \<Rightarrow> pick_random ds r3)))"

definition shuffle_PickWithContext ::
  "'s StatsStore \<Rightarrow> go_context \<Rightarrow> go_time \<Rightarrow> RequestContext \<Rightarrow> 's BaseRouter \<Rightarrow>
   (pick_error + Deployment) \<times> 's BaseRouter" where
  "shuffle_PickWithContext ops ctx now reqCtx r =
     (case healthy_for ops ctx now (rq_Model reqCtx) r of
        Inl e \<Rightarrow> (Inl e, r)
      | Inr (statsByID, healthy) \<Rightarrow>
          (case tagged_for (br_config r) reqCtx healthy of
             Inl e \<Rightarrow> (Inl e, r)
           | Inr tagged \<Rightarrow>
               (case within_limits reqCtx statsByID tagged of
                  Inl e \<Rightarrow> (Inl e, r)
                | Inr fitting \<Rightarrow> shuffle_select (filterByDefaultProvider (br_config r) fitting) r)))"

section \<open>Tags\<close>

definition newTagBasedRouterWithStore :: "rng \<Rightarrow> Config \<Rightarrow> 's option \<Rightarrow> 's BaseRouter" where
  "newTagBasedRouterWithStore seed config store =
     with_store seed (config\<lparr>cfg_Strategy := StrategyTagBased, EnableTagFiltering := True\<rparr>) store"

definition tag_PickWithContext ::
  "'s StatsStore \<Rightarrow> go_context \<Rightarrow> go_time \<Rightarrow> RequestContext \<Rightarrow> 's BaseRouter \<Rightarrow>
   (pick_error + Deployment) \<times> 's BaseRouter" where
  "tag_PickWithContext ops ctx now reqCtx r =
     (case healthy_for ops ctx now (rq_Model reqCtx) r of
        Inl e \<Rightarrow> (Inl e, r)
      | Inr (statsByID, healthy) \<Rightarrow>
          (let filtered = filterByTags healthy (rq_Tags reqCtx)
           in if length filtered = 0 then (Inl ErrNoDeploymentsWithTag, r)
              else case within_limits reqCtx statsByID filtered of
                     Inl e \<Rightarrow> (Inl e, r)
                   | Inr fitting \<Rightarrow> pick_random (filterByDefaultProvider (br_config r) fitting) r))"

section \<open>The factory\<close>

text \<open>A router of the interface \<open>Router\<close> is one of the strategies' structs.\<close>

datatype ('s, 'c) Router =
    RRRouter "('s, 'c) RoundRobinRouter"
  | ShuffleRouter "'s BaseRouter"
  | LatencyRouter "'s BaseRouter"
  | LeastBusyRouter "'s BaseRouter"
  | TPMRPMRouter "'s BaseRouter"
  | CostRouterOf "'s CostRouter"
  | TagBasedRouter "'s BaseRouter"

definition NewWithStores ::
  "(string \<rightharpoonup> ModelPrice) option \<Rightarrow> (string \<rightharpoonup> ModelPrice) option \<Rightarrow> rng \<Rightarrow> Config \<Rightarrow>
   's option \<Rightarrow> 'c option \<Rightarrow> string + ('s, 'c) Router" where
  "NewWithStores defaults file seed config statsStore rrStore =
     (let strategy = cfg_Strategy config
      in if strategy = StrategyRoundRobin
         then Inr (RRRouter (newRoundRobinRouterWithStores seed config statsStore rrStore))
         else if strategy = StrategySimpleShuffle \<or> strategy = []
         then Inr (ShuffleRouter (newShuffleRouterWithStore seed config statsStore))
         else if strategy = StrategyLowestLatency
         then Inr (LatencyRouter (newLatencyRouterWithStore seed config statsStore))
         else if strategy = StrategyLeastBusy
         then Inr (LeastBusyRouter (newLeastBusyRouterWithStore seed config statsStore))
         else if strategy = StrategyLowestTPMRPM
         then Inr (TPMRPMRouter (newTPMRPMRouterWithStore seed config statsStore))
         else if strategy = StrategyLowestCost
         then if PricingFile config \<noteq> [] \<and> \<not> fst (reg_Load file (NewRegistry defaults))
              then Inl (''load pricing file '' @ PricingFile config)
              else Inr (CostRouterOf (newCostRouterWithStore defaults file seed config statsStore))
         else if strategy = StrategyTagBased
         then Inr (TagBasedRouter (newTagBasedRouterWithStore seed config statsStore))
         else Inl (''unknown routing strategy: '' @ strategy))"

definition NewRouter ::
  "(string \<rightharpoonup> ModelPrice) option \<Rightarrow> (string \<rightharpoonup> ModelPrice) option \<Rightarrow> rng \<Rightarrow> Config \<Rightarrow>
   string + ('s, 'c) Router" where
  "NewRouter defaults file seed config = NewWithStores defaults file seed config None None"

definition MustNew ::
  "(string \<rightharpoonup> ModelPrice) option \<Rightarrow> (string \<rightharpoonup> ModelPrice) option \<Rightarrow> rng \<Rightarrow> Config \<Rightarrow>
   string + ('s, 'c) Router" where
  "MustNew defaults file seed config =
     (case NewRouter defaults file seed config of
        Inr r \<Rightarrow> Inr r
      | Inl err \<Rightarrow> NewRouter defaults file seed (config\<lparr>cfg_Strategy := StrategySimpleShuffle\<rparr>))"

definition AvailableStrategies :: "Strategy list" where
  "AvailableStrategies =
     [StrategyRoundRobin, StrategySimpleShuffle, StrategyLowestLatency, StrategyLeastBusy,
      StrategyLowestTPMRPM, StrategyLowestCost, StrategyTagBased]"

definition IsValidStrategy :: "string \<Rightarrow> bool" where
  "IsValidStrategy s = list_ex (\<lambda>valid. s = valid) AvailableStrategies"

primrec router_base :: "('s, 'c) Router \<Rightarrow> 's BaseRouter" where
  "router_base (RRRouter r) = rr_base r"
| "router_base (ShuffleRouter b) = b"
| "router_base (LatencyRouter b) = b"
| "router_base (LeastBusyRouter b) = b"
| "router_base (TPMRPMRouter b) = b"
| "router_base (CostRouterOf r) = cr_base r"
| "router_base (TagBasedRouter b) = b"

text \<open>The dynamic dispatch of the interface's \<open>PickWithContext\<close>.\<close>

text \<open>The reports are methods of the embedded base router.\<close>

primrec router_map :: "('s BaseRouter \<Rightarrow> 's BaseRouter) \<Rightarrow> ('s, 'c) Router \<Rightarrow> ('s, 'c) Router" where
  "router_map f (RRRouter r) = RRRouter (r\<lparr>rr_base := f (rr_base r)\<rparr>)"
| "router_map f (ShuffleRouter b) = ShuffleRouter (f b)"
| "router_map f (LatencyRouter b) = LatencyRouter (f b)"
| "router_map f (LeastBusyRouter b) = LeastBusyRouter (f b)"
| "router_map f (TPMRPMRouter b) = TPMRPMRouter (f b)"
| "router_map f (CostRouterOf r) = CostRouterOf (r\<lparr>cr_base := f (cr_base r)\<rparr>)"
| "router_map f (TagBasedRouter b) = TagBasedRouter (f b)"

lemma router_base_map [simp]: "router_base (router_map f r) = f (router_base r)"
  by (cases r) simp_all

primrec router_Pick ::
  "'s StatsStore \<Rightarrow> 'c RoundRobinStore \<Rightarrow> go_context \<Rightarrow> go_time \<Rightarrow> RequestContext \<Rightarrow>
   ('s, 'c) Router \<Rightarrow> (pick_error + Deployment) \<times> ('s, 'c) Router" where
  "router_Pick ops rops ctx now q (RRRouter r) =
     map_prod id RRRouter (rr_PickWithContext ops rops ctx now q r)"
| "router_Pick ops rops ctx now q (ShuffleRouter b) =
     map_prod id ShuffleRouter (shuffle_PickWithContext ops ctx now q b)"
| "router_Pick ops rops ctx now q (LatencyRouter b) =
     map_prod id LatencyRouter (latency_PickWithContext ops ctx now q b)"
| "router_Pick ops rops ctx now q (LeastBusyRouter b) =
     map_prod id LeastBusyRouter (lb_PickWithContext ops ctx now q b)"
| "router_Pick ops rops ctx now q (TPMRPMRouter b) =
     map_prod id TPMRPMRouter (tpm_PickWithContext ops ctx now q b)"
| "router_Pick ops rops ctx now q (CostRouterOf r) =
     map_prod id CostRouterOf (cost_PickWithContext ops ctx now q r)"
| "router_Pick ops rops ctx now q (TagBasedRouter b) =
     map_prod id TagBasedRouter (tag_PickWithContext ops ctx now q b)"

section \<open>Selection lemmas\<close>

lemma scan_min_in: "scan_min cs lo best = Some d \<Longrightarrow> d \<in> fst ` set cs \<or> best = Some d"
proof (induction cs arbitrary: lo best)
  case (Cons c cs)
  then show ?case by (cases c) (fastforce split: if_splits)
qed simp

lemma scan_min_Some: "scan_min cs lo (Some b) \<noteq> None"
proof (induction cs arbitrary: lo b)
  case (Cons c cs)
  then show ?case by (cases c) auto
qed simp

lemma scan_min_start: "cs \<noteq> [] \<Longrightarrow> \<exists>d. scan_min cs (- 1) None = Some d"
  using scan_min_Some by (cases cs) auto

lemma scan_min_least:
  assumes "\<forall>c\<in>set cs. 0 \<le> snd c" and "0 \<le> lo" and "scan_min cs lo (Some b) = Some d"
  shows "\<exists>v. (d, v) \<in> set ((b, lo) # cs) \<and> (\<forall>c\<in>set ((b, lo) # cs). v \<le> snd c)"
  using assms
proof (induction cs arbitrary: lo b)
  case (Cons c cs)
  obtain e w where c: "c = (e, w)" by (cases c)
  show ?case
  proof (cases "w < lo")
    case True
    with Cons.prems c have "scan_min cs w (Some e) = Some d" and "0 \<le> w" by auto
    with Cons.IH [of w e] Cons.prems(1) obtain v
      where "(d, v) \<in> set ((e, w) # cs)" "\<forall>x\<in>set ((e, w) # cs). v \<le> snd x" by auto
    then show ?thesis using c True by (intro exI [of _ v]) auto
  next
    case False
    with Cons.prems c have "scan_min cs lo (Some b) = Some d" by auto
    with Cons.IH [of lo b] Cons.prems(1,2) obtain v
      where "(d, v) \<in> set ((b, lo) # cs)" "\<forall>x\<in>set ((b, lo) # cs). v \<le> snd x" by auto
    then show ?thesis using c False by (intro exI [of _ v]) auto
  qed
qed simp

lemma scan_min_minimal:
  assumes "\<forall>c\<in>set cs. 0 \<le> snd c" and "scan_min cs (- 1) None = Some d"
  shows "\<exists>v. (d, v) \<in> set cs \<and> (\<forall>c\<in>set cs. v \<le> snd c)"
proof (cases cs)
  case (Cons c cs')
  obtain e w where c: "c = (e, w)" by (cases c)
  have "scan_min cs' w (Some e) = Some d" using assms(2) Cons c by simp
  with scan_min_least [of cs' w e d] assms(1) Cons c show ?thesis by simp
qed (use assms(2) in simp)

lemma scan_weights_in: "scan_weights hit run cs = Some d \<Longrightarrow> d \<in> fst ` set cs"
proof (induction cs arbitrary: run)
  case (Cons c cs)
  then show ?case by (cases c) (auto split: if_splits)
qed simp

lemma hd_sort_key:
  fixes f :: "'a \<Rightarrow> 'b :: linorder"
  assumes "xs \<noteq> []"
  shows "hd (sort_key f xs) \<in> set xs \<and> (\<forall>x\<in>set xs. f (hd (sort_key f xs)) \<le> f x)"
proof -
  obtain y ys where y: "sort_key f xs = y # ys"
    using assms by (metis length_0_conv length_sort list.exhaust)
  have "sorted (map f (y # ys))" using sorted_sort_key [of f xs] y by simp
  moreover have "set (y # ys) = set xs" using set_sort [of f xs] y by simp
  ultimately show ?thesis using y by (auto simp del: set_sort)
qed

lemma shuffled_props:
  assumes "shuffled xs r = (ys, r')"
  shows "set ys = set xs \<and> length ys = length xs \<and> (\<exists>g. r' = r\<lparr>br_rng := g\<rparr>)"
proof -
  obtain zs g where z: "randShuffle xs (br_rng r) = (zs, g)" by fastforce
  then have "mset zs = mset xs" by (rule randShuffle_mset)
  then have "set zs = set xs" "length zs = length xs" by (metis mset_eq_setD, metis mset_eq_length)
  then show ?thesis using assms z by (auto simp: shuffled_def)
qed

lemma selects_lb: "selects ds r (lb_select st ds r)"
proof -
  obtain cs r1 where sh: "shuffled (map (\<lambda>d. (d, activeRequests st d)) ds) r = (cs, r1)" by fastforce
  from shuffled_props [OF sh] obtain g
    where cs: "set cs = set (map (\<lambda>d. (d, activeRequests st d)) ds)" and g: "r1 = r\<lparr>br_rng := g\<rparr>"
    by auto
  have "set (map fst cs) \<subseteq> set ds" using cs by auto
  then have "selects ds r (pick_random (map fst cs) r1)"
    unfolding g by (rule selects_mono [OF selects_rng [OF selects_pick_random]])
  moreover have "d \<in> set ds" if "scan_min cs (- 1) None = Some d" for d
    using scan_min_in [OF that] cs by auto
  ultimately show ?thesis using sh g by (auto simp: lb_select_def selects_def split: option.splits)
qed

lemma selects_latency: "selects (map fst cs) r (latency_select buf st cs r)"
proof (cases "snd (hd cs) = 0")
  case True
  then show ?thesis using selects_pick_random [of "map fst cs" r] by (simp add: latency_select_def)
next
  case False
  let ?vs = "filter (\<lambda>c. snd c \<le> snd (hd cs) + buf * snd (hd cs)) cs"
  let ?ws = "map (latency_weight st (list_ex (\<lambda>c. dc_Weight (ext_Config (fst c)) > 0) ?vs)) ?vs"
  have sub: "set (map fst ?vs) \<subseteq> set (map fst cs)" by auto
  obtain x g where xg: "randFloat64 (br_rng r) = (x, g)" by fastforce
  have rnd: "selects (map fst cs) r (pick_random (map fst ?vs) r)"
    "selects (map fst cs) r (pick_random (map fst ?vs) (r\<lparr>br_rng := g\<rparr>))"
    using selects_mono [OF selects_pick_random sub] selects_rng by blast+
  have scan: "selects (map fst cs) r (Inr (ext_Deployment d), r\<lparr>br_rng := g\<rparr>)"
    if "scan_weights h 0 (zip (map fst ?vs) ?ws) = Some d" for h d
  proof -
    have "d \<in> set (map fst ?vs)"
      using scan_weights_in [OF that] by (auto dest!: set_zip_leftD)
    with sub have "d \<in> set (map fst cs)" by blast
    then show ?thesis unfolding selects_def by (simp, blast)
  qed
  show ?thesis
    using False xg scan rnd by (auto simp: latency_select_def Let_def split: option.splits)
qed

lemma weightedPick_in:
  assumes "weightedPick ds ty r = (res, r')" and "ds \<noteq> []"
  shows "(\<exists>g. r' = r\<lparr>br_rng := g\<rparr>) \<and> (\<forall>d. res = Some d \<longrightarrow> d \<in> ext_Deployment ` set ds)"
proof -
  obtain x g where xg: "randFloat64 (br_rng r) = (x, g)" by fastforce
  have "last ds \<in> set ds" using assms(2) by simp
  then show ?thesis
    using assms(1) xg rng_self [of r]
    by (auto simp: weightedPick_def Let_def split: if_splits option.splits
        dest!: scan_weights_in set_zip_leftD)
qed

lemma selects_shuffle: assumes "ds \<noteq> []" shows "selects ds r (shuffle_select ds r)"
proof -
  obtain o1 r1 where w1: "weightedPick ds ''weight'' r = (o1, r1)" by fastforce
  obtain o2 r2 where w2: "weightedPick ds ''rpm'' r1 = (o2, r2)" by fastforce
  obtain o3 r3 where w3: "weightedPick ds ''tpm'' r2 = (o3, r3)" by fastforce
  note p1 = weightedPick_in [OF w1 assms] and p2 = weightedPick_in [OF w2 assms]
    and p3 = weightedPick_in [OF w3 assms]
  have r1: "\<exists>g. r1 = r\<lparr>br_rng := g\<rparr>" using p1 by blast
  then have r2: "\<exists>g. r2 = r\<lparr>br_rng := g\<rparr>" using p2 by auto
  then have r3: "\<exists>g. r3 = r\<lparr>br_rng := g\<rparr>" using p3 by auto
  have "selects ds r (pick_random ds r3)"
    using r3 selects_rng [OF selects_pick_random] by blast
  moreover have "selects ds r (Inr d, r')"
    if "\<exists>g. r' = r\<lparr>br_rng := g\<rparr>" "d \<in> ext_Deployment ` set ds" for d r'
    using that by (simp add: selects_def)
  ultimately show ?thesis
    using p1 p2 p3 r1 r2 r3
    by (cases o1; cases o2; cases o3) (simp_all add: shuffle_select_def w1 w2 w3)
qed

section \<open>The contract of a strategy\<close>

text \<open>
  What the gateway relies on when it calls a router: it never gets a deployment of another
  model or one on cooldown, a pick changes nothing but the generator of the base router, and
  when every deployment is on cooldown it gets \<open>ErrNoAvailableDeployment\<close>.
\<close>

text \<open>A sequence of picks, each with its time and request, all by the same tenant.\<close>

fun picks ::
  "('s StatsStore \<Rightarrow> go_context \<Rightarrow> go_time \<Rightarrow> RequestContext \<Rightarrow> 'r \<Rightarrow> (pick_error + Deployment) \<times> 'r) \<Rightarrow>
   's StatsStore \<Rightarrow> go_context \<Rightarrow> (go_time \<times> RequestContext) list \<Rightarrow> 'r \<Rightarrow> (pick_error + Deployment) list" where
  "picks pick ops ctx [] r = []"
| "picks pick ops ctx (x # xs) r =
     (case pick ops ctx (fst x) (snd x) r of (res, r') \<Rightarrow> res # picks pick ops ctx xs r')"

locale routing_strategy =
  fixes pick :: "'s StatsStore \<Rightarrow> go_context \<Rightarrow> go_time \<Rightarrow> RequestContext \<Rightarrow> 'r \<Rightarrow> (pick_error + Deployment) \<times> 'r"
    and base :: "'r \<Rightarrow> 's BaseRouter"
  assumes pick_sound: "pick ops ctx now q r = (Inr d, r') \<Longrightarrow>
      \<exists>e\<in>set (snapshotDeployments (rq_Model q) (base r)).
        ext_Deployment e = d \<and> available ops ctx now (base r) (ext_ID e)"
    and pick_frame: "pick ops ctx now q r = (res, r') \<Longrightarrow> \<exists>g. base r' = (base r)\<lparr>br_rng := g\<rparr>"
    and pick_none: "\<forall>e\<in>set (snapshotDeployments (rq_Model q) (base r)). \<not> available ops ctx now (base r) (ext_ID e)
      \<Longrightarrow> fst (pick ops ctx now q r) = Inl ErrNoAvailableDeployment"
begin

lemma never_on_cooldown:
  assumes "pick ops ctx now q r = (Inr d, r')"
  shows "available ops ctx now (base r) (dep_ID d)"
  using pick_sound [OF assms] by auto

lemma picks_respect_cooldown:
  assumes "seen_stats ops ctx (base r) i = Some st" and "\<forall>x\<in>set xs. fst x \<le> CooldownUntil st"
    and "Inr d \<in> set (picks pick ops ctx xs r)"
  shows "dep_ID d \<noteq> i"
  using assms
proof (induction xs arbitrary: r)
  case (Cons x xs)
  obtain res r' where p: "pick ops ctx (fst x) (snd x) r = (res, r')" by fastforce
  obtain g where "base r' = (base r)\<lparr>br_rng := g\<rparr>" using pick_frame [OF p] by blast
  then have seen: "seen_stats ops ctx (base r') i = Some st" using Cons.prems(1) by simp
  show ?case
  proof (cases "res = Inr d")
    case True
    then have "available ops ctx (fst x) (base r) (dep_ID d)" using never_on_cooldown p by blast
    then show ?thesis using Cons.prems(1,2) by (auto simp: available_def)
  next
    case False
    then show ?thesis using Cons.IH [OF seen] Cons.prems(2,3) p by auto
  qed
qed simp

end

text \<open>
  Some strategies always find a deployment for a request without tags and token estimate when
  one is off cooldown; limits and weights do not come into it.
\<close>

locale eager_strategy = routing_strategy pick base
  for pick :: "'s StatsStore \<Rightarrow> go_context \<Rightarrow> go_time \<Rightarrow> RequestContext \<Rightarrow> 'r \<Rightarrow> (pick_error + Deployment) \<times> 'r"
    and base :: "'r \<Rightarrow> 's BaseRouter" +
  assumes pick_some: "\<lbrakk>e \<in> set (snapshotDeployments model (base r)); available ops ctx now (base r) (ext_ID e)\<rbrakk>
      \<Longrightarrow> \<exists>d. fst (pick ops ctx now (model_request model) r) = Inr d"
begin

lemma plain_pick_fails_iff:
  "(\<exists>err. fst (pick ops ctx now (model_request model) r) = Inl err) \<longleftrightarrow>
   (\<forall>e\<in>set (snapshotDeployments model (base r)). \<not> available ops ctx now (base r) (ext_ID e))"
  using pick_some pick_none [of "model_request model" r ops ctx now]
  by (auto simp: model_request_def) (metis Inl_Inr_False)

end

text \<open>
  The steps all strategies share, up to the candidates: the cooldown filter, the tags and the
  limits. The strategies differ in what they do with the result.
\<close>

definition candidates_for ::
  "'s StatsStore \<Rightarrow> go_context \<Rightarrow> go_time \<Rightarrow> RequestContext \<Rightarrow> 's BaseRouter \<Rightarrow>
   pick_error + ((string \<rightharpoonup> DeploymentStats) \<times> ExtendedDeployment list)" where
  "candidates_for ops ctx now q r =
     (case healthy_for ops ctx now (rq_Model q) r of
        Inl e \<Rightarrow> Inl e
      | Inr (st, h) \<Rightarrow>
          (case tagged_for (br_config r) q h of
             Inl e \<Rightarrow> Inl e
           | Inr ts \<Rightarrow> (case within_limits q st ts of Inl e \<Rightarrow> Inl e | Inr fs \<Rightarrow> Inr (st, fs))))"

definition usable ::
  "'s StatsStore \<Rightarrow> go_context \<Rightarrow> go_time \<Rightarrow> RequestContext \<Rightarrow> 's BaseRouter \<Rightarrow> ExtendedDeployment set" where
  "usable ops ctx now q r =
     {e \<in> set (snapshotDeployments (rq_Model q) r). available ops ctx now r (ext_ID e)}"

lemma candidates_for_Inr:
  assumes "candidates_for ops ctx now q r = Inr (st, fs)"
  shows "fs \<noteq> [] \<and> set fs \<subseteq> usable ops ctx now q r \<and>
    st = statsSnapshot ops ctx (snapshotDeployments (rq_Model q) r) r"
proof -
  obtain h ts where h: "healthy_for ops ctx now (rq_Model q) r = Inr (st, h)"
    and ts: "tagged_for (br_config r) q h = Inr ts" and fs: "within_limits q st ts = Inr fs"
    using assms by (auto simp: candidates_for_def split: sum.splits prod.splits)
  have h': "h \<noteq> []" "set h \<subseteq> usable ops ctx now q r"
    "st = statsSnapshot ops ctx (snapshotDeployments (rq_Model q) r) r"
    using h by (auto simp: healthy_for_Inr usable_def)
  have t': "ts \<noteq> []" "set ts \<subseteq> set h" using tagged_for_Inr [OF ts h'(1)] by auto
  have f': "fs \<noteq> []" "set fs \<subseteq> set ts" using within_limits_Inr [OF fs t'(1)] by auto
  show ?thesis using h' t' f' by blast
qed

lemma candidates_for_none:
  "\<forall>e\<in>set (snapshotDeployments (rq_Model q) r). \<not> available ops ctx now r (ext_ID e) \<Longrightarrow>
   candidates_for ops ctx now q r = Inl ErrNoAvailableDeployment"
  using healthy_for_Inl [of ops ctx now "rq_Model q" r ErrNoAvailableDeployment]
  by (simp add: candidates_for_def)

lemma candidates_for_plain:
  assumes "e \<in> set (snapshotDeployments model r)" and "available ops ctx now r (ext_ID e)"
  shows "candidates_for ops ctx now (model_request model) r =
    Inr (statsSnapshot ops ctx (snapshotDeployments model r) r,
         filter (\<lambda>d. available ops ctx now r (ext_ID d)) (snapshotDeployments model r))"
proof -
  let ?h = "filter (\<lambda>d. available ops ctx now r (ext_ID d)) (snapshotDeployments model r)"
  have "?h \<noteq> []" using assms by (auto simp: filter_empty_conv)
  then have "healthy_for ops ctx now model r =
      Inr (statsSnapshot ops ctx (snapshotDeployments model r) r, ?h)"
    by (simp add: healthy_for_Inr)
  then show ?thesis
    by (simp add: candidates_for_def model_request_def tagged_for_off within_limits_def)
qed

text \<open>A strategy that selects from usable candidates meets the contract.\<close>

lemma contract_from_selects:
  assumes eq: "p = (case c of Inl e \<Rightarrow> (Inl e, r) | Inr (st, fs) \<Rightarrow> F st fs)"
    and ok: "\<And>st fs. c = Inr (st, fs) \<Longrightarrow> fs \<noteq> [] \<and> set fs \<subseteq> U"
    and sel: "\<And>st fs. fs \<noteq> [] \<Longrightarrow> selects fs r (F st fs)"
  shows "p = (Inr d, r') \<Longrightarrow> d \<in> ext_Deployment ` U"
    and "p = (res, r') \<Longrightarrow> \<exists>g. r' = r\<lparr>br_rng := g\<rparr>"
proof -
  have inr: "selects fs r (F st fs) \<and> set fs \<subseteq> U" if "c = Inr (st, fs)" for st fs
    using ok [OF that] sel by blast
  show "d \<in> ext_Deployment ` U" if "p = (Inr d, r')"
  proof (cases c)
    case (Inr x)
    obtain st fs where x: "x = (st, fs)" by (cases x)
    have "F st fs = (Inr d, r')" using that eq Inr x by simp
    then have "d \<in> ext_Deployment ` set fs" using inr [of st fs] Inr x by (simp add: selects_def)
    moreover have "ext_Deployment ` set fs \<subseteq> ext_Deployment ` U" using inr [of st fs] Inr x by blast
    ultimately show ?thesis by blast
  qed (use that eq in simp)
  show "\<exists>g. r' = r\<lparr>br_rng := g\<rparr>" if "p = (res, r')"
  proof (cases c)
    case (Inl e)
    then show ?thesis using that eq rng_self [of r] by simp
  next
    case (Inr x)
    obtain st fs where x: "x = (st, fs)" by (cases x)
    have "F st fs = (res, r')" using that eq Inr x by simp
    then show ?thesis using inr [of st fs] Inr x by (simp add: selects_def)
  qed
qed

lemma selects_preferred:
  assumes "\<And>ds. ds \<noteq> [] \<Longrightarrow> selects ds r (G ds)" and "fs \<noteq> []"
  shows "selects fs r (G (filterByDefaultProvider cfg fs))"
  using assms filterByDefaultProvider_subset(1) [of cfg fs]
    filterByDefaultProvider_subset(2) [of fs cfg] selects_mono by blast

lemma usable_witness:
  "d \<in> ext_Deployment ` usable ops ctx now q r \<Longrightarrow>
   \<exists>e\<in>set (snapshotDeployments (rq_Model q) r). ext_Deployment e = d \<and> available ops ctx now r (ext_ID e)"
  by (auto simp: usable_def)

text \<open>Requests whose token estimate the strategy does not look at before it selects.\<close>

abbreviation no_estimate :: "RequestContext \<Rightarrow> RequestContext" where
  "no_estimate q \<equiv> q\<lparr>rq_EstimatedInputTokens := 0\<rparr>"

lemma tagged_for_no_estimate [simp]: "tagged_for cfg (no_estimate q) h = tagged_for cfg q h"
  by (simp add: tagged_for_def)

lemma within_limits_no_estimate [simp]: "within_limits (no_estimate q) st h = Inr h"
  by (simp add: within_limits_def)

lemma usable_no_estimate [simp]: "usable ops ctx now (no_estimate q) r = usable ops ctx now q r"
  by (simp add: usable_def)

lemma base_pick_eq:
  "PickWithContext ops ctx now q r =
     (case candidates_for ops ctx now (no_estimate q) r of
        Inl e \<Rightarrow> (Inl e, r)
      | Inr (st, fs) \<Rightarrow> pick_random (filterByDefaultProvider (br_config r) fs) r)"
  by (simp add: PickWithContext_def candidates_for_def split: sum.split prod.split)

lemma lb_pick_eq:
  "lb_PickWithContext ops ctx now q r =
     (case candidates_for ops ctx now q r of
        Inl e \<Rightarrow> (Inl e, r)
      | Inr (st, fs) \<Rightarrow> lb_select st (filterByDefaultProvider (br_config r) fs) r)"
  by (simp add: lb_PickWithContext_def candidates_for_def split: sum.split prod.split)

lemma shuffle_pick_eq:
  "shuffle_PickWithContext ops ctx now q r =
     (case candidates_for ops ctx now q r of
        Inl e \<Rightarrow> (Inl e, r)
      | Inr (st, fs) \<Rightarrow> shuffle_select (filterByDefaultProvider (br_config r) fs) r)"
  by (simp add: shuffle_PickWithContext_def candidates_for_def split: sum.split prod.split)

definition latency_from ::
  "bool \<Rightarrow> (string \<rightharpoonup> DeploymentStats) \<Rightarrow> 's BaseRouter \<Rightarrow> ExtendedDeployment list \<Rightarrow>
   (pick_error + Deployment) \<times> 's BaseRouter" where
  "latency_from streaming st r ds =
     (let (cs, r1) = shuffled (map (\<lambda>d. (d, seen_latency streaming st d)) ds) r
      in latency_select (LatencyBuffer (br_config r)) st (sort_key snd cs) r1)"

lemma latency_pick_eq:
  "latency_PickWithContext ops ctx now q r =
     (case candidates_for ops ctx now q r of
        Inl e \<Rightarrow> (Inl e, r)
      | Inr (st, fs) \<Rightarrow> latency_from (rq_IsStreaming q) st r (filterByDefaultProvider (br_config r) fs))"
  by (simp add: latency_PickWithContext_def candidates_for_def latency_from_def split: sum.split prod.split)

lemma selects_latency_from: "selects ds r (latency_from streaming st r ds)"
proof -
  obtain cs r1 where sh: "shuffled (map (\<lambda>d. (d, seen_latency streaming st d)) ds) r = (cs, r1)" by fastforce
  from shuffled_props [OF sh] obtain g
    where cs: "set cs = set (map (\<lambda>d. (d, seen_latency streaming st d)) ds)" and g: "r1 = r\<lparr>br_rng := g\<rparr>"
    by auto
  have "set (map fst (sort_key snd cs)) \<subseteq> set ds" using cs by auto
  then have "selects ds r (latency_select (LatencyBuffer (br_config r)) st (sort_key snd cs) r1)"
    unfolding g by (rule selects_mono [OF selects_rng [OF selects_latency]])
  then show ?thesis by (simp add: latency_from_def sh)
qed

definition tpm_from ::
  "int \<Rightarrow> (string \<rightharpoonup> DeploymentStats) \<Rightarrow> 's BaseRouter \<Rightarrow> ExtendedDeployment list \<Rightarrow>
   (pick_error + Deployment) \<times> 's BaseRouter" where
  "tpm_from tokens st r ds =
     (let (cs, r1) = shuffled (map (\<lambda>d. (d, current_usage st d)) ds) r
      in (tpm_select (br_config r) tokens cs, r1))"

lemma tpm_pick_eq:
  "tpm_PickWithContext ops ctx now q r =
     (case candidates_for ops ctx now (no_estimate q) r of
        Inl e \<Rightarrow> (Inl e, r)
      | Inr (st, fs) \<Rightarrow> tpm_from (rq_EstimatedInputTokens q) st r fs)"
  by (simp add: tpm_PickWithContext_def candidates_for_def tpm_from_def split: sum.split prod.split)

lemma tpm_select_in:
  assumes "tpm_select cfg tokens cs = Inr d"
  obtains e u where "(e, u) \<in> set cs" and "tpm_eligible tokens (e, u)" and "d = ext_Deployment e"
proof -
  let ?el = "filter (tpm_eligible tokens) cs"
  define as where "as =
    (if length (filterByDefaultProvider cfg (map fst ?el)) < length (map fst ?el)
     then filter (\<lambda>c. list_ex (\<lambda>p. ext_ID p = ext_ID (fst c)) (filterByDefaultProvider cfg (map fst ?el))) ?el
     else ?el)"
  have "tpm_select cfg tokens cs =
      (if length ?el = 0 then Inl ErrNoAvailableDeployment
       else case scan_min (map (\<lambda>(d, tpm, rpm). (d, tpm)) as) (- 1) None of
              Some d \<Rightarrow> Inr (ext_Deployment d) | None \<Rightarrow> Inl ErrNoAvailableDeployment)"
    unfolding tpm_select_def Let_def as_def ..
  then obtain e where sm: "scan_min (map (\<lambda>(d, tpm, rpm). (d, tpm)) as) (- 1) None = Some e"
    and d: "d = ext_Deployment e"
    using assms by (auto split: if_splits option.splits)
  have as: "set as \<subseteq> set ?el" by (auto simp: as_def)
  have "e \<in> fst ` set as" using scan_min_in [OF sm] by force
  with as d that show ?thesis by fastforce
qed

lemma selects_tpm_from: "selects ds r (tpm_from tokens st r ds)"
proof -
  obtain cs r1 where sh: "shuffled (map (\<lambda>d. (d, current_usage st d)) ds) r = (cs, r1)" by fastforce
  from shuffled_props [OF sh] obtain g
    where cs: "set cs = set (map (\<lambda>d. (d, current_usage st d)) ds)" and g: "r1 = r\<lparr>br_rng := g\<rparr>" by auto
  have "d \<in> ext_Deployment ` set ds" if tp: "tpm_select (br_config r) tokens cs = Inr d" for d
    using tp by (rule tpm_select_in) (use cs in auto)
  then show ?thesis using g by (auto simp: tpm_from_def sh selects_def)
qed

definition tag_candidates ::
  "'s StatsStore \<Rightarrow> go_context \<Rightarrow> go_time \<Rightarrow> RequestContext \<Rightarrow> 's BaseRouter \<Rightarrow>
   pick_error + ((string \<rightharpoonup> DeploymentStats) \<times> ExtendedDeployment list)" where
  "tag_candidates ops ctx now q r =
     (case healthy_for ops ctx now (rq_Model q) r of
        Inl e \<Rightarrow> Inl e
      | Inr (st, h) \<Rightarrow>
          (if filterByTags h (rq_Tags q) = [] then Inl ErrNoDeploymentsWithTag
           else case within_limits q st (filterByTags h (rq_Tags q)) of Inl e \<Rightarrow> Inl e | Inr fs \<Rightarrow> Inr (st, fs)))"

lemma tag_pick_eq:
  "tag_PickWithContext ops ctx now q r =
     (case tag_candidates ops ctx now q r of
        Inl e \<Rightarrow> (Inl e, r)
      | Inr (st, fs) \<Rightarrow> pick_random (filterByDefaultProvider (br_config r) fs) r)"
  by (simp add: tag_PickWithContext_def tag_candidates_def Let_def split: sum.split prod.split)

lemma filterByTags_subset: "set (filterByTags h tags) \<subseteq> set h"
  by (auto simp: filterByTags_def Let_def)

lemma tag_candidates_Inr:
  assumes "tag_candidates ops ctx now q r = Inr (st, fs)"
  shows "fs \<noteq> [] \<and> set fs \<subseteq> usable ops ctx now q r"
proof -
  obtain h where h: "healthy_for ops ctx now (rq_Model q) r = Inr (st, h)"
    and ne: "filterByTags h (rq_Tags q) \<noteq> []" and fs: "within_limits q st (filterByTags h (rq_Tags q)) = Inr fs"
    using assms by (auto simp: tag_candidates_def split: sum.splits prod.splits if_splits)
  have "set h \<subseteq> usable ops ctx now q r" using h by (auto simp: healthy_for_Inr usable_def)
  then show ?thesis
    using within_limits_Inr [OF fs ne] filterByTags_subset [of h "rq_Tags q"] by blast
qed

section \<open>Every strategy meets the contract\<close>

text \<open>
  For the strategies whose state is the base router: candidates that are usable and a selection
  from them give the contract.
\<close>

lemma strategyI:
  fixes pick :: "'s StatsStore \<Rightarrow> go_context \<Rightarrow> go_time \<Rightarrow> RequestContext \<Rightarrow> 's BaseRouter \<Rightarrow>
    (pick_error + Deployment) \<times> 's BaseRouter"
  assumes eq: "\<And>ops ctx now q r. pick ops ctx now q r =
      (case C ops ctx now q r of Inl e \<Rightarrow> (Inl e, r) | Inr (st, fs) \<Rightarrow> F q st r fs)"
    and ok: "\<And>ops ctx now q r st fs. C ops ctx now q r = Inr (st, fs) \<Longrightarrow>
      fs \<noteq> [] \<and> set fs \<subseteq> usable ops ctx now q r"
    and none: "\<And>ops ctx now q r. \<forall>e\<in>set (snapshotDeployments (rq_Model q) r). \<not> available ops ctx now r (ext_ID e)
      \<Longrightarrow> C ops ctx now q r = Inl ErrNoAvailableDeployment"
    and sel: "\<And>q st r fs. fs \<noteq> [] \<Longrightarrow> selects fs r (F q st r fs)"
  shows "routing_strategy pick (\<lambda>r. r)"
proof (unfold_locales, goal_cases)
  case (1 ops ctx now q r d r')
  have "d \<in> ext_Deployment ` usable ops ctx now q r"
    by (rule contract_from_selects(1) [OF eq _ _ 1]) (use ok sel in blast)+
  then show ?case by (rule usable_witness)
next
  case (2 ops ctx now q r res r')
  show ?case
    by (rule contract_from_selects(2) [OF eq _ _ 2, where U = "usable ops ctx now q r"]) (use ok sel in blast)+
next
  case (3 q r ops ctx now)
  then show ?case using none [OF 3] by (simp add: eq)
qed

lemma candidates_ok:
  "candidates_for ops ctx now q r = Inr (st, fs) \<Longrightarrow> fs \<noteq> [] \<and> set fs \<subseteq> usable ops ctx now q r"
  "candidates_for ops ctx now (no_estimate q) r = Inr (st, fs) \<Longrightarrow> fs \<noteq> [] \<and> set fs \<subseteq> usable ops ctx now q r"
  using candidates_for_Inr [of ops ctx now q r st fs] candidates_for_Inr [of ops ctx now "no_estimate q" r st fs]
  by simp_all

lemma candidates_none:
  "\<forall>e\<in>set (snapshotDeployments (rq_Model q) r). \<not> available ops ctx now r (ext_ID e) \<Longrightarrow>
   candidates_for ops ctx now (no_estimate q) r = Inl ErrNoAvailableDeployment"
  using candidates_for_none [of "no_estimate q" r ops ctx now] by simp

lemma tag_candidates_none:
  "\<forall>e\<in>set (snapshotDeployments (rq_Model q) r). \<not> available ops ctx now r (ext_ID e) \<Longrightarrow>
   tag_candidates ops ctx now q r = Inl ErrNoAvailableDeployment"
  using healthy_for_Inl [of ops ctx now "rq_Model q" r ErrNoAvailableDeployment]
  by (simp add: tag_candidates_def)

interpretation base_strat: routing_strategy PickWithContext "\<lambda>r. r"
  by (rule strategyI, rule base_pick_eq, erule candidates_ok(2), erule candidates_none,
      rule selects_preferred, rule selects_pick_random)

interpretation lb_strat: routing_strategy lb_PickWithContext "\<lambda>r. r"
  by (rule strategyI, rule lb_pick_eq, erule candidates_ok(1), erule candidates_for_none,
      rule selects_preferred, rule selects_lb)

interpretation shuffle_strat: routing_strategy shuffle_PickWithContext "\<lambda>r. r"
  by (rule strategyI, rule shuffle_pick_eq, erule candidates_ok(1), erule candidates_for_none,
      rule selects_preferred, erule selects_shuffle)

interpretation latency_strat: routing_strategy latency_PickWithContext "\<lambda>r. r"
  by (rule strategyI, rule latency_pick_eq, erule candidates_ok(1), erule candidates_for_none,
      rule selects_preferred, rule selects_latency_from)

interpretation tpm_strat: routing_strategy tpm_PickWithContext "\<lambda>r. r"
  by (rule strategyI, rule tpm_pick_eq, erule candidates_ok(2), erule candidates_none,
      rule selects_tpm_from)

interpretation tag_strat: routing_strategy tag_PickWithContext "\<lambda>r. r"
  by (rule strategyI, rule tag_pick_eq, erule tag_candidates_Inr, erule tag_candidates_none,
      rule selects_preferred, rule selects_pick_random)

definition cost_from ::
  "Registry \<Rightarrow> 's BaseRouter \<Rightarrow> ExtendedDeployment list \<Rightarrow> (pick_error + Deployment) \<times> 's BaseRouter" where
  "cost_from reg b ds =
     (let (cs, b1) = shuffled (map (\<lambda>d. (d, deployment_cost reg d)) ds) b
      in (Inr (ext_Deployment (fst (hd (sort_key snd cs)))), b1))"

definition cost_base ::
  "Registry \<Rightarrow> 's StatsStore \<Rightarrow> go_context \<Rightarrow> go_time \<Rightarrow> RequestContext \<Rightarrow> 's BaseRouter \<Rightarrow>
   (pick_error + Deployment) \<times> 's BaseRouter" where
  "cost_base reg ops ctx now q b =
     (case candidates_for ops ctx now q b of
        Inl e \<Rightarrow> (Inl e, b)
      | Inr (st, fs) \<Rightarrow> cost_from reg b (filterByDefaultProvider (br_config b) fs))"

lemma cost_pick_eq:
  "cost_PickWithContext ops ctx now q r =
     map_prod id (\<lambda>b. r\<lparr>cr_base := b\<rparr>) (cost_base (cr_registry r) ops ctx now q (cr_base r))"
  by (simp add: cost_PickWithContext_def candidates_for_def cost_from_def cost_base_def Let_def
      split: sum.split prod.split)

text \<open>The cheapest of the candidates is selected.\<close>

lemma cost_from_cheapest:
  assumes "ds \<noteq> []"
  shows "\<exists>d\<in>set ds. fst (cost_from reg b ds) = Inr (ext_Deployment d) \<and>
    (\<forall>e\<in>set ds. deployment_cost reg d \<le> deployment_cost reg e) \<and>
    (\<exists>g. snd (cost_from reg b ds) = b\<lparr>br_rng := g\<rparr>)"
proof -
  obtain cs b1 where sh: "shuffled (map (\<lambda>d. (d, deployment_cost reg d)) ds) b = (cs, b1)" by fastforce
  note ps = shuffled_props [OF sh]
  have "cs \<noteq> []" using ps assms by auto
  from hd_sort_key [OF this, of snd] ps obtain d
    where "d \<in> set ds" "hd (sort_key snd cs) = (d, deployment_cost reg d)"
      "\<forall>e\<in>set ds. deployment_cost reg d \<le> deployment_cost reg e" by auto
  then show ?thesis using ps by (intro bexI [of _ d]) (simp_all add: cost_from_def sh)
qed

lemma selects_cost_from: "ds \<noteq> [] \<Longrightarrow> selects ds b (cost_from reg b ds)"
  using cost_from_cheapest [of ds reg b] by (auto simp: selects_def)

lemma map_prod_id_eq: "map_prod id f p = (x, y) \<longleftrightarrow> (\<exists>z. p = (x, z) \<and> y = f z)"
  by (cases p) auto

lemma cost_base_strategy: "routing_strategy (cost_base reg) (\<lambda>r. r)"
  by (rule strategyI, rule cost_base_def, erule candidates_ok(1), erule candidates_for_none,
      rule selects_preferred, erule selects_cost_from)

interpretation cost_strat: routing_strategy cost_PickWithContext cr_base
proof (unfold_locales, goal_cases)
  case (1 ops ctx now q r d r')
  then obtain b' where "cost_base (cr_registry r) ops ctx now q (cr_base r) = (Inr d, b')"
    by (auto simp: cost_pick_eq map_prod_id_eq)
  then show ?case by (rule routing_strategy.pick_sound [OF cost_base_strategy])
next
  case (2 ops ctx now q r res r')
  then obtain b' where "cost_base (cr_registry r) ops ctx now q (cr_base r) = (res, b')"
    and r': "r' = r\<lparr>cr_base := b'\<rparr>"
    by (auto simp: cost_pick_eq map_prod_id_eq)
  from routing_strategy.pick_frame [OF cost_base_strategy this(1)] show ?case using r' by simp
next
  case (3 q r ops ctx now)
  then show ?case using routing_strategy.pick_none [OF cost_base_strategy 3] by (simp add: cost_pick_eq)
qed

lemma rr_pick_eq:
  "rr_PickWithContext ops rops ctx now q r =
     (case candidates_for ops ctx now q (rr_base r) of
        Inl e \<Rightarrow> (Inl e, r)
      | Inr (st, fs) \<Rightarrow>
          (case nextIndex rops (canonicalModelKey (rq_Model q)) (int (length fs)) r of
             (index, r') \<Rightarrow> (Inr (ext_Deployment (fs ! nat index)), r')))"
  by (simp add: rr_PickWithContext_def candidates_for_def split: sum.split prod.split)

interpretation rr_strat: routing_strategy "\<lambda>ops. rr_PickWithContext ops rops" rr_base for rops
proof (unfold_locales, goal_cases)
  case (1 ops ctx now q r d r')
  then obtain st fs index where fs: "candidates_for ops ctx now q (rr_base r) = Inr (st, fs)"
    and nx: "nextIndex rops (canonicalModelKey (rq_Model q)) (int (length fs)) r = (index, r')"
    and d: "d = ext_Deployment (fs ! nat index)"
    by (auto simp: rr_pick_eq split: sum.splits prod.splits)
  note ok = candidates_ok(1) [OF fs]
  have "0 \<le> index \<and> index < int (length fs)" using nextIndex_range [OF _ nx] ok by simp
  then have "fs ! nat index \<in> set fs" by (simp add: nat_less_iff)
  then have "d \<in> ext_Deployment ` usable ops ctx now q (rr_base r)" using ok d by blast
  then show ?case by (rule usable_witness)
next
  case (2 ops ctx now q r res r')
  have "rr_base r' = rr_base r"
  proof (cases "candidates_for ops ctx now q (rr_base r)")
    case (Inl e)
    then show ?thesis using 2 by (simp add: rr_pick_eq)
  next
    case (Inr x)
    obtain st fs where x: "x = (st, fs)" by (cases x)
    obtain index r1 where nx: "nextIndex rops (canonicalModelKey (rq_Model q)) (int (length fs)) r = (index, r1)"
      by fastforce
    have "rr_base r1 = rr_base r" using nextIndex_range [OF _ nx] candidates_ok(1) [of ops ctx now q "rr_base r" st fs] Inr x by simp
    then show ?thesis using 2 Inr x nx by (simp add: rr_pick_eq)
  qed
  then show ?case using rng_self [of "rr_base r"] by simp
next
  case (3 q r ops ctx now)
  then show ?case by (simp add: rr_pick_eq candidates_for_none)
qed

text \<open>So does every router of the interface.\<close>

interpretation any_strat: routing_strategy "\<lambda>ops. router_Pick ops rops" router_base for rops
proof (unfold_locales, goal_cases)
  case (1 ops ctx now q r d r')
  show ?case
  proof (cases r)
    case (RRRouter x)
    with 1 show ?thesis by (auto simp: map_prod_id_eq dest: rr_strat.pick_sound)
  next
    case (ShuffleRouter x)
    with 1 show ?thesis by (auto simp: map_prod_id_eq dest: shuffle_strat.pick_sound)
  next
    case (LatencyRouter x)
    with 1 show ?thesis by (auto simp: map_prod_id_eq dest: latency_strat.pick_sound)
  next
    case (LeastBusyRouter x)
    with 1 show ?thesis by (auto simp: map_prod_id_eq dest: lb_strat.pick_sound)
  next
    case (TPMRPMRouter x)
    with 1 show ?thesis by (auto simp: map_prod_id_eq dest: tpm_strat.pick_sound)
  next
    case (CostRouterOf x)
    with 1 show ?thesis by (auto simp: map_prod_id_eq dest: cost_strat.pick_sound)
  next
    case (TagBasedRouter x)
    with 1 show ?thesis by (auto simp: map_prod_id_eq dest: tag_strat.pick_sound)
  qed
next
  case (2 ops ctx now q r res r')
  show ?case
  proof (cases r)
    case (RRRouter x)
    with 2 show ?thesis by (auto simp: map_prod_id_eq dest: rr_strat.pick_frame)
  next
    case (ShuffleRouter x)
    with 2 show ?thesis by (auto simp: map_prod_id_eq dest: shuffle_strat.pick_frame)
  next
    case (LatencyRouter x)
    with 2 show ?thesis by (auto simp: map_prod_id_eq dest: latency_strat.pick_frame)
  next
    case (LeastBusyRouter x)
    with 2 show ?thesis by (auto simp: map_prod_id_eq dest: lb_strat.pick_frame)
  next
    case (TPMRPMRouter x)
    with 2 show ?thesis by (auto simp: map_prod_id_eq dest: tpm_strat.pick_frame)
  next
    case (CostRouterOf x)
    with 2 show ?thesis by (auto simp: map_prod_id_eq dest: cost_strat.pick_frame)
  next
    case (TagBasedRouter x)
    with 2 show ?thesis by (auto simp: map_prod_id_eq dest: tag_strat.pick_frame)
  qed
next
  case (3 q r ops ctx now)
  then show ?case
    by (cases r) (simp_all add: rr_strat.pick_none shuffle_strat.pick_none latency_strat.pick_none
        lb_strat.pick_none tpm_strat.pick_none cost_strat.pick_none tag_strat.pick_none)
qed

end
