(* ===== verification/Router_Properties.thy ===== *)
theory Router_Properties
  imports Router_Strategies
begin

text \<open>
  The properties of routing that rest on the contract of the strategies: cooldowns are honoured
  and end, tenants are isolated, each strategy chooses what its name says, and the places where
  limits and administrative cooldowns are not applied.
\<close>

section \<open>Strategies that always find a deployment\<close>

lemma lb_select_returns: "ds \<noteq> [] \<Longrightarrow> \<exists>d. fst (lb_select st ds r) = Inr d"
proof -
  assume ds: "ds \<noteq> []"
  obtain cs r1 where sh: "shuffled (map (\<lambda>d. (d, activeRequests st d)) ds) r = (cs, r1)" by fastforce
  have "cs \<noteq> []" using shuffled_props [OF sh] ds by auto
  then obtain d where "scan_min cs (- 1) None = Some d" using scan_min_start by blast
  then show ?thesis by (simp add: lb_select_def sh)
qed

lemma shuffle_select_returns: "ds \<noteq> [] \<Longrightarrow> \<exists>d. fst (shuffle_select ds r) = Inr d"
  using pick_random_returns by (auto simp: shuffle_select_def split: prod.splits option.splits)

lemma preferred_not_Nil:
  "e \<in> set (snapshotDeployments model r) \<Longrightarrow> available ops ctx now r (ext_ID e) \<Longrightarrow>
   filterByDefaultProvider cfg
     (filter (\<lambda>d. available ops ctx now r (ext_ID d)) (snapshotDeployments model r)) \<noteq> []"
  by (rule filterByDefaultProvider_subset(2)) (auto simp: filter_empty_conv)

interpretation base_eager: eager_strategy PickWithContext "\<lambda>r. r"
proof (unfold_locales, goal_cases)
  case (1 e model r ops ctx now)
  have "no_estimate (model_request model) = model_request model" by (simp add: model_request_def)
  then show ?case
    using 1 pick_random_returns [OF preferred_not_Nil [OF 1]] by (simp add: base_pick_eq candidates_for_plain)
qed

interpretation lb_eager: eager_strategy lb_PickWithContext "\<lambda>r. r"
proof (unfold_locales, goal_cases)
  case (1 e model r ops ctx now)
  then show ?case
    using lb_select_returns [OF preferred_not_Nil [OF 1]] by (simp add: lb_pick_eq candidates_for_plain)
qed

interpretation shuffle_eager: eager_strategy shuffle_PickWithContext "\<lambda>r. r"
proof (unfold_locales, goal_cases)
  case (1 e model r ops ctx now)
  then show ?case
    using shuffle_select_returns [OF preferred_not_Nil [OF 1]] by (simp add: shuffle_pick_eq candidates_for_plain)
qed

interpretation cost_eager: eager_strategy cost_PickWithContext cr_base
proof (unfold_locales, goal_cases)
  case (1 e model r ops ctx now)
  then show ?case
    using cost_from_cheapest [OF preferred_not_Nil [OF 1]]
    by (simp add: cost_pick_eq cost_base_def candidates_for_plain) blast
qed

interpretation rr_eager: eager_strategy "\<lambda>ops. rr_PickWithContext ops rops" rr_base for rops
proof (unfold_locales, goal_cases)
  case (1 e model r ops ctx now)
  then show ?case by (simp add: rr_pick_eq candidates_for_plain split: prod.split)
qed

interpretation tag_eager: eager_strategy tag_PickWithContext "\<lambda>r. r"
proof (unfold_locales, goal_cases)
  case (1 e model r ops ctx now)
  let ?h = "filter (\<lambda>d. available ops ctx now r (ext_ID d)) (snapshotDeployments model r)"
  have h: "?h \<noteq> []" using 1 by (auto simp: filter_empty_conv)
  then have "healthy_for ops ctx now model r = Inr (statsSnapshot ops ctx (snapshotDeployments model r) r, ?h)"
    by (simp add: healthy_for_Inr)
  moreover have ne: "filterByTags ?h [] \<noteq> []" using h by (simp add: filterByTags_def Let_def)
  ultimately show ?case
    using pick_random_returns [OF filterByDefaultProvider_subset(2) [OF ne, of "br_config r"], of r]
    by (simp add: tag_pick_eq tag_candidates_def model_request_def within_limits_def)
qed

section \<open>Cooldowns\<close>

text \<open>
  A small router for the examples: two deployments of one model, no store.
\<close>

definition dep_named :: "string \<Rightarrow> Deployment" where
  "dep_named i =
     \<lparr>dep_ID = i, dep_ProviderName = ''openai'', dep_ModelName = ''gpt'', dep_ModelAlias = [],
      dep_BaseURL = [], dep_APIKey = [], dep_MaxConcurrent = 0, dep_Timeout = 0, dep_Priority = 0,
      dep_Metadata = Map.empty\<rparr>"

definition no_draws :: rng where
  "no_draws = \<lparr>rng_ints = [], rng_fracs = []\<rparr>"

definition two_deployments :: "MemoryStatsStore BaseRouter" where
  "two_deployments =
     AddDeployment (dep_named ''b'') (AddDeployment (dep_named ''a'') (NewBaseRouter no_draws DefaultConfig))"

text \<open>
  \<^bold>\<open>C1\<close>. Cooldowns are honoured by every strategy: while the statistics that a tenant's requests
  see of a deployment have a cooldown, no sequence of picks of that tenant at times up to its
  end returns the deployment, whichever of the seven strategies the router has and whatever the
  models, tags and token estimates of the requests are.
\<close>

theorem cooldown_is_honoured:
  assumes "seen_stats ops ctx (router_base r) i = Some st"
    and "\<forall>x\<in>set xs. fst x \<le> CooldownUntil st"
    and "Inr d \<in> set (picks (\<lambda>ops. router_Pick ops rops) ops ctx xs r)"
  shows "dep_ID d \<noteq> i"
  using assms by (rule any_strat.picks_respect_cooldown)

definition cooled_a :: "MemoryStatsStore BaseRouter" where
  "cooled_a = two_deployments\<lparr>br_stats := (br_stats two_deployments)
     (''a'' \<mapsto> (newStatsEntry DefaultConfig)\<lparr>CooldownUntil := 100\<rparr>)\<rparr>"

lemma two_deployments_fields:
  "br_statsStore two_deployments = None" "br_config two_deployments = DefaultConfig"
  "br_stats two_deployments = [''a'' \<mapsto> newStatsEntry DefaultConfig, ''b'' \<mapsto> newStatsEntry DefaultConfig]"
  "br_deployments two_deployments ''gpt'' =
     map (\<lambda>i. \<lparr>ext_Deployment = dep_named i, ext_Config = zero_DeploymentConfig\<rparr>) [''a'', ''b'']"
  by (simp_all add: two_deployments_def AddDeployment_def AddDeploymentWithConfig_def NewBaseRouter_def
      dep_named_def deployment_model_def Let_def)

lemma dep_named_ID [simp]: "dep_ID (dep_named i) = i"
  by (simp add: dep_named_def)

lemma newStatsEntry_cooldown [simp]: "CooldownUntil (newStatsEntry cfg) = zero_time"
  by (simp add: newStatsEntry_def DeploymentStats.defs statsEntry.defs zero_stats_def)

lemma cooled_a_view:
  "snapshotDeployments ''gpt'' cooled_a = br_deployments two_deployments ''gpt''"
  "seen_stats ops [] cooled_a ''a'' =
     Some (DeploymentStats.truncate ((newStatsEntry DefaultConfig)\<lparr>CooldownUntil := 100\<rparr>))"
  "available ops [] 50 cooled_a ''b''"
  by (simp_all add: snapshotDeployments_def cooled_a_def two_deployments_fields seen_stats_def available_def
      localStatsKey_def TenantScopeFromContext_def statsEntrySnapshot_def Let_def)

theorem cooldown_is_honoured_witness:
  "\<exists>d. Inr d \<in> set (picks (\<lambda>ops. router_Pick ops memory_rr_ops) memory_ops []
          [(50, model_request ''gpt'')] (LeastBusyRouter cooled_a)) \<and> dep_ID d \<noteq> ''a''"
proof -
  let ?b = "\<lparr>ext_Deployment = dep_named ''b'', ext_Config = zero_DeploymentConfig\<rparr>"
  have "?b \<in> set (snapshotDeployments ''gpt'' cooled_a)"
    by (simp add: cooled_a_view two_deployments_fields)
  from lb_eager.pick_some [OF this, of memory_ops "[]" 50] obtain d
    where "fst (lb_PickWithContext memory_ops [] 50 (model_request ''gpt'') cooled_a) = Inr d"
    by (auto simp: cooled_a_view)
  then have d: "Inr d \<in> set (picks (\<lambda>ops. router_Pick ops memory_rr_ops) memory_ops []
      [(50, model_request ''gpt'')] (LeastBusyRouter cooled_a))"
    by (simp add: case_prod_beta)
  have "dep_ID d \<noteq> ''a''"
    by (rule cooldown_is_honoured [OF _ _ d, of "''a''" "DeploymentStats.truncate
          ((newStatsEntry DefaultConfig)\<lparr>CooldownUntil := 100\<rparr>)"]) (simp_all add: cooled_a_view)
  with d show ?thesis by blast
qed



section \<open>Reports\<close>

text \<open>The decision looks at the buckets only.\<close>

lemma shouldCooldown_cong:
  "FailureBuckets st = FailureBuckets st' \<Longrightarrow>
   shouldCooldownByFailureRate cfg now single st = shouldCooldownByFailureRate cfg now single st'"
  by (simp add: shouldCooldownByFailureRate_def windowTotals_def)

lemma recordWindow_buckets_cong:
  "FailureBuckets st = FailureBuckets st' \<Longrightarrow>
   FailureBuckets (recordWindow now ok st) = FailureBuckets (recordWindow now ok st')"
  by (simp add: recordWindow_def Let_def)

definition immediate_cooldown :: "Config \<Rightarrow> bool \<Rightarrow> go_error \<Rightarrow> bool" where
  "immediate_cooldown cfg single err =
     (case errors_As err of
        None \<Rightarrow> False
      | Some e \<Rightarrow> (ImmediateCooldownOn429 cfg \<and> StatusCode e = 429 \<and> \<not> single)
                  \<or> StatusCode e \<in> {401, 404, 408})"

lemma recordWindow_keeps [simp]:
  "CooldownUntil (recordWindow now ok st) = CooldownUntil st"
  by (simp add: recordWindow_def Let_def)

lemma failure_entry_cooldown:
  "CooldownUntil (snd (failure_entry cfg single err now now2 st)) =
     (if immediate_cooldown cfg single err \<or>
         shouldCooldownByFailureRate cfg now single (recordWindow now False st)
      then now2 + CooldownPeriod cfg else CooldownUntil st)"
proof -
  define st1 where "st1 = recordWindowFailure now (st\<lparr>TotalRequests := TotalRequests st + 1,
    FailureCount := FailureCount st + 1, LastRequestTime := now\<rparr>)"
  define rate where "rate = shouldCooldownByFailureRate cfg now single (recordWindow now False st)"
  have bk: "FailureBuckets st1 = FailureBuckets (recordWindow now False st)"
    unfolding st1_def recordWindowFailure_def by (rule recordWindow_buckets_cong) simp
  have rates: "shouldCooldownByFailureRate cfg now single st1 = rate"
    "shouldCooldownByFailureRate cfg now single (st1\<lparr>LatencyHistory := h\<rparr>) = rate" for h
    unfolding rate_def by (rule shouldCooldown_cong, simp add: bk)+
  have keep: "CooldownUntil st1 = CooldownUntil st" by (simp add: st1_def recordWindowFailure_def)
  show ?thesis
    unfolding failure_entry_def st1_def [symmetric] rate_def [symmetric] Let_def immediate_cooldown_def
    by (simp add: rates keep split: option.split)
qed

lemma ReportFailure_local:
  assumes "br_statsStore r = None"
  shows "\<exists>ms. ReportFailure ops ctx now now2 now3 dep err r =
    (putStats (localStatsKey ctx (dep_ID dep))
      (snd (failure_entry (br_config r) (isSingleDeployment dep r) err now now2
         (getOrCreateStats (localStatsKey ctx (dep_ID dep)) r))) r)\<lparr>br_metrics := ms\<rparr>"
proof -
  obtain c st' where fe: "failure_entry (br_config r) (isSingleDeployment dep r) err now now2
      (getOrCreateStats (localStatsKey ctx (dep_ID dep)) r) = (c, st')" by fastforce
  let ?r1 = "putStats (localStatsKey ctx (dep_ID dep)) st' r"
  have "\<exists>ms. ?r1 = ?r1\<lparr>br_metrics := ms\<rparr>" by (rule exI [of _ "br_metrics ?r1"]) simp
  then show ?thesis
    using assms fe recordCooldownMetric_frame [of now3 "Some dep" _ _ ?r1]
    by (cases c) (simp_all add: ReportFailure_def Let_def)
qed

text \<open>
  When a failure puts a deployment on cooldown, in local mode: exactly if the error is a
  429 that the configuration reacts to and the deployment is not the only one of its model, or
  a 401, 404 or 408, or if the outcomes of the last five minutes exceed the failure rate. Then
  the cooldown runs from the report for the configured period; otherwise it stays as it was.
\<close>

theorem report_failure_cooldown:
  assumes "br_statsStore r = None"
  shows "CooldownUntil (the (seen_stats ops ctx (ReportFailure ops ctx now now2 now3 dep err r) (dep_ID dep))) =
    (let st = getOrCreateStats (localStatsKey ctx (dep_ID dep)) r;
         single = isSingleDeployment dep r
     in if immediate_cooldown (br_config r) single err \<or>
           shouldCooldownByFailureRate (br_config r) now single (recordWindow now False st)
        then now2 + CooldownPeriod (br_config r) else CooldownUntil st)"
proof -
  obtain ms where "ReportFailure ops ctx now now2 now3 dep err r =
    (putStats (localStatsKey ctx (dep_ID dep))
      (snd (failure_entry (br_config r) (isSingleDeployment dep r) err now now2
         (getOrCreateStats (localStatsKey ctx (dep_ID dep)) r))) r)\<lparr>br_metrics := ms\<rparr>"
    using ReportFailure_local [OF assms] by blast
  then show ?thesis
    using assms by (simp add: seen_stats_put failure_entry_cooldown Let_def)
qed

definition err_status :: "int \<Rightarrow> go_error" where
  "err_status code = LLMErr \<lparr>StatusCode = code, err_Message = [], err_Type = [], err_Provider = [],
     err_Model = [], Retryable = True\<rparr>"

theorem report_failure_cooldown_witness:
  "CooldownUntil (the (seen_stats memory_ops ''t'' (ReportFailure memory_ops ''t'' 0 7 8 (dep_named ''a'')
      (WrappedErr ''upstream'' (err_status 429)) two_deployments) ''a'')) = 7 + 60 * second"
proof -
  have "isSingleDeployment (dep_named ''a'') two_deployments = False"
    using two_deployments_fields(4)
    by (simp add: isSingleDeployment_def deployment_model_def dep_named_def)
  then show ?thesis
    using report_failure_cooldown [of two_deployments memory_ops "''t''" 0 7 8 "dep_named ''a''"
        "WrappedErr ''upstream'' (err_status 429)"]
    by (simp add: two_deployments_fields immediate_cooldown_def err_status_def DefaultConfig_def)
qed

lemma ReportFailure_seen:
  assumes "br_statsStore r = None"
  shows "seen_stats ops ctx' (ReportFailure ops ctx now now2 now3 dep err r) i =
    (if localStatsKey ctx' i = localStatsKey ctx (dep_ID dep)
     then Some (DeploymentStats.truncate
       (snd (failure_entry (br_config r) (isSingleDeployment dep r) err now now2
         (getOrCreateStats (localStatsKey ctx (dep_ID dep)) r))))
     else seen_stats ops ctx' r i)"
proof -
  obtain ms where "ReportFailure ops ctx now now2 now3 dep err r =
    (putStats (localStatsKey ctx (dep_ID dep))
      (snd (failure_entry (br_config r) (isSingleDeployment dep r) err now now2
         (getOrCreateStats (localStatsKey ctx (dep_ID dep)) r))) r)\<lparr>br_metrics := ms\<rparr>"
    using ReportFailure_local [OF assms] by blast
  then show ?thesis using assms by (simp add: seen_stats_put)
qed



text \<open>
  Tenants are isolated in local mode: the failure of a request of one tenant changes
  nothing that the requests of another tenant, or requests without a tenant, see of the
  deployment.
\<close>

theorem tenant_failures_isolated:
  assumes "br_statsStore r = None" and "ctx \<noteq> ctx'"
  shows "seen_stats ops ctx' (ReportFailure ops ctx now now2 now3 dep err r) (dep_ID dep)
    = seen_stats ops ctx' r (dep_ID dep)"
  using assms localStatsKey_inj [of ctx' "dep_ID dep" ctx] by (simp add: ReportFailure_seen)

theorem tenant_failures_isolated_witness:
  "map_option CooldownUntil (seen_stats memory_ops [] (ReportFailure memory_ops ''t'' 0 7 8 (dep_named ''a'')
      (err_status 401) two_deployments) ''a'') = Some zero_time"
  using tenant_failures_isolated [of two_deployments "''t''" "[]" memory_ops 0 7 8 "dep_named ''a''" "err_status 401"]
  by (simp add: two_deployments_fields seen_stats_def localStatsKey_def TenantScopeFromContext_def
      statsEntrySnapshot_def Let_def)

text \<open>
  In local mode an administrative cooldown is stored without a tenant: \<open>IsCircuitOpen\<close>
  reports the deployment as open until the given time, yet for the requests of every tenant
  the deployment is available just as before.
\<close>

theorem admin_cooldown_misses_tenants:
  assumes "br_statsStore r = None" and "ctx \<noteq> []" and "i = dep_ID dep"
  shows "IsCircuitOpen ops now dep (snd (SetCooldown ops order t i until r)) = (now < until) \<and>
    available ops ctx now (snd (SetCooldown ops order t i until r)) i = available ops ctx now r i"
proof -
  define r1 where "r1 = putStats i ((getOrCreateStats i r)\<lparr>CooldownUntil := until\<rparr>) r"
  obtain ms where r2: "snd (SetCooldown ops order t i until r) = r1\<lparr>br_metrics := ms\<rparr>"
    using assms(1) recordCooldownMetric_frame
    by (simp add: SetCooldown_def r1_def Let_def) blast
  have "localStatsKey ctx i \<noteq> i"
    using assms(2) by (simp add: localStatsKey_def TenantScopeFromContext_def Let_def)
  then have "seen_stats ops ctx (r1\<lparr>br_metrics := ms\<rparr>) i = seen_stats ops ctx r i"
    using assms(1) by (simp add: r1_def seen_stats_put)
  moreover have "IsCircuitOpen ops now dep (r1\<lparr>br_metrics := ms\<rparr>) = (now < until)"
    using assms by (simp add: IsCircuitOpen_def r1_def putStats_def)
  ultimately show ?thesis by (simp add: r2 available_def)
qed

theorem admin_cooldown_misses_tenants_witness:
  "IsCircuitOpen memory_ops 5 (dep_named ''a'') (snd (SetCooldown memory_ops [] 1 ''a'' 100 two_deployments)) \<and>
   available memory_ops ''t'' 5 (snd (SetCooldown memory_ops [] 1 ''a'' 100 two_deployments)) ''a''"
proof -
  have "available memory_ops ''t'' 5 two_deployments ''a''"
    by (simp add: available_def seen_stats_def two_deployments_fields localStatsKey_def
        TenantScopeFromContext_def statsEntrySnapshot_def Let_def)
  then show ?thesis
    using admin_cooldown_misses_tenants [of two_deployments "''t''" "''a''" "dep_named ''a''" memory_ops 5 "[]" 1 100]
    by (simp add: two_deployments_fields)
qed

section \<open>What the strategies choose\<close>

text \<open>
  The deployments a strategy chooses from: off cooldown, matching the tags, within the limits
  and of the default provider if there are any of it.
\<close>

abbreviation preferred_of :: "'s BaseRouter \<Rightarrow> ExtendedDeployment list \<Rightarrow> ExtendedDeployment list" where
  "preferred_of r fs \<equiv> filterByDefaultProvider (br_config r) fs"

lemma latency_select_near:
  assumes "fst (latency_select buf st cs r) = Inr d"
  shows "\<exists>e l. (e, l) \<in> set cs \<and> d = ext_Deployment e \<and>
    (snd (hd cs) = 0 \<or> l \<le> snd (hd cs) + buf * snd (hd cs))"
proof -
  let ?vs = "filter (\<lambda>c. snd c \<le> snd (hd cs) + buf * snd (hd cs)) cs"
  have rnd: "\<exists>c\<in>set ds. d = ext_Deployment (fst c)" if "fst (pick_random (map fst ds) r') = Inr d" for ds r'
    using selects_pick_random [of "map fst ds" r'] that by (auto simp: selects_def)
  show ?thesis
  proof (cases "snd (hd cs) = 0")
    case True
    then show ?thesis using assms rnd [of cs r] by (fastforce simp: latency_select_def)
  next
    case False
    have "d \<in> (\<lambda>c. ext_Deployment (fst c)) ` set ?vs"
      using assms False rnd [of ?vs]
      by (auto simp: latency_select_def Let_def image_iff split: if_splits option.splits prod.splits
          dest!: scan_weights_in set_zip_leftD) blast
    then show ?thesis by fastforce
  qed
qed

text \<open>The example router with given statistics of its two deployments.\<close>

definition two_with :: "statsEntry \<Rightarrow> statsEntry \<Rightarrow> MemoryStatsStore BaseRouter" where
  "two_with sa sb = two_deployments\<lparr>br_stats := [''a'' \<mapsto> sa, ''b'' \<mapsto> sb]\<rparr>"

abbreviation plain_dep :: "string \<Rightarrow> ExtendedDeployment" where
  "plain_dep i \<equiv> \<lparr>ext_Deployment = dep_named i, ext_Config = zero_DeploymentConfig\<rparr>"

lemma two_with_fields [simp]:
  "br_statsStore (two_with sa sb) = None" "br_config (two_with sa sb) = DefaultConfig"
  "snapshotDeployments ''gpt'' (two_with sa sb) = [plain_dep ''a'', plain_dep ''b'']"
  by (simp_all add: two_with_def two_deployments_fields snapshotDeployments_def Let_def)

lemma two_with_seen:
  "seen_stats ops [] (two_with sa sb) i =
     (if i = ''a'' then Some (DeploymentStats.truncate sa)
      else if i = ''b'' then Some (DeploymentStats.truncate sb) else None)"
  by (simp add: seen_stats_def) (simp add: two_with_def localStatsKey_def TenantScopeFromContext_def
      statsEntrySnapshot_def Let_def)

lemma two_with_candidates:
  assumes "CooldownUntil sa < now" and "CooldownUntil sb < now"
  shows "candidates_for ops [] now (model_request ''gpt'') (two_with sa sb) =
    Inr ([''a'' \<mapsto> DeploymentStats.truncate sa, ''b'' \<mapsto> DeploymentStats.truncate sb],
         [plain_dep ''a'', plain_dep ''b''])"
proof -
  have "statsSnapshot ops [] [plain_dep ''a'', plain_dep ''b''] (two_with sa sb) =
      [''a'' \<mapsto> DeploymentStats.truncate sa, ''b'' \<mapsto> DeploymentStats.truncate sb]"
    by (rule ext) (simp add: statsSnapshot_at two_with_seen)
  then show ?thesis
    using candidates_for_plain [of "plain_dep ''a''" "''gpt''" "two_with sa sb" ops "[]" now] assms
    by (simp add: available_def two_with_seen)
qed

lemma preferred_default [simp]: "filterByDefaultProvider DefaultConfig ds = ds"
  by (simp add: filterByDefaultProvider_def DefaultConfig_def)

text \<open>
  Least busy: the deployment returned has no more active requests than any other
  candidate, as long as the counters of active requests are not negative.
\<close>

theorem least_busy_minimal:
  assumes "candidates_for ops ctx now q r = Inr (st, fs)"
    and "\<forall>e\<in>set fs. 0 \<le> activeRequests st e"
  shows "\<exists>e\<in>set (preferred_of r fs).
    fst (lb_PickWithContext ops ctx now q r) = Inr (ext_Deployment e) \<and>
    (\<forall>e'\<in>set (preferred_of r fs). activeRequests st e \<le> activeRequests st e')"
proof -
  let ?P = "preferred_of r fs"
  have "fs \<noteq> []" using candidates_for_Inr [OF assms(1)] by simp
  then have P: "?P \<noteq> []" "set ?P \<subseteq> set fs" using filterByDefaultProvider_subset by auto
  obtain cs r1 where sh: "shuffled (map (\<lambda>d. (d, activeRequests st d)) ?P) r = (cs, r1)" by fastforce
  have cs: "set cs = (\<lambda>d. (d, activeRequests st d)) ` set ?P" using shuffled_props [OF sh] by auto
  then have "cs \<noteq> []" using P(1) by auto
  then obtain e where e: "scan_min cs (- 1) None = Some e" using scan_min_start by blast
  have "\<forall>c\<in>set cs. 0 \<le> snd c" using cs P(2) assms(2) by auto
  from scan_min_minimal [OF this e] cs have "e \<in> set ?P"
    and "\<forall>e'\<in>set ?P. activeRequests st e \<le> activeRequests st e'" by auto
  then show ?thesis using e by (intro bexI [of _ e]) (simp_all add: lb_pick_eq assms(1) lb_select_def sh)
qed

theorem least_busy_minimal_witness:
  "fst (lb_PickWithContext memory_ops [] 50 (model_request ''gpt'')
     (two_with ((newStatsEntry DefaultConfig)\<lparr>ActiveRequests := 3\<rparr>)
       ((newStatsEntry DefaultConfig)\<lparr>ActiveRequests := 1\<rparr>))) = Inr (dep_named ''b'')"
  using least_busy_minimal [OF two_with_candidates, of "(newStatsEntry DefaultConfig)\<lparr>ActiveRequests := 3\<rparr>" 50
      "(newStatsEntry DefaultConfig)\<lparr>ActiveRequests := 1\<rparr>" memory_ops]
  by (simp add: activeRequests_def)

text \<open>
  Lowest cost: the deployment returned is a cheapest candidate, where the cost is the
  configured one, else that of the pricing table, else one dollar per token.
\<close>

theorem lowest_cost_cheapest:
  assumes "candidates_for ops ctx now q (cr_base r) = Inr (st, fs)"
  shows "\<exists>e\<in>set (preferred_of (cr_base r) fs).
    fst (cost_PickWithContext ops ctx now q r) = Inr (ext_Deployment e) \<and>
    (\<forall>e'\<in>set (preferred_of (cr_base r) fs). deployment_cost (cr_registry r) e \<le> deployment_cost (cr_registry r) e')"
proof -
  have "preferred_of (cr_base r) fs \<noteq> []"
    using candidates_for_Inr [OF assms] filterByDefaultProvider_subset by blast
  from cost_from_cheapest [OF this, of "cr_registry r" "cr_base r"]
  show ?thesis by (auto simp: cost_pick_eq cost_base_def assms)
qed

theorem lowest_cost_cheapest_witness:
  "\<exists>e\<in>{plain_dep ''a'', plain_dep ''b''}.
    fst (cost_PickWithContext memory_ops [] 50 (model_request ''gpt'')
      \<lparr>cr_base = two_with (newStatsEntry DefaultConfig) (newStatsEntry DefaultConfig), cr_registry = NewRegistry None\<rparr>)
    = Inr (ext_Deployment e)"
  using lowest_cost_cheapest [of memory_ops "[]" 50 "model_request ''gpt''"
      "\<lparr>cr_base = two_with (newStatsEntry DefaultConfig) (newStatsEntry DefaultConfig), cr_registry = NewRegistry None\<rparr>",
      unfolded CostRouter.simps, OF two_with_candidates]
  by auto

text \<open>
  Lowest TPM/RPM: the deployment returned has room for the request. With a token limit,
  the tokens of the minute and the estimate fit into it; with a request limit, the requests of
  the minute stay at least two below it, so that the last request of the limit, and every
  request of a deployment with limit one, is refused.
\<close>

theorem tpm_rpm_within_limits:
  assumes "candidates_for ops ctx now (no_estimate q) r = Inr (st, fs)"
    and "fst (tpm_PickWithContext ops ctx now q r) = Inr d"
  shows "\<exists>e\<in>set fs. d = ext_Deployment e \<and>
    (0 < dc_TPMLimit (ext_Config e) \<longrightarrow>
       fst (current_usage st e) + (if rq_EstimatedInputTokens q = 0 then 100 else rq_EstimatedInputTokens q)
         \<le> dc_TPMLimit (ext_Config e)) \<and>
    (0 < dc_RPMLimit (ext_Config e) \<longrightarrow> snd (current_usage st e) + 2 \<le> dc_RPMLimit (ext_Config e))"
proof -
  obtain cs r1 where sh: "shuffled (map (\<lambda>d. (d, current_usage st d)) fs) r = (cs, r1)" by fastforce
  have cs: "set cs = (\<lambda>d. (d, current_usage st d)) ` set fs" using shuffled_props [OF sh] by auto
  have "tpm_select (br_config r) (rq_EstimatedInputTokens q) cs = Inr d"
    using assms by (simp add: tpm_pick_eq tpm_from_def sh)
  then obtain e u where e: "(e, u) \<in> set cs" "tpm_eligible (rq_EstimatedInputTokens q) (e, u)"
    "d = ext_Deployment e" by (rule tpm_select_in)
  with cs have "e \<in> set fs" "u = current_usage st e" by auto
  then show ?thesis
    using e by (intro bexI [of _ e]) (auto simp: tpm_eligible_def Let_def split: prod.splits if_splits)
qed

lemma two_with_rng [simp]: "br_rng (two_with sa sb) = no_draws"
  by (simp add: two_with_def two_deployments_def AddDeployment_def AddDeploymentWithConfig_def
      NewBaseRouter_def Let_def)

lemma no_draws_int [simp]: "randIntn n no_draws = (0, no_draws)"
  by (simp add: randIntn_def no_draws_def)

lemma two_with_shuffled: "shuffled [x, y] (two_with sa sb) = ([y, x], two_with sa sb)"
proof -
  have "(two_with sa sb)\<lparr>br_rng := no_draws\<rparr> = two_with sa sb"
    by (rule BaseRouter.equality) simp_all
  then show ?thesis by (simp add: shuffled_def randShuffle_def swap_at_def)
qed

theorem tpm_rpm_within_limits_witness:
  "\<exists>e\<in>{plain_dep ''a'', plain_dep ''b''}.
     fst (tpm_PickWithContext memory_ops [] 50 (model_request ''gpt'')
       (two_with (newStatsEntry DefaultConfig) (newStatsEntry DefaultConfig))) = Inr (ext_Deployment e)"
proof -
  let ?r = "two_with (newStatsEntry DefaultConfig) (newStatsEntry DefaultConfig)"
  have c: "candidates_for memory_ops [] 50 (no_estimate (model_request ''gpt'')) ?r =
    Inr ([''a'' \<mapsto> DeploymentStats.truncate (newStatsEntry DefaultConfig),
          ''b'' \<mapsto> DeploymentStats.truncate (newStatsEntry DefaultConfig)], [plain_dep ''a'', plain_dep ''b''])"
    using two_with_candidates [of "newStatsEntry DefaultConfig" 50 "newStatsEntry DefaultConfig" memory_ops]
    by (simp add: model_request_def)
  have "\<exists>d. fst (tpm_PickWithContext memory_ops [] 50 (model_request ''gpt'') ?r) = Inr d"
    unfolding tpm_pick_eq c
    by (simp add: tpm_from_def two_with_shuffled tpm_select_def tpm_eligible_def zero_DeploymentConfig_def Let_def
        split: prod.split)
  then show ?thesis using tpm_rpm_within_limits [OF c] by auto
qed

text \<open>
  Lowest latency: the deployment returned is within the configured buffer of the fastest
  candidate, unless the fastest candidate has no latency measured yet, in which case any
  candidate may be returned.
\<close>

theorem latency_within_buffer:
  assumes "candidates_for ops ctx now q r = Inr (st, fs)"
    and "fst (latency_PickWithContext ops ctx now q r) = Inr d"
  shows "\<exists>e\<in>set (preferred_of r fs). \<exists>m\<in>set (preferred_of r fs). d = ext_Deployment e \<and>
    (\<forall>e'\<in>set (preferred_of r fs). seen_latency (rq_IsStreaming q) st m \<le> seen_latency (rq_IsStreaming q) st e') \<and>
    (seen_latency (rq_IsStreaming q) st m = 0 \<or>
     seen_latency (rq_IsStreaming q) st e \<le> (1 + LatencyBuffer (br_config r)) * seen_latency (rq_IsStreaming q) st m)"
proof -
  let ?P = "preferred_of r fs" and ?lat = "seen_latency (rq_IsStreaming q) st"
  have P: "?P \<noteq> []" using candidates_for_Inr [OF assms(1)] filterByDefaultProvider_subset by blast
  obtain cs r1 where sh: "shuffled (map (\<lambda>d. (d, ?lat d)) ?P) r = (cs, r1)" by fastforce
  have cs: "set cs = (\<lambda>d. (d, ?lat d)) ` set ?P" using shuffled_props [OF sh] by auto
  then have "cs \<noteq> []" using P by auto
  from hd_sort_key [OF this, of snd] cs obtain m where m: "m \<in> set ?P" "hd (sort_key snd cs) = (m, ?lat m)"
    "\<forall>e'\<in>set ?P. ?lat m \<le> ?lat e'" by auto
  have "fst (latency_select (LatencyBuffer (br_config r)) st (sort_key snd cs) r1) = Inr d"
    using assms by (simp add: latency_pick_eq latency_from_def sh)
  from latency_select_near [OF this] m(2) obtain e l where "(e, l) \<in> set cs" "d = ext_Deployment e"
    "?lat m = 0 \<or> l \<le> (1 + LatencyBuffer (br_config r)) * ?lat m" by (auto simp: algebra_simps)
  with cs m show ?thesis by auto
qed

theorem latency_within_buffer_witness:
  "fst (latency_PickWithContext memory_ops [] 50 (model_request ''gpt'')
     (two_with ((newStatsEntry DefaultConfig)\<lparr>EWMALatencyMs := 100\<rparr>)
       ((newStatsEntry DefaultConfig)\<lparr>EWMALatencyMs := 200\<rparr>))) = Inr (dep_named ''a'')"
proof -
  let ?sa = "(newStatsEntry DefaultConfig)\<lparr>EWMALatencyMs := 100\<rparr>"
  let ?sb = "(newStatsEntry DefaultConfig)\<lparr>EWMALatencyMs := 200\<rparr>"
  let ?st = "[''a'' \<mapsto> DeploymentStats.truncate ?sa, ''b'' \<mapsto> DeploymentStats.truncate ?sb]"
  have c: "candidates_for memory_ops [] 50 (model_request ''gpt'') (two_with ?sa ?sb) =
      Inr (?st, [plain_dep ''a'', plain_dep ''b''])"
    by (rule two_with_candidates) simp_all
  have lat: "seen_latency False ?st (plain_dep ''a'') = 100" "seen_latency False ?st (plain_dep ''b'') = 200"
    by (simp_all add: seen_latency_def DeploymentStats.defs)
  have rate: "EWMASuccessRate (DeploymentStats.truncate ?sa) = 1"
    by (simp add: newStatsEntry_def DeploymentStats.defs statsEntry.defs)
  have weight: "dc_Weight zero_DeploymentConfig = 0" by (simp add: zero_DeploymentConfig_def)
  have buf: "LatencyBuffer DefaultConfig = 1 / 10" by (simp add: DefaultConfig_def)
  have draw: "randFloat64 no_draws = (0, no_draws)" by (simp add: randFloat64_def no_draws_def)
  have streaming: "rq_IsStreaming (model_request ''gpt'') = False" by (simp add: model_request_def)
  have "\<exists>d. fst (latency_PickWithContext memory_ops [] 50 (model_request ''gpt'') (two_with ?sa ?sb)) = Inr d"
    unfolding latency_pick_eq c
    by (simp add: latency_from_def two_with_shuffled streaming lat latency_select_def latency_weight_def rate
        buf draw weight Let_def)
  then show ?thesis
    using latency_within_buffer [OF c] by (simp only: streaming lat) (auto simp: lat buf)
qed

lemma shuffle_pick_fits:
  assumes "shuffle_PickWithContext ops ctx now q r = (Inr d, r')" and "0 < rq_EstimatedInputTokens q"
  shows "\<exists>model. \<exists>e\<in>set (br_deployments r model). d = ext_Deployment e \<and>
    (\<forall>st. seen_stats ops ctx r (ext_ID e) = Some st \<longrightarrow> 0 < dc_RPMLimit (ext_Config e) \<longrightarrow>
       CurrentMinuteRPM st + 1 \<le> dc_RPMLimit (ext_Config e))"
proof -
  obtain st fs where c: "candidates_for ops ctx now q r = Inr (st, fs)"
    using assms(1) by (auto simp: shuffle_pick_eq split: sum.splits)
  note cs = candidates_for_Inr [OF c]
  have "d \<in> ext_Deployment ` set fs"
    using assms(1) c cs selects_preferred [OF selects_shuffle, of fs r "br_config r"]
    by (auto simp: shuffle_pick_eq selects_def)
  then obtain e where e: "e \<in> set fs" "d = ext_Deployment e" by blast
  then have sn: "e \<in> set (snapshotDeployments (rq_Model q) r)" using cs by (auto simp: usable_def)
  then have "st (ext_ID e) = seen_stats ops ctx r (ext_ID e)" using cs by (auto simp: statsSnapshot_at)
  moreover have "e \<in> set (filterByTPMRPM ts st (rq_EstimatedInputTokens q))"
    if "within_limits q st ts = Inr fs" for ts
    using that e assms(2) by (auto simp: within_limits_def Let_def split: if_splits)
  then obtain ts where "e \<in> set (filterByTPMRPM ts st (rq_EstimatedInputTokens q))"
    using c by (auto simp: candidates_for_def split: sum.splits prod.splits)
  ultimately have "\<forall>s. seen_stats ops ctx r (ext_ID e) = Some s \<longrightarrow> 0 < dc_RPMLimit (ext_Config e) \<longrightarrow>
      CurrentMinuteRPM s + 1 \<le> dc_RPMLimit (ext_Config e)"
    by (auto simp: filterByTPMRPM_def)
  moreover obtain model where "e \<in> set (br_deployments r model)"
    using sn by (auto simp: snapshotDeployments_def Let_def split: if_splits)
  ultimately show ?thesis using e(2) by blast
qed

text \<open>
  A used-up request limit is never given back by time alone: with the default strategy, a
  deployment whose counter of the current minute has reached its limit is refused to every
  request with a token estimate, at any later time, whatever minute the counter belongs to.
\<close>

theorem stale_usage_starves:
  assumes "seen_stats ops ctx r i = Some st"
    and "\<forall>model. \<forall>e\<in>set (br_deployments r model). ext_ID e = i \<longrightarrow>
      0 < dc_RPMLimit (ext_Config e) \<and> dc_RPMLimit (ext_Config e) \<le> CurrentMinuteRPM st"
    and "\<forall>x\<in>set xs. 0 < rq_EstimatedInputTokens (snd x)"
    and "Inr d \<in> set (picks shuffle_PickWithContext ops ctx xs r)"
  shows "dep_ID d \<noteq> i"
  using assms
proof (induction xs arbitrary: r)
  case (Cons x xs)
  obtain res r' where p: "shuffle_PickWithContext ops ctx (fst x) (snd x) r = (res, r')" by fastforce
  obtain g where r': "r' = r\<lparr>br_rng := g\<rparr>" using shuffle_strat.pick_frame [OF p] by blast
  show ?case
  proof (cases "res = Inr d")
    case True
    then show ?thesis using shuffle_pick_fits [OF p [unfolded True]] Cons.prems(1-3) by fastforce
  next
    case False
    then show ?thesis using Cons.IH [of r'] Cons.prems p r' by auto
  qed
qed simp

definition used_up_c :: "MemoryStatsStore BaseRouter" where
  "used_up_c = (AddDeploymentWithConfig (dep_named ''c'') (zero_DeploymentConfig\<lparr>dc_RPMLimit := 2\<rparr>)
      (NewBaseRouter no_draws DefaultConfig))
     \<lparr>br_stats := [''c'' \<mapsto> (newStatsEntry DefaultConfig)\<lparr>CurrentMinuteRPM := 2\<rparr>]\<rparr>"

theorem stale_usage_starves_witness:
  "Inr (dep_named ''c'') \<notin> set (picks shuffle_PickWithContext memory_ops []
     [(0, (model_request ''gpt'')\<lparr>rq_EstimatedInputTokens := 1\<rparr>),
      (90 * minute, (model_request ''gpt'')\<lparr>rq_EstimatedInputTokens := 1\<rparr>)] used_up_c)"
proof
  assume h: "Inr (dep_named ''c'') \<in> set (picks shuffle_PickWithContext memory_ops []
     [(0, (model_request ''gpt'')\<lparr>rq_EstimatedInputTokens := 1\<rparr>),
      (90 * minute, (model_request ''gpt'')\<lparr>rq_EstimatedInputTokens := 1\<rparr>)] used_up_c)"
  have "dep_ID (dep_named ''c'') \<noteq> ''c''"
    by (rule stale_usage_starves [OF _ _ _ h, of "''c''" "DeploymentStats.truncate
        ((newStatsEntry DefaultConfig)\<lparr>CurrentMinuteRPM := 2\<rparr>)"])
       (auto simp: used_up_c_def seen_stats_def localStatsKey_def TenantScopeFromContext_def Let_def
         statsEntrySnapshot_def AddDeploymentWithConfig_def NewBaseRouter_def deployment_model_def dep_named_def
         DeploymentStats.defs)
  then show False by simp
qed

end
