(* ===== verification/Expiration_Heap.thy ===== *)
theory Expiration_Heap
  imports Go_Prelude
begin

text \<open>
  The expiration heap of \<open>caches/memory/memory.go\<close>: the five methods of \<open>expirationHeap\<close> and the
  functions of Go's \<open>container/heap\<close> the cache calls on it. A slice is a list; the entries carry
  their index as the code maintains it. The lemmas show that the loops end, that \<open>heap.Push\<close> and
  \<open>heap.Pop\<close> keep the heap order and the index fields, and that \<open>heap.Pop\<close> removes an entry with
  the earliest expiration.
\<close>

section \<open>The methods of the heap\<close>

record expirationEntry =
  ee_key :: string
  ee_expiration :: int
  ee_index :: int

type_synonym expirationHeap = "expirationEntry list"

definition heap_Len :: "expirationHeap \<Rightarrow> nat" where
  "heap_Len h = length h"

definition heap_Less :: "expirationHeap \<Rightarrow> nat \<Rightarrow> nat \<Rightarrow> bool" where
  "heap_Less h i j = (ee_expiration (h ! i) < ee_expiration (h ! j))"

definition heap_Swap :: "nat \<Rightarrow> nat \<Rightarrow> expirationHeap \<Rightarrow> expirationHeap" where
  "heap_Swap i j h =
     (let h1 = swap_at i j h;
          h2 = h1[i := (h1 ! i)\<lparr>ee_index := int i\<rparr>]
      in h2[j := (h2 ! j)\<lparr>ee_index := int j\<rparr>])"

definition heap_append :: "expirationEntry \<Rightarrow> expirationHeap \<Rightarrow> expirationHeap" where
  "heap_append entry h = h @ [entry\<lparr>ee_index := int (length h)\<rparr>]"

definition heap_remove_last :: "expirationHeap \<Rightarrow> expirationEntry \<times> expirationHeap" where
  "heap_remove_last h = ((last h)\<lparr>ee_index := - 1\<rparr>, butlast h)"

section \<open>Package container/heap\<close>

lemma length_heap_Swap [simp]: "length (heap_Swap i j h) = length h"
  by (simp add: heap_Swap_def Let_def)

function heap_up :: "nat \<Rightarrow> expirationHeap \<Rightarrow> expirationHeap" where
  "heap_up j h =
     (let i = (j - 1) div 2
      in if i = j \<or> \<not> heap_Less h j i then h else heap_up i (heap_Swap i j h))"
  by pat_completeness auto
termination by (relation "measure fst") auto

function heap_down :: "nat \<Rightarrow> nat \<Rightarrow> expirationHeap \<Rightarrow> expirationHeap" where
  "heap_down i n h =
     (let j1 = 2 * i + 1
      in if j1 \<ge> n then h
         else let j2 = j1 + 1;
                  j = (if j2 < n \<and> heap_Less h j2 j1 then j2 else j1)
              in if \<not> heap_Less h j i then h else heap_down j n (heap_Swap i j h))"
  by pat_completeness auto
termination by (relation "measure (\<lambda>(i, n, h). n - i)") (auto simp: Let_def split: if_splits)

declare heap_up.simps [simp del] heap_down.simps [simp del]

definition heap_Push :: "expirationEntry \<Rightarrow> expirationHeap \<Rightarrow> expirationHeap" where
  "heap_Push x h = (let h1 = heap_append x h in heap_up (heap_Len h1 - 1) h1)"

definition heap_Pop :: "expirationHeap \<Rightarrow> expirationEntry \<times> expirationHeap" where
  "heap_Pop h =
     (let n = heap_Len h - 1 in heap_remove_last (heap_down 0 n (heap_Swap 0 n h)))"

fun heap_init_from :: "nat \<Rightarrow> nat \<Rightarrow> expirationHeap \<Rightarrow> expirationHeap" where
  "heap_init_from n 0 h = h"
| "heap_init_from n (Suc i) h = heap_init_from n i (heap_down i n h)"

definition heap_Init :: "expirationHeap \<Rightarrow> expirationHeap" where
  "heap_Init h = heap_init_from (heap_Len h) (heap_Len h div 2) h"

section \<open>Contents and order\<close>

text \<open>
  What an entry says, without the index field; the parent of a position; the order of a heap.
\<close>

definition items :: "expirationHeap \<Rightarrow> (string \<times> int) list" where
  "items h = map (\<lambda>e. (ee_key e, ee_expiration e)) h"

definition prio :: "expirationHeap \<Rightarrow> nat \<Rightarrow> int" where
  "prio h i = ee_expiration (h ! i)"

abbreviation parent :: "nat \<Rightarrow> nat" where
  "parent j \<equiv> (j - 1) div 2"

definition heap_ordered :: "nat \<Rightarrow> expirationHeap \<Rightarrow> bool" where
  "heap_ordered n h \<longleftrightarrow> (\<forall>j<n. prio h (parent j) \<le> prio h j)"

definition indexed :: "expirationHeap \<Rightarrow> bool" where
  "indexed h \<longleftrightarrow> (\<forall>i<length h. ee_index (h ! i) = int i)"

lemma parent_le: "parent j \<le> j"
  by (rule order_trans [OF div_le_dividend]) simp

lemma length_items [simp]: "length (items h) = length h"
  by (simp add: items_def)

lemma items_nth: "i < length h \<Longrightarrow> items h ! i = (ee_key (h ! i), ee_expiration (h ! i))"
  by (simp add: items_def)

lemma prio_items: "i < length h \<Longrightarrow> prio h i = snd (items h ! i)"
  by (simp add: items_nth prio_def)

lemma items_Swap: "i < length h \<Longrightarrow> j < length h \<Longrightarrow> items (heap_Swap i j h) = swap_at i j (items h)"
  by (rule nth_equalityI)
     (auto simp: items_def heap_Swap_def swap_at_def Let_def nth_list_update)

lemma prio_Swap:
  "i < length h \<Longrightarrow> j < length h \<Longrightarrow> k < length h \<Longrightarrow>
   prio (heap_Swap i j h) k = (if k = i then prio h j else if k = j then prio h i else prio h k)"
  by (auto simp: prio_def heap_Swap_def swap_at_def Let_def nth_list_update)

lemma mset_items_Swap [simp]:
  "i < length h \<Longrightarrow> j < length h \<Longrightarrow> mset (items (heap_Swap i j h)) = mset (items h)"
  by (simp add: items_Swap mset_swap_at)

lemma indexed_Swap: "i < length h \<Longrightarrow> j < length h \<Longrightarrow> indexed h \<Longrightarrow> indexed (heap_Swap i j h)"
  by (auto simp: indexed_def heap_Swap_def swap_at_def Let_def nth_list_update)

section \<open>Moving up\<close>

lemma heap_up_frame:
  "j < length h \<Longrightarrow> length (heap_up j h) = length h \<and> mset (items (heap_up j h)) = mset (items h) \<and>
   (indexed h \<longrightarrow> indexed (heap_up j h))"
proof (induction j h rule: heap_up.induct)
  case (1 j h)
  show ?case
  proof (cases "parent j = j \<or> \<not> heap_Less h j (parent j)")
    case True
    then show ?thesis by (subst (1 2 3) heap_up.simps) (simp add: Let_def)
  next
    case False
    have p: "parent j < length h" using 1(2) by auto
    have "heap_up j h = heap_up (parent j) (heap_Swap (parent j) j h)"
      using False by (subst heap_up.simps) (simp add: Let_def)
    then show ?thesis using 1(1) [OF refl False] p 1(2) by (simp add: indexed_Swap)
  qed
qed

text \<open>The order may fail at one position only, and its children fit its parent.\<close>

definition up_ready :: "nat \<Rightarrow> expirationHeap \<Rightarrow> bool" where
  "up_ready j h \<longleftrightarrow>
     (\<forall>k<length h. k \<noteq> j \<longrightarrow> prio h (parent k) \<le> prio h k) \<and>
     (\<forall>k<length h. parent k = j \<longrightarrow> prio h (parent j) \<le> prio h k)"

lemma up_ready_step:
  assumes "j < length h" and "up_ready j h" and "parent j \<noteq> j" and less: "prio h j < prio h (parent j)"
  shows "up_ready (parent j) (heap_Swap (parent j) j h)"
proof -
  define i where "i = parent j"
  define h' where "h' = heap_Swap i j h"
  have ij: "i < j" "i < length h" "i = parent j" using assms(1,3) by (auto simp: i_def)
  have pr: "prio h' k = (if k = i then prio h j else if k = j then prio h i else prio h k)"
    if "k < length h" for k using that ij assms(1) by (simp add: h'_def prio_Swap)
  have up: "prio h (parent k) \<le> prio h k" if "k < length h" "k \<noteq> j" for k
    using assms(2) that by (simp add: up_ready_def)
  have kids: "prio h i \<le> prio h k" if "k < length h" "parent k = j" for k
    using assms(2) that by (simp add: up_ready_def i_def)
  have ji: "prio h j < prio h i" using less by (simp add: i_def)
  have "prio h' (parent k) \<le> prio h' k" if k: "k < length h" "k \<noteq> i" for k
  proof -
    have pk: "parent k < length h" using k by auto
    consider "k = j" | "k \<noteq> j" "parent k = i" | "k \<noteq> j" "parent k = j" | "k \<noteq> j" "parent k \<noteq> i" "parent k \<noteq> j"
      by blast
    then show ?thesis
    proof cases
      case 1
      then have "parent k = i" using ij by simp
      then show ?thesis using pr [OF pk] pr [OF k(1)] 1 ij ji by simp
    next
      case 2
      then have "prio h' (parent k) = prio h j" "prio h' k = prio h k" "prio h i \<le> prio h k"
        using pr [OF pk] pr [OF k(1)] up [OF k(1)] k by simp_all
      then show ?thesis using ji by linarith
    next
      case 3
      then have "prio h' (parent k) = prio h i" "prio h' k = prio h k" "prio h i \<le> prio h k"
        using pr [OF pk] pr [OF k(1)] kids [OF k(1)] k ij by simp_all
      then show ?thesis by linarith
    next
      case 4
      then have "prio h' (parent k) = prio h (parent k)" "prio h' k = prio h k"
        using pr [OF pk] pr [OF k(1)] k by simp_all
      then show ?thesis using up [OF k(1)] 4 by linarith
    qed
  qed
  moreover have "prio h' (parent i) \<le> prio h' k" if k: "k < length h" "parent k = i" for k
  proof -
    define p where "p = parent i"
    have "p < length h" "p \<noteq> j" using parent_le [of i] ij(1,2) by (simp_all add: p_def)
    moreover have "prio h p \<le> prio h i" using up [of i] ij by (simp add: p_def)
    moreover have "prio h i \<le> prio h k" if "k \<noteq> j" using up [OF k(1) that] k(2) by simp
    moreover have "p = i" if "k = i" using that k(2) by (simp add: p_def)
    ultimately have "prio h' p \<le> prio h' k"
      using pr [of p] pr [OF k(1)] ij(1) ji by (cases "k = i"; cases "k = j"; cases "p = i") simp_all
    then show ?thesis by (simp add: p_def)
  qed
  ultimately show ?thesis by (simp add: up_ready_def h'_def i_def)
qed

lemma heap_up_ordered: "j < length h \<Longrightarrow> up_ready j h \<Longrightarrow> heap_ordered (length h) (heap_up j h)"
proof (induction j h rule: heap_up.induct)
  case (1 j h)
  show ?case
  proof (cases "parent j = j \<or> \<not> heap_Less h j (parent j)")
    case True
    then have "prio h (parent j) \<le> prio h j"
      unfolding heap_Less_def prio_def not_less by (elim disjE) (simp_all only: order_refl)
    then have "heap_ordered (length h) h"
      using 1(3) unfolding heap_ordered_def up_ready_def by metis
    then show ?thesis using True by (subst heap_up.simps) (simp add: Let_def)
  next
    case False
    have p: "parent j < length h" "parent j \<noteq> j" using 1(2) False by auto
    have less: "prio h j < prio h (parent j)" using False by (simp add: heap_Less_def prio_def)
    have "up_ready (parent j) (heap_Swap (parent j) j h)"
      using 1(2,3) p(2) less by (rule up_ready_step)
    with 1(1) [OF refl False] p(1)
    have "heap_ordered (length h) (heap_up (parent j) (heap_Swap (parent j) j h))"
      by (simp only: length_heap_Swap)
    moreover have "heap_up j h = heap_up (parent j) (heap_Swap (parent j) j h)"
      using False by (subst heap_up.simps) (simp add: Let_def)
    ultimately show ?thesis by (simp only:)
  qed
qed

section \<open>Moving down\<close>

lemma heap_down_step:
  assumes "2 * i + 1 < n"
  obtains j where "j < n" "i < j" "parent j = i" "\<forall>k<n. 0 < k \<longrightarrow> parent k = i \<longrightarrow> prio h j \<le> prio h k"
    "\<not> heap_Less h j i \<Longrightarrow> heap_down i n h = h"
    "heap_Less h j i \<Longrightarrow> heap_down i n h = heap_down j n (heap_Swap i j h)"
proof
  define j where "j = (if 2 * i + 2 < n \<and> heap_Less h (2 * i + 2) (2 * i + 1) then 2 * i + 2 else 2 * i + 1)"
  show "j < n" "i < j" "parent j = i" using assms by (auto simp: j_def)
  have "k = 2 * i + 1 \<or> k = 2 * i + 2" if "0 < k" "parent k = i" for k using that by auto
  then show "\<forall>k<n. 0 < k \<longrightarrow> parent k = i \<longrightarrow> prio h j \<le> prio h k"
    by (fastforce simp: j_def heap_Less_def prio_def)
  have eq: "heap_down i n h = (if \<not> heap_Less h j i then h else heap_down j n (heap_Swap i j h))"
    using assms by (subst heap_down.simps) (simp add: Let_def j_def)
  show "\<not> heap_Less h j i \<Longrightarrow> heap_down i n h = h"
    "heap_Less h j i \<Longrightarrow> heap_down i n h = heap_down j n (heap_Swap i j h)"
    by (simp_all add: eq)
qed

lemma heap_down_leaf: "\<not> 2 * i + 1 < n \<Longrightarrow> heap_down i n h = h"
  by (subst heap_down.simps) (simp add: Let_def)

lemma heap_down_frame:
  "n \<le> length h \<Longrightarrow>
   length (heap_down i n h) = length h \<and> mset (items (heap_down i n h)) = mset (items h) \<and>
   (indexed h \<longrightarrow> indexed (heap_down i n h)) \<and> (\<forall>k\<ge>n. heap_down i n h ! k = h ! k)"
proof (induction "n - i" arbitrary: i h rule: less_induct)
  case less
  show ?case
  proof (cases "2 * i + 1 < n")
    case True
    then obtain j where j: "j < n" "i < j"
      "\<not> heap_Less h j i \<Longrightarrow> heap_down i n h = h"
      "heap_Less h j i \<Longrightarrow> heap_down i n h = heap_down j n (heap_Swap i j h)"
      by (rule heap_down_step [where h = h]) blast
    have "\<forall>k\<ge>n. heap_Swap i j h ! k = h ! k"
      using j(1,2) by (auto simp: heap_Swap_def swap_at_def Let_def nth_list_update)
    then show ?thesis
      using less(1) [of j "heap_Swap i j h"] less(2) j by (cases "heap_Less h j i") (simp_all add: indexed_Swap)
  qed (simp add: heap_down_leaf)
qed

text \<open>The order may fail below one position only, and its children fit its parent.\<close>

definition down_ready :: "nat \<Rightarrow> nat \<Rightarrow> expirationHeap \<Rightarrow> bool" where
  "down_ready i n h \<longleftrightarrow>
     (\<forall>k<n. 0 < k \<longrightarrow> parent k \<noteq> i \<longrightarrow> prio h (parent k) \<le> prio h k) \<and>
     (\<forall>k<n. 0 < k \<longrightarrow> parent k = i \<longrightarrow> 0 < i \<longrightarrow> prio h (parent i) \<le> prio h k)"

lemma parent_less: "0 < j \<Longrightarrow> parent j < j"
  by (rule order.strict_trans1 [OF div_le_dividend]) simp

lemma down_ready_step:
  assumes "down_ready i n h" and "n \<le> length h" and j: "j < n" "i < j" "parent j = i"
    and least: "\<forall>k<n. 0 < k \<longrightarrow> parent k = i \<longrightarrow> prio h j \<le> prio h k" and less: "prio h j < prio h i"
  shows "down_ready j n (heap_Swap i j h)"
proof -
  define h' where "h' = heap_Swap i j h"
  have pr: "prio h' k = (if k = i then prio h j else if k = j then prio h i else prio h k)"
    if "k < n" for k using that assms(2) j by (simp add: h'_def prio_Swap)
  have up: "prio h (parent k) \<le> prio h k" if "k < n" "0 < k" "parent k \<noteq> i" for k
    using assms(1) that by (simp add: down_ready_def)
  have top: "prio h (parent i) \<le> prio h j" if "0 < i"
    using assms(1) that j by (simp add: down_ready_def)
  have "prio h' (parent k) \<le> prio h' k" if k: "k < n" "0 < k" "parent k \<noteq> j" for k
  proof -
    define p where "p = parent k"
    have p: "p < k" "p < n" "p \<noteq> j" using parent_less [OF k(2)] k by (simp_all add: p_def)
    have "prio h p \<le> prio h k" if "p \<noteq> i" using up k that by (simp add: p_def)
    moreover have "prio h j \<le> prio h k" if "p = i" using least k that by (simp add: p_def)
    moreover have "prio h p \<le> prio h j" if "k = i" using top k that by (simp add: p_def)
    moreover have "p = i" if "k = j" using that j(3) by (simp add: p_def)
    ultimately have "prio h' p \<le> prio h' k"
      using pr [OF p(2)] pr [OF k(1)] p j(2) less by (cases "k = i"; cases "k = j"; cases "p = i") simp_all
    then show ?thesis by (simp add: p_def)
  qed
  moreover have "prio h' (parent j) \<le> prio h' k" if k: "k < n" "0 < k" "parent k = j" for k
  proof -
    have "prio h j \<le> prio h k" using up [OF k(1,2)] k(3) j(2) by simp
    moreover have "j < k" using parent_less [OF k(2)] k(3) by simp
    ultimately show ?thesis using pr [OF k(1)] pr [of i] j by simp
  qed
  ultimately show ?thesis by (simp add: down_ready_def h'_def)
qed

lemma heap_down_ordered:
  "n \<le> length h \<Longrightarrow> down_ready i n h \<Longrightarrow> heap_ordered n (heap_down i n h)"
proof (induction "n - i" arbitrary: i h rule: less_induct)
  case less
  have stop: "heap_ordered n h" if "\<forall>k<n. 0 < k \<longrightarrow> parent k = i \<longrightarrow> prio h i \<le> prio h k"
    unfolding heap_ordered_def
  proof (intro allI impI)
    fix k assume "k < n"
    then show "prio h (parent k) \<le> prio h k"
      using less(3) that by (cases "k = 0"; cases "parent k = i") (simp_all add: down_ready_def)
  qed
  show ?case
  proof (cases "2 * i + 1 < n")
    case True
    then obtain j where j: "j < n" "i < j" "parent j = i"
      and least: "\<forall>k<n. 0 < k \<longrightarrow> parent k = i \<longrightarrow> prio h j \<le> prio h k"
      and eq: "\<not> heap_Less h j i \<Longrightarrow> heap_down i n h = h"
        "heap_Less h j i \<Longrightarrow> heap_down i n h = heap_down j n (heap_Swap i j h)"
      by (rule heap_down_step [where h = h]) blast
    show ?thesis
    proof (cases "heap_Less h j i")
      case True
      then have "down_ready j n (heap_Swap i j h)"
        using down_ready_step [OF less(3,2) j least] by (simp add: heap_Less_def prio_def)
      then show ?thesis using less(1) [of j "heap_Swap i j h"] less(2) j eq(2) True by simp
    next
      case False
      then have "prio h i \<le> prio h j" by (simp add: heap_Less_def prio_def)
      then have "\<forall>k<n. 0 < k \<longrightarrow> parent k = i \<longrightarrow> prio h i \<le> prio h k" using least by (metis order_trans)
      then have "heap_ordered n h" by (rule stop)
      then show ?thesis using eq(1) False by simp
    qed
  next
    case False
    then have "heap_ordered n h" by (intro stop) auto
    then show ?thesis using heap_down_leaf [OF False] by simp
  qed
qed

section \<open>Push and Pop\<close>

definition heap_inv :: "expirationHeap \<Rightarrow> bool" where
  "heap_inv h \<longleftrightarrow> heap_ordered (length h) h \<and> indexed h"

lemma heap_root_least: "heap_ordered n h \<Longrightarrow> j < n \<Longrightarrow> prio h 0 \<le> prio h j"
proof (induction j rule: less_induct)
  case (less j)
  show ?case
  proof (cases "j = 0")
    case False
    then have "prio h 0 \<le> prio h (parent j)" using less parent_less [of j] by simp
    also have "\<dots> \<le> prio h j" using less(2,3) by (simp add: heap_ordered_def)
    finally show ?thesis .
  qed simp
qed

lemma heap_Push_props:
  assumes "heap_inv h"
  shows "heap_inv (heap_Push x h)" and "length (heap_Push x h) = Suc (length h)"
    and "mset (items (heap_Push x h)) = add_mset (ee_key x, ee_expiration x) (mset (items h))"
proof -
  let ?h = "heap_append x h"
  have len: "length ?h = Suc (length h)" by (simp add: heap_append_def)
  have pr: "prio ?h k = prio h k" if "k < length h" for k
    using that by (simp add: prio_def heap_append_def nth_append)
  have "up_ready (length h) ?h"
    unfolding up_ready_def
  proof (intro conjI allI impI)
    fix k assume k: "k < length ?h" "k \<noteq> length h"
    then have "k < length h" using len by simp
    then show "prio ?h (parent k) \<le> prio ?h k"
      using pr [of k] pr [of "parent k"] parent_le [of k] assms by (simp add: heap_inv_def heap_ordered_def)
  next
    fix k assume "k < length ?h" "parent k = length h"
    then have "k \<le> length h" "length h \<le> k" using len parent_le [of k] by simp_all
    then have "k = parent k" using \<open>parent k = length h\<close> by (metis order_antisym)
    then have "k = 0" using parent_less [of k] by (metis less_irrefl neq0_conv)
    then show "prio ?h (parent (length h)) \<le> prio ?h k" using \<open>parent k = length h\<close> by simp
  qed
  then have "heap_ordered (Suc (length h)) (heap_up (length h) ?h)"
    using heap_up_ordered [of "length h" ?h] len by simp
  moreover have "indexed ?h"
    using assms by (auto simp: heap_inv_def indexed_def heap_append_def nth_append less_Suc_eq)
  moreover have "heap_Push x h = heap_up (length h) ?h"
    by (simp add: heap_Push_def heap_Len_def len)
  ultimately show "heap_inv (heap_Push x h)" "length (heap_Push x h) = Suc (length h)"
    "mset (items (heap_Push x h)) = add_mset (ee_key x, ee_expiration x) (mset (items h))"
    using heap_up_frame [of "length h" ?h] len
    by (simp_all add: heap_inv_def) (simp add: heap_append_def items_def)
qed

lemma heap_Pop_props:
  assumes "heap_inv h" and "h \<noteq> []"
  shows "heap_inv (snd (heap_Pop h))" and "length (snd (heap_Pop h)) = length h - 1"
    and "mset (items h) = add_mset (ee_key (hd h), ee_expiration (hd h)) (mset (items (snd (heap_Pop h))))"
    and "fst (heap_Pop h) = (hd h)\<lparr>ee_index := - 1\<rparr>"
proof -
  define n where "n = length h - 1"
  define h1 where "h1 = heap_Swap 0 n h"
  define h2 where "h2 = heap_down 0 n h1"
  have n: "length h = Suc n" "n < length h" using assms(2) by (simp_all add: n_def)
  have h1: "length h1 = Suc n" "indexed h1" "mset (items h1) = mset (items h)"
    using n assms by (simp_all add: h1_def indexed_Swap heap_inv_def)
  have last1: "h1 ! n = (h ! 0)\<lparr>ee_index := int n\<rparr>"
    using n by (auto simp: h1_def heap_Swap_def swap_at_def Let_def nth_list_update)
  have "prio h1 (parent k) \<le> prio h1 k" if k: "k < n" "0 < k" "parent k \<noteq> 0" for k
  proof -
    have "parent k < n" using parent_less [OF k(2)] k(1) by simp
    then show ?thesis using assms n k by (simp add: h1_def prio_Swap heap_inv_def heap_ordered_def)
  qed
  then have "down_ready 0 n h1" by (simp add: down_ready_def)
  then have o2: "heap_ordered n h2" using heap_down_ordered [of n h1 0] h1 by (simp add: h2_def)
  have h2: "length h2 = Suc n" "indexed h2" "mset (items h2) = mset (items h)" "h2 ! n = h1 ! n"
    using heap_down_frame [of n h1 0] h1 by (simp_all add: h2_def)
  have ne: "h2 \<noteq> []" using h2(1) by auto
  have last2: "last h2 = h2 ! n" using last_conv_nth [OF ne] h2(1) by simp
  have pop: "heap_Pop h = ((h2 ! n)\<lparr>ee_index := - 1\<rparr>, butlast h2)"
    unfolding heap_Pop_def heap_Len_def Let_def n_def [symmetric] h1_def [symmetric] h2_def [symmetric]
      heap_remove_last_def last2 ..
  have hd: "hd h = h ! 0" using assms(2) by (rule hd_conv_nth)
  show "fst (heap_Pop h) = (hd h)\<lparr>ee_index := - 1\<rparr>" by (simp add: pop h2(4) last1 hd)
  show "length (snd (heap_Pop h)) = length h - 1" by (simp add: pop h2(1) n)
  have nth: "butlast h2 ! k = h2 ! k" if "k < n" for k using that h2(1) by (simp add: nth_butlast)
  have "heap_ordered n (butlast h2)"
    unfolding heap_ordered_def
  proof (intro allI impI)
    fix k assume k: "k < n"
    then have "parent k < n" using parent_le [of k] by simp
    with k o2 show "prio (butlast h2) (parent k) \<le> prio (butlast h2) k"
      by (simp add: heap_ordered_def prio_def nth)
  qed
  moreover have "indexed (butlast h2)" using h2(1,2) nth by (simp add: indexed_def)
  ultimately show "heap_inv (snd (heap_Pop h))" using h2(1) by (simp add: pop heap_inv_def)
  have "items h2 = items (butlast h2 @ [h2 ! n])" using ne by (simp add: last2 [symmetric])
  then have "items h2 = items (butlast h2) @ [(ee_key (h ! 0), ee_expiration (h ! 0))]"
    by (simp add: items_def h2(4) last1)
  then have "mset (items h2) = add_mset (ee_key (hd h), ee_expiration (hd h)) (mset (items (butlast h2)))"
    by (simp add: hd)
  then show "mset (items h) = add_mset (ee_key (hd h), ee_expiration (hd h)) (mset (items (snd (heap_Pop h))))"
    by (simp add: pop h2(3))
qed

lemma heap_hd_least:
  assumes "heap_inv h" and "x \<in> set (items h)"
  shows "ee_expiration (hd h) \<le> snd x"
proof -
  obtain j where "j < length h" "x = items h ! j" using assms(2) by (auto simp: in_set_conv_nth)
  moreover from this have "hd h = h ! 0" by (intro hd_conv_nth) auto
  ultimately show ?thesis
    using heap_root_least [of "length h" h j] assms(1) by (simp add: heap_inv_def prio_items prio_def items_nth)
qed

text \<open>The length falls by one whatever the order of the slice is; the loops over the heap end.\<close>

lemma length_heap_Pop: "h \<noteq> [] \<Longrightarrow> length (snd (heap_Pop h)) < length h"
  using heap_down_frame [of "length h - 1" "heap_Swap 0 (length h - 1) h" 0]
  by (simp add: heap_Pop_def heap_remove_last_def heap_Len_def Let_def)

lemma heap_inv_Nil [simp]: "heap_inv []"
  by (simp add: heap_inv_def heap_ordered_def indexed_def)

lemma heap_Init_Nil [simp]: "heap_Init [] = []"
  by (simp add: heap_Init_def heap_Len_def)

section \<open>The heap as a priority queue\<close>

text \<open>
  The contract between the cache and its heap: a queue stands for a multiset of keys with
  priorities; adding adds one, and removing takes out one with the least priority.
\<close>

locale priority_queue =
  fixes good :: "'q \<Rightarrow> bool" and contents :: "'q \<Rightarrow> ('k \<times> int) multiset" and none :: 'q
    and insert :: "'k \<times> int \<Rightarrow> 'q \<Rightarrow> 'q" and remove :: "'q \<Rightarrow> ('k \<times> int) \<times> 'q"
  assumes good_none: "good none" and contents_none: "contents none = {#}"
    and good_insert: "good q \<Longrightarrow> good (insert x q)"
    and contents_insert: "good q \<Longrightarrow> contents (insert x q) = add_mset x (contents q)"
    and good_remove: "good q \<Longrightarrow> contents q \<noteq> {#} \<Longrightarrow> good (snd (remove q))"
    and contents_remove: "good q \<Longrightarrow> contents q \<noteq> {#} \<Longrightarrow>
      contents q = add_mset (fst (remove q)) (contents (snd (remove q)))"
    and remove_least: "good q \<Longrightarrow> y \<in># contents q \<Longrightarrow> snd (fst (remove q)) \<le> snd y"
begin

lemma good_foldr: "good (foldr insert xs none)"
  by (induction xs) (simp_all add: good_none good_insert)

lemma contents_foldr: "contents (foldr insert xs none) = mset xs"
  by (induction xs) (simp_all add: contents_none contents_insert good_foldr)

end

fun drain :: "('q \<Rightarrow> 'a \<times> 'q) \<Rightarrow> nat \<Rightarrow> 'q \<Rightarrow> 'a list" where
  "drain remove 0 q = []"
| "drain remove (Suc n) q = (let (x, q') = remove q in x # drain remove n q')"

context priority_queue
begin

lemma drain_contents:
  "good q \<Longrightarrow> size (contents q) = n \<Longrightarrow>
   mset (drain remove n q) = contents q \<and> sorted (map snd (drain remove n q))"
proof (induction n arbitrary: q)
  case (Suc n)
  obtain x q' where r: "remove q = (x, q')" by fastforce
  have ne: "contents q \<noteq> {#}" using Suc.prems by auto
  have q': "good q'" "contents q = add_mset x (contents q')"
    using good_remove [OF Suc.prems(1) ne] contents_remove [OF Suc.prems(1) ne] r by simp_all
  then have IH: "mset (drain remove n q') = contents q'" "sorted (map snd (drain remove n q'))"
    using Suc.IH [of q'] Suc.prems(2) by simp_all
  have "\<forall>y\<in>set (drain remove n q'). snd x \<le> snd y"
    using remove_least [OF Suc.prems(1)] r q'(2) IH(1) by (simp flip: set_mset_mset)
  then show ?case using r q' IH by (simp add: ball_Un)
qed simp

end

definition heap_entry :: "string \<times> int \<Rightarrow> expirationEntry" where
  "heap_entry x = \<lparr>ee_key = fst x, ee_expiration = snd x, ee_index = 0\<rparr>"

definition heap_item :: "expirationEntry \<Rightarrow> string \<times> int" where
  "heap_item e = (ee_key e, ee_expiration e)"

interpretation exp_heap: priority_queue heap_inv "\<lambda>h. mset (items h)" "heap_Init []"
  "\<lambda>x. heap_Push (heap_entry x)" "\<lambda>h. map_prod heap_item id (heap_Pop h)"
proof (unfold_locales, goal_cases)
  case 2
  then show ?case by (simp add: items_def)
next
  case (4 q x)
  then show ?case by (simp add: heap_Push_props heap_entry_def)
next
  case (6 q)
  then have "q \<noteq> []" by (auto simp: items_def)
  then show ?case using heap_Pop_props [OF 6(1)] by (simp add: heap_item_def)
next
  case (7 q y)
  then have "q \<noteq> []" by (auto simp: items_def)
  then show ?case
    using heap_Pop_props(4) [OF 7(1)] heap_hd_least [OF 7(1), of y] 7(2) by (simp add: heap_item_def)
qed (auto simp: heap_Push_props heap_Pop_props heap_entry_def items_def)

text \<open>
  The heap operations sort: pushing any entries into an empty heap and popping them all
  returns exactly these entries, in the order of their expiration.
\<close>

theorem expiration_heap_sorts:
  "mset (drain (\<lambda>h. map_prod heap_item id (heap_Pop h)) (length xs)
      (foldr (\<lambda>x. heap_Push (heap_entry x)) xs (heap_Init []))) = mset xs \<and>
   sorted (map snd (drain (\<lambda>h. map_prod heap_item id (heap_Pop h)) (length xs)
      (foldr (\<lambda>x. heap_Push (heap_entry x)) xs (heap_Init []))))"
  using exp_heap.drain_contents [OF exp_heap.good_foldr, of xs "length xs"]
  unfolding exp_heap.contents_foldr by simp

end
