(* ===== verification/Memory_Cache.thy ===== *)
theory Memory_Cache
  imports Expiration_Heap "HOL-Library.Finite_Map"
begin

text \<open>
  The in-memory cache of \<open>caches/memory/memory.go\<close>. The Go maps are finite maps, as the code
  asks for their length. \<open>Get\<close> reads under one lock and deletes an expired entry under another;
  both critical sections are definitions of their own. The background goroutine is the
  operation \<open>evictExpired\<close> at the times of its ticker. An instant in nanoseconds since 1970 is an
  integer; the 64-bit range of the code ends in the year 2262.

  The lemmas show the capacity bound, that the cache never returns a value other than the last
  one written, that it is exactly a map with expiry while the capacity is not reached, which
  entry is given up at capacity, and what a write between the two halves of \<open>Get\<close> suffers.
\<close>

section \<open>Maps with a length\<close>

definition fmlen :: "('k, 'v) fmap \<Rightarrow> int" where
  "fmlen m = int (fcard (fmdom m))"

lemma fmlen_upd: "fmlen (fmupd k v m) = (if fmlookup m k = None then fmlen m + 1 else fmlen m)"
  by (auto simp: fmlen_def fcard_finsert_disjoint finsert_absorb fmdom_notI fmdomI simp flip: fmlookup_dom_iff)

lemma fmlen_drop: "fmlen (fmdrop k m) = (if fmlookup m k = None then fmlen m else fmlen m - 1)"
proof (cases "fmlookup m k")
  case None
  then have "fmdrop k m = m" by (intro fmap_ext) auto
  then show ?thesis using None by simp
next
  case (Some v)
  then have k: "k |\<in>| fmdom m" by (rule fmdomI)
  then have "0 < fcard (fmdom m)" by (metis fcard_0_eq fempty_iff neq0_conv)
  then show ?thesis using Some k by (auto simp: fmlen_def fcard_fminus_fsingleton int_ops(6))
qed

lemma fmlen_nonneg [simp]: "0 \<le> fmlen m"
  by (simp add: fmlen_def)

lemma fmlen_empty [simp]: "fmlen fmempty = 0"
  by (simp add: fmlen_def)

lemma fmlen_zero: "(\<And>k. fmlookup m k = None) \<Longrightarrow> fmlen m = 0"
  by (simp add: fmlen_def) (metis fmdom_empty fmempty_lookup fmap_ext fcard_fempty)

section \<open>State and operations\<close>

definition UnixNano :: "go_time \<Rightarrow> int" where
  "UnixNano t = t - 62135596800 * second"

record cacheEntry =
  ce_value :: string
  ce_expiration :: int

record MemConfig =
  mcf_MaxSize :: int
  mcf_DefaultTTL :: go_duration
  mcf_MaxItemSize :: int
  mcf_CleanupInterval :: go_duration

definition mc_DefaultConfig :: MemConfig where
  "mc_DefaultConfig =
     \<lparr>mcf_MaxSize = 1000, mcf_DefaultTTL = 10 * minute, mcf_MaxItemSize = 1024 * 1024,
      mcf_CleanupInterval = minute\<rparr>"

text \<open>
  The ticker is represented by its period, the channel \<open>stopCleanup\<close> by whether it is closed.
\<close>

record MemCache =
  mc_data :: "(string, cacheEntry) fmap"
  mc_ttls :: "(string, int) fmap"
  mc_heap :: expirationHeap
  mc_maxSize :: int
  mc_defaultTTL :: go_duration
  mc_maxItemSize :: int
  mc_tickerPeriod :: go_duration
  mc_stopped :: bool
  mc_hits :: int
  mc_misses :: int
  mc_sets :: int

definition mc_New :: "MemConfig \<Rightarrow> MemCache" where
  "mc_New cfg =
     (let maxSize = (if mcf_MaxSize cfg \<le> 0 then 1000 else mcf_MaxSize cfg);
          defaultTTL = (if mcf_DefaultTTL cfg \<le> 0 then 10 * minute else mcf_DefaultTTL cfg);
          maxItemSize = (if mcf_MaxItemSize cfg \<le> 0 then 1024 * 1024 else mcf_MaxItemSize cfg);
          cleanupInterval = (if mcf_CleanupInterval cfg \<le> 0 then minute else mcf_CleanupInterval cfg)
      in \<lparr>mc_data = fmempty, mc_ttls = fmempty, mc_heap = heap_Init [], mc_maxSize = maxSize,
          mc_defaultTTL = defaultTTL, mc_maxItemSize = maxItemSize, mc_tickerPeriod = cleanupInterval,
          mc_stopped = False, mc_hits = 0, mc_misses = 0, mc_sets = 0\<rparr>)"

definition mc_popHeap :: "MemCache \<Rightarrow> MemCache" where
  "mc_popHeap c = c\<lparr>mc_heap := snd (heap_Pop (mc_heap c))\<rparr>"

definition mc_remove :: "string \<Rightarrow> MemCache \<Rightarrow> MemCache" where
  "mc_remove key c = c\<lparr>mc_data := fmdrop key (mc_data c), mc_ttls := fmdrop key (mc_ttls c)\<rparr>"

text \<open>An entry of the heap is outdated when its key has another expiration or none by now.\<close>

definition mc_outdated :: "expirationEntry \<Rightarrow> MemCache \<Rightarrow> bool" where
  "mc_outdated entry c =
     (case fmlookup (mc_ttls c) (ee_key entry) of
        None \<Rightarrow> True | Some storedExp \<Rightarrow> storedExp \<noteq> ee_expiration entry)"

function mc_expire_loop :: "int \<Rightarrow> MemCache \<Rightarrow> MemCache" where
  "mc_expire_loop now c =
     (if mc_heap c = [] then c
      else let entry = hd (mc_heap c)
           in if mc_outdated entry c then mc_expire_loop now (mc_popHeap c)
              else if ee_expiration entry \<le> now
              then mc_expire_loop now (mc_remove (ee_key entry) (mc_popHeap c))
              else c)"
  by pat_completeness auto
termination
  by (relation "measure (\<lambda>(now, c). length (mc_heap c))")
     (auto simp: mc_popHeap_def mc_remove_def length_heap_Pop)

definition mc_evictExpired :: "go_time \<Rightarrow> MemCache \<Rightarrow> MemCache" where
  "mc_evictExpired now c = mc_expire_loop (UnixNano now) c"

function mc_evict_loop :: "int \<Rightarrow> MemCache \<Rightarrow> MemCache" where
  "mc_evict_loop now c =
     (if mc_heap c \<noteq> [] \<and> fmlen (mc_data c) \<ge> mc_maxSize c
      then let entry = hd (mc_heap c)
           in if mc_outdated entry c then mc_evict_loop now (mc_popHeap c)
              else if ee_expiration entry \<le> now \<or> fmlen (mc_data c) \<ge> mc_maxSize c
              then mc_evict_loop now (mc_remove (ee_key entry) (mc_popHeap c))
              else c
      else c)"
  by pat_completeness auto
termination
  by (relation "measure (\<lambda>(now, c). length (mc_heap c))")
     (auto simp: mc_popHeap_def mc_remove_def length_heap_Pop)

declare mc_expire_loop.simps [simp del] mc_evict_loop.simps [simp del]

definition mc_evictIfNeeded :: "go_time \<Rightarrow> MemCache \<Rightarrow> MemCache" where
  "mc_evictIfNeeded now c = mc_evict_loop (UnixNano now) c"

definition mc_expired :: "cacheEntry \<Rightarrow> go_time \<Rightarrow> bool" where
  "mc_expired entry now \<longleftrightarrow> ce_expiration entry > 0 \<and> ce_expiration entry \<le> UnixNano now"

text \<open>
  The part of \<open>Get\<close> before the lazy deletion: either it answers, or the entry has expired and the
  deletion follows in a critical section of its own.
\<close>

definition mc_Get_read :: "go_time \<Rightarrow> string \<Rightarrow> MemCache \<Rightarrow> string option option \<times> MemCache" where
  "mc_Get_read now key c =
     (case fmlookup (mc_data c) key of
        None \<Rightarrow> (Some None, c\<lparr>mc_misses := mc_misses c + 1\<rparr>)
      | Some entry \<Rightarrow>
          if mc_expired entry now then (None, c\<lparr>mc_misses := mc_misses c + 1\<rparr>)
          else (Some (Some (ce_value entry)), c\<lparr>mc_hits := mc_hits c + 1\<rparr>))"

definition mc_Get :: "go_time \<Rightarrow> string \<Rightarrow> MemCache \<Rightarrow> string option \<times> MemCache" where
  "mc_Get now key c =
     (case mc_Get_read now key c of
        (Some answer, c1) \<Rightarrow> (answer, c1)
      | (None, c1) \<Rightarrow> (None, mc_remove key c1))"

definition mc_Set :: "go_time \<Rightarrow> go_time \<Rightarrow> string \<Rightarrow> string \<Rightarrow> go_duration \<Rightarrow> MemCache \<Rightarrow> MemCache" where
  "mc_Set now now2 key val ttl0 c =
     (if int (length val) > mc_maxItemSize c then c
      else let ttl = (if ttl0 \<le> 0 then mc_defaultTTL c else ttl0);
               expiration = UnixNano (now + ttl);
               c1 = (if fmlen (mc_data c) \<ge> mc_maxSize c then mc_evictIfNeeded now2 c else c)
           in c1\<lparr>mc_data := fmupd key \<lparr>ce_value = val, ce_expiration = expiration\<rparr> (mc_data c1),
                 mc_ttls := fmupd key expiration (mc_ttls c1),
                 mc_heap := heap_Push \<lparr>ee_key = key, ee_expiration = expiration, ee_index = 0\<rparr> (mc_heap c1),
                 mc_sets := mc_sets c1 + 1\<rparr>)"

definition mc_Delete :: "string \<Rightarrow> MemCache \<Rightarrow> MemCache" where
  "mc_Delete key c = mc_remove key c"

record cache_Entry =
  en_Key :: string
  en_Value :: string
  en_TTL :: go_duration

text \<open>The times of the calls of a batch are given one by one.\<close>

fun mc_SetPipeline :: "(go_time \<times> go_time) list \<Rightarrow> cache_Entry list \<Rightarrow> MemCache \<Rightarrow> MemCache" where
  "mc_SetPipeline (t # ts) (e # es) c =
     mc_SetPipeline ts es (mc_Set (fst t) (snd t) (en_Key e) (en_Value e) (en_TTL e) c)"
| "mc_SetPipeline _ _ c = c"

definition mc_GetMulti_one ::
  "go_time \<Rightarrow> string \<Rightarrow> (string \<rightharpoonup> string) \<times> MemCache \<Rightarrow> (string \<rightharpoonup> string) \<times> MemCache" where
  "mc_GetMulti_one now key = (\<lambda>(result, c).
     case fmlookup (mc_data c) key of
       Some entry \<Rightarrow>
         if ce_expiration entry = 0 \<or> ce_expiration entry > UnixNano now
         then (result(key \<mapsto> ce_value entry), c\<lparr>mc_hits := mc_hits c + 1\<rparr>)
         else (result, c\<lparr>mc_misses := mc_misses c + 1\<rparr>)
     | None \<Rightarrow> (result, c\<lparr>mc_misses := mc_misses c + 1\<rparr>))"

definition mc_GetMulti :: "go_time \<Rightarrow> string list \<Rightarrow> MemCache \<Rightarrow> (string \<rightharpoonup> string) \<times> MemCache" where
  "mc_GetMulti now keys c = fold (mc_GetMulti_one now) keys (Map.empty, c)"

definition mc_Len :: "MemCache \<Rightarrow> int" where
  "mc_Len c = fmlen (mc_data c)"

definition mc_Flush :: "MemCache \<Rightarrow> MemCache" where
  "mc_Flush c = c\<lparr>mc_data := fmempty, mc_ttls := fmempty, mc_heap := heap_Init []\<rparr>"

text \<open>Closing a closed channel panics.\<close>

definition mc_Close :: "MemCache \<Rightarrow> MemCache option" where
  "mc_Close c = (if mc_stopped c then None else Some (c\<lparr>mc_stopped := True\<rparr>))"

record cache_Stats =
  st_Hits :: int
  st_Misses :: int
  st_Sets :: int
  st_Deletes :: int
  st_Errors :: int
  st_HitRate :: float64
  st_AvgLatency :: go_duration

definition mc_Stats :: "MemCache \<Rightarrow> cache_Stats" where
  "mc_Stats c =
     (let total = mc_hits c + mc_misses c
      in \<lparr>st_Hits = mc_hits c, st_Misses = mc_misses c, st_Sets = mc_sets c, st_Deletes = 0, st_Errors = 0,
          st_HitRate = (if total > 0 then of_int (mc_hits c) / of_int total else 0), st_AvgLatency = 0\<rparr>)"

section \<open>Invariant\<close>

text \<open>
  The two maps agree, every stored expiration has its entry in the heap, the heap is one, and
  the capacity is respected.
\<close>

definition mc_linked :: "MemCache \<Rightarrow> bool" where
  "mc_linked c \<longleftrightarrow>
     heap_inv (mc_heap c) \<and>
     (\<forall>k. fmlookup (mc_ttls c) k = map_option ce_expiration (fmlookup (mc_data c) k)) \<and>
     (\<forall>k x. fmlookup (mc_ttls c) k = Some x \<longrightarrow> (k, x) \<in> set (items (mc_heap c)))"

definition mc_inv :: "MemCache \<Rightarrow> bool" where
  "mc_inv c \<longleftrightarrow> mc_linked c \<and> 0 < mc_maxSize c \<and> 0 < mc_defaultTTL c \<and> fmlen (mc_data c) \<le> mc_maxSize c"

lemma mc_New_inv [inv_intros]: "mc_inv (mc_New cfg)"
  by (simp add: mc_inv_def mc_linked_def mc_New_def Let_def)

lemma mc_linked_cong:
  "mc_data c' = mc_data c \<Longrightarrow> mc_ttls c' = mc_ttls c \<Longrightarrow> mc_heap c' = mc_heap c \<Longrightarrow> mc_linked c' = mc_linked c"
  by (simp add: mc_linked_def)

lemma mc_remove_linked: "mc_linked c \<Longrightarrow> mc_linked (mc_remove k c)"
  by (auto simp: mc_linked_def mc_remove_def)

text \<open>Popping an outdated entry, or the entry of a key that is removed, keeps the link.\<close>

lemma mc_pop_items:
  assumes "mc_linked c" and "mc_heap c \<noteq> []"
  shows "set (items (mc_heap c)) =
      insert (ee_key (hd (mc_heap c)), ee_expiration (hd (mc_heap c))) (set (items (mc_heap (mc_popHeap c))))"
    and "heap_inv (mc_heap (mc_popHeap c))"
  using assms heap_Pop_props(1,3) [of "mc_heap c"]
  by (simp_all add: mc_linked_def mc_popHeap_def) (metis set_mset_add_mset_insert set_mset_mset)

lemma mc_popHeap_frame [simp]:
  "mc_data (mc_popHeap c) = mc_data c" "mc_ttls (mc_popHeap c) = mc_ttls c"
  "mc_maxSize (mc_popHeap c) = mc_maxSize c" "mc_defaultTTL (mc_popHeap c) = mc_defaultTTL c"
  "mc_maxItemSize (mc_popHeap c) = mc_maxItemSize c"
  by (simp_all add: mc_popHeap_def)

lemma mc_remove_frame [simp]:
  "mc_data (mc_remove k c) = fmdrop k (mc_data c)" "mc_ttls (mc_remove k c) = fmdrop k (mc_ttls c)"
  "mc_heap (mc_remove k c) = mc_heap c" "mc_maxSize (mc_remove k c) = mc_maxSize c"
  "mc_defaultTTL (mc_remove k c) = mc_defaultTTL c" "mc_maxItemSize (mc_remove k c) = mc_maxItemSize c"
  by (simp_all add: mc_remove_def)

lemma mc_pop_outdated:
  assumes "mc_linked c" and "mc_heap c \<noteq> []" and out: "mc_outdated (hd (mc_heap c)) c"
  shows "mc_linked (mc_popHeap c)"
proof -
  have "(k, x) \<in> set (items (mc_heap (mc_popHeap c)))" if kx: "fmlookup (mc_ttls c) k = Some x" for k x
  proof -
    have "(k, x) \<in> set (items (mc_heap c))" using assms(1) kx by (simp add: mc_linked_def)
    moreover have "(k, x) \<noteq> (ee_key (hd (mc_heap c)), ee_expiration (hd (mc_heap c)))"
      using out kx by (auto simp: mc_outdated_def)
    ultimately show ?thesis unfolding mc_pop_items(1) [OF assms(1,2)] by blast
  qed
  then show ?thesis
    using assms(1) mc_pop_items(2) [OF assms(1,2)] unfolding mc_linked_def mc_popHeap_frame by blast
qed

lemma mc_pop_remove:
  assumes "mc_linked c" and "mc_heap c \<noteq> []"
  shows "mc_linked (mc_remove (ee_key (hd (mc_heap c))) (mc_popHeap c))"
proof -
  have "(k, x) \<in> set (items (mc_heap (mc_popHeap c)))"
    if kx: "fmlookup (mc_ttls c) k = Some x" "k \<noteq> ee_key (hd (mc_heap c))" for k x
  proof -
    have "(k, x) \<in> set (items (mc_heap c))" using assms(1) kx by (simp add: mc_linked_def)
    then show ?thesis using mc_pop_items(1) [OF assms(1,2)] kx(2) by simp
  qed
  then show ?thesis using assms(1) mc_pop_items(2) [OF assms] unfolding mc_linked_def by simp
qed

text \<open>What the two eviction loops do to the entries: they only remove some.\<close>

definition mc_shrinks :: "(string \<Rightarrow> cacheEntry \<Rightarrow> bool) \<Rightarrow> MemCache \<Rightarrow> MemCache \<Rightarrow> bool" where
  "mc_shrinks P c c' \<longleftrightarrow>
     (\<forall>k. fmlookup (mc_data c') k = fmlookup (mc_data c) k \<or>
          fmlookup (mc_data c') k = None \<and> (\<forall>e. fmlookup (mc_data c) k = Some e \<longrightarrow> P k e)) \<and>
     fmlen (mc_data c') \<le> fmlen (mc_data c) \<and>
     mc_maxSize c' = mc_maxSize c \<and> mc_defaultTTL c' = mc_defaultTTL c \<and> mc_maxItemSize c' = mc_maxItemSize c"

lemma mc_shrinks_refl [simp]: "mc_shrinks P c c"
  by (simp add: mc_shrinks_def)

lemma mc_shrinks_trans: "mc_shrinks P c c1 \<Longrightarrow> mc_shrinks P c1 c2 \<Longrightarrow> mc_shrinks P c c2"
  unfolding mc_shrinks_def by (metis order_trans)

lemma mc_shrinks_pop: "mc_shrinks P c (mc_popHeap c)"
  by (simp add: mc_shrinks_def)

lemma mc_shrinks_remove:
  "(\<And>e. fmlookup (mc_data c) k = Some e \<Longrightarrow> P k e) \<Longrightarrow> mc_shrinks P c (mc_remove k c)"
  by (simp add: mc_shrinks_def fmlen_drop)

lemma head_not_outdated:
  assumes "mc_linked c" and "\<not> mc_outdated entry c" and "fmlookup (mc_data c) (ee_key entry) = Some e"
  shows "ce_expiration e = ee_expiration entry"
proof -
  have "fmlookup (mc_ttls c) (ee_key entry) = Some (ce_expiration e)"
    using assms(1,3) by (simp add: mc_linked_def)
  then show ?thesis using assms(2) by (simp add: mc_outdated_def)
qed

lemma mc_expire_loop_props:
  "mc_linked c \<Longrightarrow> mc_linked (mc_expire_loop now c) \<and>
   mc_shrinks (\<lambda>k e. ce_expiration e \<le> now) c (mc_expire_loop now c)"
proof (induction now c rule: mc_expire_loop.induct)
  case (1 now c)
  let ?e = "hd (mc_heap c)" and ?S = "mc_shrinks (\<lambda>k e. ce_expiration e \<le> now)"
  consider "mc_heap c = []" | "mc_heap c \<noteq> []" "mc_outdated ?e c"
    | "mc_heap c \<noteq> []" "\<not> mc_outdated ?e c" "ee_expiration ?e \<le> now"
    | "mc_heap c \<noteq> []" "\<not> mc_outdated ?e c" "\<not> ee_expiration ?e \<le> now" by blast
  then show ?case
  proof cases
    case 2
    have "mc_expire_loop now c = mc_expire_loop now (mc_popHeap c)"
      using 2 by (subst mc_expire_loop.simps) (simp add: Let_def)
    then show ?thesis
      using "1.IH"(1) [OF 2(1) refl 2(2) mc_pop_outdated [OF "1.prems" 2]] mc_shrinks_trans [OF mc_shrinks_pop]
      by simp
  next
    case 3
    have "mc_expire_loop now c = mc_expire_loop now (mc_remove (ee_key ?e) (mc_popHeap c))"
      using 3 by (subst mc_expire_loop.simps) (simp add: Let_def)
    moreover have "?S c (mc_remove (ee_key ?e) (mc_popHeap c))"
      using head_not_outdated [OF "1.prems" 3(2)] 3(3)
      by (intro mc_shrinks_trans [OF mc_shrinks_pop mc_shrinks_remove]) simp
    ultimately show ?thesis
      using "1.IH"(2) [OF 3(1) refl 3(2,3) mc_pop_remove [OF "1.prems" 3(1)]] mc_shrinks_trans by simp
  qed (use "1.prems" in \<open>simp_all add: mc_expire_loop.simps [of now c] Let_def\<close>)
qed

lemma heap_covers_data:
  assumes "mc_linked c" and "fmlookup (mc_data c) k = Some e"
  shows "mc_heap c \<noteq> []" and "ee_expiration (hd (mc_heap c)) \<le> ce_expiration e"
proof -
  have m: "(k, ce_expiration e) \<in> set (items (mc_heap c))" using assms by (simp add: mc_linked_def)
  then show "mc_heap c \<noteq> []" by (auto simp: items_def)
  show "ee_expiration (hd (mc_heap c)) \<le> ce_expiration e"
    using heap_hd_least [OF _ m] assms(1) by (simp add: mc_linked_def)
qed

text \<open>At capacity the loop gives up exactly one entry, and one that expires first.\<close>

lemma mc_evict_loop_one:
  assumes "mc_linked c" and "0 < mc_maxSize c" and "fmlen (mc_data c) = mc_maxSize c"
  shows "\<exists>k e. fmlookup (mc_data c) k = Some e \<and>
    (\<forall>k' e'. fmlookup (mc_data c) k' = Some e' \<longrightarrow> ce_expiration e \<le> ce_expiration e') \<and>
    mc_data (mc_evict_loop now c) = fmdrop k (mc_data c) \<and> mc_linked (mc_evict_loop now c) \<and>
    mc_maxSize (mc_evict_loop now c) = mc_maxSize c \<and> mc_defaultTTL (mc_evict_loop now c) = mc_defaultTTL c \<and>
    mc_maxItemSize (mc_evict_loop now c) = mc_maxItemSize c"
  using assms
proof (induction now c rule: mc_evict_loop.induct)
  case (1 now c)
  let ?e = "hd (mc_heap c)"
  obtain k0 e0 where k0: "fmlookup (mc_data c) k0 = Some e0"
    using fmlen_zero [of "mc_data c"] "1.prems"(2,3) by fastforce
  have ne: "mc_heap c \<noteq> []" by (rule heap_covers_data [OF "1.prems"(1) k0])
  show ?case
  proof (cases "mc_outdated ?e c")
    case True
    have eq: "mc_evict_loop now c = mc_evict_loop now (mc_popHeap c)"
      using ne True "1.prems"(3) by (subst mc_evict_loop.simps) (simp add: Let_def)
    show ?thesis
      using "1.IH"(1) [OF _ refl True mc_pop_outdated [OF "1.prems"(1) ne True]] ne "1.prems"(2,3)
      unfolding eq by simp
  next
    case False
    let ?c = "mc_remove (ee_key ?e) (mc_popHeap c)"
    obtain e where e: "fmlookup (mc_data c) (ee_key ?e) = Some e"
      using False "1.prems"(1) by (auto simp: mc_outdated_def mc_linked_def split: option.splits)
    then have "\<not> fmlen (mc_data ?c) \<ge> mc_maxSize ?c" using "1.prems"(3) by (simp add: fmlen_drop)
    then have "mc_evict_loop now ?c = ?c" by (subst mc_evict_loop.simps) simp
    then have eq: "mc_evict_loop now c = ?c"
      using ne False "1.prems"(3) by (subst mc_evict_loop.simps) (simp add: Let_def)
    have "\<forall>k' e'. fmlookup (mc_data c) k' = Some e' \<longrightarrow> ce_expiration e \<le> ce_expiration e'"
      using heap_covers_data(2) [OF "1.prems"(1)] head_not_outdated [OF "1.prems"(1) False e] by simp
    then show ?thesis using e mc_pop_remove [OF "1.prems"(1) ne] unfolding eq by auto
  qed
qed

lemma mc_Set_cases:
  assumes "mc_inv c" and "int (length val) \<le> mc_maxItemSize c"
  obtains (roomy) "fmlen (mc_data c) < mc_maxSize c"
      "mc_data (mc_Set now now2 key val ttl c) = fmupd key \<lparr>ce_value = val,
         ce_expiration = UnixNano (now + (if ttl \<le> 0 then mc_defaultTTL c else ttl))\<rparr> (mc_data c)"
      "mc_linked (mc_Set now now2 key val ttl c)"
    | (full) k e where "fmlen (mc_data c) = mc_maxSize c" "fmlookup (mc_data c) k = Some e"
      "\<forall>k' e'. fmlookup (mc_data c) k' = Some e' \<longrightarrow> ce_expiration e \<le> ce_expiration e'"
      "mc_data (mc_Set now now2 key val ttl c) = fmupd key \<lparr>ce_value = val,
         ce_expiration = UnixNano (now + (if ttl \<le> 0 then mc_defaultTTL c else ttl))\<rparr> (fmdrop k (mc_data c))"
      "mc_linked (mc_Set now now2 key val ttl c)"
proof -
  define c1 where "c1 = (if fmlen (mc_data c) \<ge> mc_maxSize c then mc_evictIfNeeded now2 c else c)"
  define x where "x = UnixNano (now + (if ttl \<le> 0 then mc_defaultTTL c else ttl))"
  have set: "mc_Set now now2 key val ttl c =
      c1\<lparr>mc_data := fmupd key \<lparr>ce_value = val, ce_expiration = x\<rparr> (mc_data c1),
         mc_ttls := fmupd key x (mc_ttls c1),
         mc_heap := heap_Push \<lparr>ee_key = key, ee_expiration = x, ee_index = 0\<rparr> (mc_heap c1),
         mc_sets := mc_sets c1 + 1\<rparr>"
    using assms(2) unfolding mc_Set_def Let_def c1_def x_def by simp
  have linked: "mc_linked (mc_Set now now2 key val ttl c)" if l: "mc_linked c1"
  proof -
    have "heap_inv (mc_heap c1)" using l by (simp add: mc_linked_def)
    from heap_Push_props(1,3) [OF this, of "\<lparr>ee_key = key, ee_expiration = x, ee_index = 0\<rparr>"]
    have "heap_inv (mc_heap (mc_Set now now2 key val ttl c))"
      "set (items (mc_heap (mc_Set now now2 key val ttl c))) = insert (key, x) (set (items (mc_heap c1)))"
      by (simp_all add: set flip: set_mset_mset)
    then show ?thesis using l unfolding mc_linked_def by (auto simp: set)
  qed
  show thesis
  proof (cases "fmlen (mc_data c) < mc_maxSize c")
    case True
    then have "c1 = c" by (simp add: c1_def)
    then show thesis using roomy True set linked assms(1) by (simp add: mc_inv_def x_def)
  next
    case False
    then have "fmlen (mc_data c) = mc_maxSize c" "c1 = mc_evict_loop (UnixNano now2) c"
      using assms(1) by (simp_all add: mc_inv_def c1_def mc_evictIfNeeded_def)
    then show thesis
      using mc_evict_loop_one [of c "UnixNano now2"] assms(1) full linked set
      unfolding mc_inv_def x_def by fastforce
  qed
qed

lemma mc_Set_frame [simp]:
  assumes "mc_inv c"
  shows "mc_maxSize (mc_Set now now2 key val ttl c) = mc_maxSize c"
    and "mc_defaultTTL (mc_Set now now2 key val ttl c) = mc_defaultTTL c"
    and "mc_maxItemSize (mc_Set now now2 key val ttl c) = mc_maxItemSize c"
  using assms mc_evict_loop_one [of c "UnixNano now2"]
  by (auto simp: mc_Set_def mc_inv_def mc_evictIfNeeded_def Let_def)

lemma mc_Set_inv [inv_intros]: "mc_inv c \<Longrightarrow> mc_inv (mc_Set now now2 key val ttl c)"
proof (cases "int (length val) \<le> mc_maxItemSize c")
  case True
  assume inv: "mc_inv c"
  show ?thesis
    using inv True
  proof (cases rule: mc_Set_cases [of c val now now2 key ttl])
    case roomy
    then show ?thesis using inv by (simp add: mc_inv_def fmlen_upd)
  next
    case (full k e)
    then show ?thesis using inv by (simp add: mc_inv_def fmlen_upd fmlen_drop)
  qed
next
  case False
  assume "mc_inv c"
  then show ?thesis using False by (simp add: mc_Set_def)
qed

lemma mc_stats_fields [simp]:
  "mc_inv (c\<lparr>mc_misses := n\<rparr>) = mc_inv c" "mc_inv (c\<lparr>mc_hits := n\<rparr>) = mc_inv c"
  by (simp_all add: mc_inv_def mc_linked_def)

lemma mc_remove_inv [inv_intros]: "mc_inv c \<Longrightarrow> mc_inv (mc_remove k c)"
  using mc_remove_linked [of c k] by (auto simp: mc_inv_def fmlen_drop)

lemma mc_evictExpired_inv [inv_intros]: "mc_inv c \<Longrightarrow> mc_inv (mc_evictExpired now c)"
  using mc_expire_loop_props [of c "UnixNano now"]
  by (auto simp: mc_inv_def mc_evictExpired_def mc_shrinks_def)

lemma mc_Get_eq:
  "mc_Get now key c =
     (case fmlookup (mc_data c) key of
        None \<Rightarrow> (None, c\<lparr>mc_misses := mc_misses c + 1\<rparr>)
      | Some entry \<Rightarrow>
          if mc_expired entry now
          then (None, mc_remove key (c\<lparr>mc_misses := mc_misses c + 1\<rparr>))
          else (Some (ce_value entry), c\<lparr>mc_hits := mc_hits c + 1\<rparr>))"
  by (simp add: mc_Get_def mc_Get_read_def split: option.split)

lemma mc_Get_state:
  "mc_inv c \<Longrightarrow> mc_inv (snd (mc_Get now key c)) \<and>
   mc_shrinks (\<lambda>k e. mc_expired e now) c (snd (mc_Get now key c))"
proof (cases "fmlookup (mc_data c) key")
  case None
  assume "mc_inv c"
  then show ?thesis using None by (simp add: mc_Get_eq mc_shrinks_def)
next
  case (Some e)
  assume inv: "mc_inv c"
  let ?c = "c\<lparr>mc_misses := mc_misses c + 1\<rparr>"
  have "mc_shrinks (\<lambda>k e. mc_expired e now) ?c (mc_remove key ?c)" if "mc_expired e now"
    using Some that by (intro mc_shrinks_remove) simp
  then show ?thesis
    using Some inv mc_remove_inv [of ?c key] by (simp add: mc_Get_eq mc_shrinks_def)
qed

definition mc_answer :: "go_time \<Rightarrow> MemCache \<Rightarrow> string \<rightharpoonup> string" where
  "mc_answer now c k =
     (case fmlookup (mc_data c) k of
        Some e \<Rightarrow> if ce_expiration e = 0 \<or> ce_expiration e > UnixNano now then Some (ce_value e) else None
      | None \<Rightarrow> None)"

text \<open>Two caches that differ in their counters only.\<close>

definition mc_same :: "MemCache \<Rightarrow> MemCache \<Rightarrow> bool" where
  "mc_same c c' \<longleftrightarrow> c'\<lparr>mc_hits := 0, mc_misses := 0\<rparr> = c\<lparr>mc_hits := 0, mc_misses := 0\<rparr>"

lemma mc_same_simps [simp]:
  "mc_same c c" "mc_same c (c\<lparr>mc_hits := h\<rparr>)" "mc_same c (c\<lparr>mc_misses := h\<rparr>)"
  by (simp_all add: mc_same_def)

lemma mc_same_trans: "mc_same c c1 \<Longrightarrow> mc_same c1 c2 \<Longrightarrow> mc_same c c2"
  by (simp add: mc_same_def)

lemma mc_same_fields:
  "mc_same c c' \<Longrightarrow> mc_data c' = mc_data c \<and> mc_inv c' = mc_inv c \<and>
     mc_maxSize c' = mc_maxSize c \<and> mc_defaultTTL c' = mc_defaultTTL c \<and> mc_maxItemSize c' = mc_maxItemSize c"
  by (cases c; cases c') (simp add: mc_same_def mc_inv_def mc_linked_def)

lemma mc_GetMulti_fold:
  assumes "fold (mc_GetMulti_one now) keys (r, c) = (r', c')"
  shows "mc_same c c' \<and> r' = (\<lambda>k. if k \<in> set keys \<and> mc_answer now c k \<noteq> None then mc_answer now c k else r k)"
  using assms
proof (induction keys arbitrary: r c)
  case (Cons a keys)
  obtain r1 c1 where one: "mc_GetMulti_one now a (r, c) = (r1, c1)" by fastforce
  then have "mc_same c c1" and r1: "r1 = (case mc_answer now c a of None \<Rightarrow> r | Some v \<Rightarrow> r(a \<mapsto> v))"
    by (auto simp: mc_GetMulti_one_def mc_answer_def split: option.splits if_splits)
  then have same: "mc_same c c1" "mc_answer now c1 = mc_answer now c"
    using mc_same_fields by (auto simp: mc_answer_def)
  have "mc_same c1 c'" and r': "r' = (\<lambda>k. if k \<in> set keys \<and> mc_answer now c k \<noteq> None then mc_answer now c k else r1 k)"
    using Cons.IH [of r1 c1, unfolded same(2)] Cons.prems one by simp_all
  then have "mc_same c c'" using same(1) mc_same_trans by blast
  moreover have "r' = (\<lambda>k. if k \<in> set (a # keys) \<and> mc_answer now c k \<noteq> None then mc_answer now c k else r k)"
    by (rule ext) (auto simp: r' r1 split: option.splits)
  ultimately show ?case by blast
qed simp

lemma mc_GetMulti_props:
  "fst (mc_GetMulti now keys c) = mc_answer now c |` set keys \<and> mc_same c (snd (mc_GetMulti now keys c))"
proof -
  obtain r c' where "fold (mc_GetMulti_one now) keys (Map.empty, c) = (r, c')" by fastforce
  with mc_GetMulti_fold [OF this] show ?thesis by (auto simp: mc_GetMulti_def restrict_map_def)
qed

section \<open>The cache as a map with expiry\<close>

datatype mc_op =
    MSet go_time go_time string string go_duration
  | MGet go_time string
  | MGetMulti go_time "string list"
  | MDelete string
  | MTick go_time
  | MFlush

datatype mc_output = GotOne "string option" | GotMany "string \<rightharpoonup> string" | GotNothing

fun mc_step :: "mc_op \<Rightarrow> MemCache \<Rightarrow> mc_output \<times> MemCache" where
  "mc_step (MSet now now2 k v ttl) c = (GotNothing, mc_Set now now2 k v ttl c)"
| "mc_step (MGet now k) c = map_prod GotOne id (mc_Get now k c)"
| "mc_step (MGetMulti now ks) c = map_prod GotMany id (mc_GetMulti now ks c)"
| "mc_step (MDelete k) c = (GotNothing, mc_Delete k c)"
| "mc_step (MTick now) c = (GotNothing, mc_evictExpired now c)"
| "mc_step MFlush c = (GotNothing, mc_Flush c)"

fun mc_run :: "mc_op list \<Rightarrow> MemCache \<Rightarrow> mc_output list \<times> MemCache" where
  "mc_run [] c = ([], c)"
| "mc_run (x # xs) c = (let (y, c1) = mc_step x c; (ys, c2) = mc_run xs c1 in (y # ys, c2))"

text \<open>
  The specification: a map from keys to the last value written and the instant it expires,
  with neither capacity nor clean-up.
\<close>

type_synonym ttl_map = "string \<rightharpoonup> (string \<times> int)"

definition ttl_lookup :: "go_time \<Rightarrow> ttl_map \<Rightarrow> string \<rightharpoonup> string" where
  "ttl_lookup now s k =
     (case s k of None \<Rightarrow> None | Some (v, x) \<Rightarrow> if 0 < x \<and> x \<le> UnixNano now then None else Some v)"

fun ttl_step :: "MemCache \<Rightarrow> mc_op \<Rightarrow> ttl_map \<Rightarrow> mc_output \<times> ttl_map" where
  "ttl_step c (MSet now now2 k v ttl) s =
     (GotNothing, if int (length v) > mc_maxItemSize c then s
                  else s(k \<mapsto> (v, UnixNano (now + (if ttl \<le> 0 then mc_defaultTTL c else ttl)))))"
| "ttl_step c (MGet now k) s = (GotOne (ttl_lookup now s k), s)"
| "ttl_step c (MGetMulti now ks) s = (GotMany (ttl_lookup now s |` set ks), s)"
| "ttl_step c (MDelete k) s = (GotNothing, s(k := None))"
| "ttl_step c (MTick now) s = (GotNothing, s)"
| "ttl_step c MFlush s = (GotNothing, Map.empty)"

fun ttl_run :: "MemCache \<Rightarrow> mc_op list \<Rightarrow> ttl_map \<Rightarrow> mc_output list" where
  "ttl_run c [] s = []"
| "ttl_run c (x # xs) s = (let (y, s1) = ttl_step c x s in y # ttl_run c xs s1)"

text \<open>An answer of the cache may be missing, but it is never a different one.\<close>

fun mc_below :: "mc_output \<Rightarrow> mc_output \<Rightarrow> bool" where
  "mc_below (GotOne r) (GotOne r') \<longleftrightarrow> r = None \<or> r = r'"
| "mc_below (GotMany m) (GotMany m') \<longleftrightarrow> m \<subseteq>\<^sub>m m'"
| "mc_below GotNothing GotNothing \<longleftrightarrow> True"
| "mc_below _ _ \<longleftrightarrow> False"

section \<open>Refinement\<close>

definition mc_refines :: "MemCache \<Rightarrow> ttl_map \<Rightarrow> bool" where
  "mc_refines c s \<longleftrightarrow> (\<forall>k e. fmlookup (mc_data c) k = Some e \<longrightarrow> s k = Some (ce_value e, ce_expiration e))"

definition mc_settings :: "MemCache \<Rightarrow> int \<times> int \<times> int" where
  "mc_settings c = (mc_maxSize c, mc_defaultTTL c, mc_maxItemSize c)"

lemma mc_shrinks_refines: "mc_shrinks P c c' \<Longrightarrow> mc_refines c s \<Longrightarrow> mc_refines c' s"
  unfolding mc_shrinks_def mc_refines_def by (metis option.distinct(1))

lemma mc_shrinks_settings: "mc_shrinks P c c' \<Longrightarrow> mc_settings c' = mc_settings c"
  by (simp add: mc_shrinks_def mc_settings_def)

lemma mc_refines_lookup:
  assumes "mc_refines c s"
  shows "mc_below (GotOne (fst (mc_Get now k c))) (GotOne (ttl_lookup now s k))"
    and "mc_answer now c |` K \<subseteq>\<^sub>m ttl_lookup now s |` K"
  using assms
  by (auto simp: mc_refines_def mc_Get_eq mc_answer_def ttl_lookup_def mc_expired_def map_le_def restrict_map_def
      split: option.splits if_splits)

lemma mc_Set_refines:
  assumes "mc_inv c" and "mc_refines c s" and "mc_settings c = mc_settings c0"
  shows "mc_refines (mc_Set now now2 k v ttl c) (snd (ttl_step c0 (MSet now now2 k v ttl) s))"
proof (cases "int (length v) \<le> mc_maxItemSize c")
  case True
  show ?thesis
    using assms(1) True
  proof (cases rule: mc_Set_cases [of c v now now2 k ttl])
    case roomy
    then show ?thesis using assms True by (simp add: mc_refines_def mc_settings_def)
  next
    case (full k' e')
    then show ?thesis using assms True by (simp add: mc_refines_def mc_settings_def)
  qed
next
  case False
  then show ?thesis using assms by (simp add: mc_Set_def mc_settings_def)
qed

lemma mc_step_refines:
  assumes inv: "mc_inv c" and ref: "mc_refines c s" and cfg: "mc_settings c = mc_settings c0"
  shows "mc_inv (snd (mc_step x c)) \<and> mc_refines (snd (mc_step x c)) (snd (ttl_step c0 x s)) \<and>
    mc_settings (snd (mc_step x c)) = mc_settings c0 \<and> mc_below (fst (mc_step x c)) (fst (ttl_step c0 x s))"
proof (cases x)
  case (MSet now now2 k v ttl)
  have "mc_settings (mc_Set now now2 k v ttl c) = mc_settings c0"
    using mc_Set_frame [OF inv] cfg by (simp add: mc_settings_def)
  then show ?thesis using MSet mc_Set_refines [OF assms] mc_Set_inv [OF inv] by simp
next
  case (MGet now k)
  note st = mc_Get_state [OF inv, of now k]
  show ?thesis
    using MGet st mc_shrinks_refines [OF conjunct2 [OF st] ref] mc_shrinks_settings [OF conjunct2 [OF st]] cfg
      mc_refines_lookup(1) [OF ref, of now k] by simp
next
  case (MGetMulti now ks)
  then show ?thesis
    using mc_same_fields [OF conjunct2 [OF mc_GetMulti_props [of now ks c]]] inv ref cfg
      mc_GetMulti_props [of now ks c] mc_refines_lookup(2) [OF ref, of now "set ks"]
    by (simp add: mc_refines_def mc_settings_def)
next
  case (MDelete k)
  then show ?thesis
    using inv ref cfg mc_remove_inv [OF inv, of k] by (simp add: mc_Delete_def mc_refines_def mc_settings_def)
next
  case (MTick now)
  have sh: "mc_shrinks (\<lambda>k e. ce_expiration e \<le> UnixNano now) c (mc_evictExpired now c)"
    using mc_expire_loop_props [of c "UnixNano now"] inv by (simp add: mc_inv_def mc_evictExpired_def)
  show ?thesis
    using MTick mc_evictExpired_inv [OF inv] mc_shrinks_refines [OF sh ref] mc_shrinks_settings [OF sh] cfg by simp
next
  case MFlush
  then show ?thesis
    using inv cfg by (simp add: mc_Flush_def mc_refines_def mc_settings_def mc_inv_def mc_linked_def)
qed

lemma mc_run_refines:
  "mc_inv c \<Longrightarrow> mc_refines c s \<Longrightarrow> mc_settings c = mc_settings c0 \<Longrightarrow>
   list_all2 mc_below (fst (mc_run xs c)) (ttl_run c0 xs s) \<and> mc_inv (snd (mc_run xs c)) \<and>
   mc_settings (snd (mc_run xs c)) = mc_settings c0"
proof (induction xs arbitrary: c s)
  case (Cons x xs)
  obtain y c1 s1 y' where step: "mc_step x c = (y, c1)" "ttl_step c0 x s = (y', s1)" by fastforce
  with mc_step_refines [OF Cons.prems, of x]
  have "mc_inv c1" "mc_refines c1 s1" "mc_settings c1 = mc_settings c0" "mc_below y y'" by simp_all
  with Cons.IH [of c1 s1] step show ?case by (simp add: split_beta)
qed simp

text \<open>
  \<^bold>\<open>C12\<close>. The cache refines a map with expiry: for every sequence of writes, reads, deletions,
  clean-ups and flushes, whatever the times, each answer of a new cache is the answer of the
  unbounded map or is missing. No read returns an overwritten, deleted, flushed or expired
  value or the value of another key.
\<close>

theorem memory_cache_refines_map:
  "list_all2 mc_below (fst (mc_run xs (mc_New cfg))) (ttl_run (mc_New cfg) xs Map.empty)"
  using mc_run_refines [OF mc_New_inv, of cfg Map.empty "mc_New cfg"]
  by (simp add: mc_refines_def mc_New_def Let_def)

text \<open>
  The capacity bound holds after every sequence of operations.
\<close>

theorem memory_cache_bounded:
  "mc_Len (snd (mc_run xs (mc_New cfg))) \<le> (if mcf_MaxSize cfg \<le> 0 then 1000 else mcf_MaxSize cfg)"
proof -
  have "mc_refines (mc_New cfg) Map.empty" by (simp add: mc_refines_def mc_New_def Let_def)
  from mc_run_refines [OF mc_New_inv this refl, of xs]
  show ?thesis by (simp add: mc_inv_def mc_Len_def mc_settings_def mc_New_def Let_def)
qed

text \<open>
  What is given up at capacity: a write into a full cache, even one that replaces a key
  already there, first removes exactly one entry, and one with the earliest expiration. The
  order in which entries were used has no influence.
\<close>

theorem memory_cache_evicts_earliest:
  assumes "mc_inv c" and "mc_Len c = mc_maxSize c" and "int (length val) \<le> mc_maxItemSize c" and "0 < ttl"
  shows "\<exists>k e. fmlookup (mc_data c) k = Some e \<and>
    (\<forall>k' e'. fmlookup (mc_data c) k' = Some e' \<longrightarrow> ce_expiration e \<le> ce_expiration e') \<and>
    mc_data (mc_Set now now2 key val ttl c) =
      fmupd key \<lparr>ce_value = val, ce_expiration = UnixNano (now + ttl)\<rparr> (fmdrop k (mc_data c))"
  using assms(1,3)
proof (cases rule: mc_Set_cases [of c val now now2 key ttl])
  case roomy
  then show ?thesis using assms(2) by (simp add: mc_Len_def)
next
  case (full k e)
  then show ?thesis using assms(4) by auto
qed

text \<open>A full cache of two entries; the first expires before the second.\<close>

definition two_slots :: MemConfig where
  "two_slots = mc_DefaultConfig\<lparr>mcf_MaxSize := 2\<rparr>"

definition full_cache :: MemCache where
  "full_cache = mc_Set 1 1 ''b'' ''y'' 20 (mc_Set 0 0 ''a'' ''x'' 10 (mc_New two_slots))"

lemma full_cache_data:
  "mc_data full_cache = fmupd ''b'' \<lparr>ce_value = ''y'', ce_expiration = UnixNano 21\<rparr>
     (fmupd ''a'' \<lparr>ce_value = ''x'', ce_expiration = UnixNano 10\<rparr> fmempty)"
  "mc_maxSize full_cache = 2" "mc_maxItemSize full_cache = 1024 * 1024" "mc_inv full_cache"
  by (simp_all add: full_cache_def inv_intros)
     (simp_all add: mc_Set_def mc_New_def two_slots_def mc_DefaultConfig_def fmlen_upd Let_def)

theorem memory_cache_evicts_earliest_witness:
  "fmlookup (mc_data (mc_Set 2 2 ''b'' ''z'' 30 full_cache)) ''a'' = None"
proof -
  have "mc_Len full_cache = mc_maxSize full_cache"
    by (simp add: mc_Len_def full_cache_data fmlen_upd)
  from memory_cache_evicts_earliest [OF full_cache_data(4) this, of "''z''" 30 2 2 "''b''"]
  show ?thesis
    by (auto simp: full_cache_data UnixNano_def split: if_splits)
qed

section \<open>Below capacity\<close>

fun mc_op_time :: "mc_op \<Rightarrow> go_time option" where
  "mc_op_time (MSet now now2 k v ttl) = Some now"
| "mc_op_time (MGet now k) = Some now"
| "mc_op_time (MGetMulti now ks) = Some now"
| "mc_op_time (MTick now) = Some now"
| "mc_op_time _ = None"

text \<open>The clock of the operations does not run backwards.\<close>

fun mc_clocked :: "go_time \<Rightarrow> mc_op list \<Rightarrow> bool" where
  "mc_clocked t [] = True"
| "mc_clocked t (x # xs) =
     (case mc_op_time x of None \<Rightarrow> mc_clocked t xs | Some t' \<Rightarrow> t \<le> t' \<and> mc_clocked t' xs)"

fun mc_written :: "mc_op \<Rightarrow> string set" where
  "mc_written (MSet now now2 k v ttl) = {k}"
| "mc_written _ = {}"

text \<open>Nothing is missing but what had expired by the given time.\<close>

definition mc_complete :: "go_time \<Rightarrow> MemCache \<Rightarrow> ttl_map \<Rightarrow> bool" where
  "mc_complete t c s \<longleftrightarrow>
     (\<forall>k v x. s k = Some (v, x) \<longrightarrow> 0 < x \<and> (fmlookup (mc_data c) k = None \<longrightarrow> x \<le> UnixNano t))"

lemma mc_complete_mono: "mc_complete t c s \<Longrightarrow> t \<le> t' \<Longrightarrow> mc_complete t' c s"
  by (auto simp: mc_complete_def UnixNano_def) (smt (verit))

lemma mc_complete_shrinks:
  assumes "mc_complete t c s" and "mc_refines c s" and "mc_shrinks (\<lambda>k e. mc_expired e t) c c'"
  shows "mc_complete t c' s"
  unfolding mc_complete_def
proof (intro allI impI conjI)
  fix k v x assume s: "s k = Some (v, x)"
  then show "0 < x" using assms(1) by (simp add: mc_complete_def)
  assume none: "fmlookup (mc_data c') k = None"
  show "x \<le> UnixNano t"
  proof (cases "fmlookup (mc_data c) k")
    case None
    then show ?thesis using assms(1) s by (simp add: mc_complete_def)
  next
    case (Some e)
    then have "mc_expired e t" using assms(3) none unfolding mc_shrinks_def by (metis option.distinct(1))
    moreover have "x = ce_expiration e" using Some s assms(2) by (auto simp: mc_refines_def)
    ultimately show ?thesis by (simp add: mc_expired_def)
  qed
qed

lemma mc_complete_answers:
  assumes "mc_complete t c s" and "mc_refines c s" and "t \<le> now"
  shows "fst (mc_Get now k c) = ttl_lookup now s k" and "mc_answer now c = ttl_lookup now s"
proof -
  have "mc_answer now c k = ttl_lookup now s k \<and> fst (mc_Get now k c) = ttl_lookup now s k" for k
  proof (cases "fmlookup (mc_data c) k")
    case None
    then have "s k = Some (v, x) \<Longrightarrow> 0 < x \<and> x \<le> UnixNano now" for v x
      using mc_complete_mono [OF assms(1,3)] by (simp add: mc_complete_def)
    then show ?thesis
      using None by (auto simp: mc_answer_def mc_Get_eq ttl_lookup_def split: option.splits)
  next
    case (Some e)
    then have s: "s k = Some (ce_value e, ce_expiration e)" using assms(2) by (simp add: mc_refines_def)
    then have "0 < ce_expiration e" using assms(1) by (simp add: mc_complete_def)
    then show ?thesis
      using Some s by (auto simp: mc_answer_def mc_Get_eq ttl_lookup_def mc_expired_def)
  qed
  then show "fst (mc_Get now k c) = ttl_lookup now s k" "mc_answer now c = ttl_lookup now s" by auto
qed

lemma fmlen_dom_bound:
  assumes "\<And>k. fmlookup m k \<noteq> None \<Longrightarrow> k \<in> K" and "finite K"
  shows "fmlen m \<le> int (card K)"
proof -
  have "fset (fmdom m) \<subseteq> K" using assms(1) by (metis fmdom_notI subsetI)
  then have "card (fset (fmdom m)) \<le> card K" using assms(2) by (rule card_mono [rotated])
  then show ?thesis by (simp add: fmlen_def fcard.rep_eq)
qed

lemma mc_step_exact:
  assumes inv: "mc_inv c" and ref: "mc_refines c s" and cfg: "mc_settings c = mc_settings c0"
    and com: "mc_complete t c s" and K: "finite K" "int (card K) < mc_maxSize c0" "dom s \<subseteq> K" "mc_written x \<subseteq> K"
    and t': "case mc_op_time x of None \<Rightarrow> t' = t | Some u \<Rightarrow> t \<le> u \<and> t' = u" and "UnixNano t \<ge> 0"
  shows "fst (mc_step x c) = fst (ttl_step c0 x s) \<and>
    mc_complete t' (snd (mc_step x c)) (snd (ttl_step c0 x s)) \<and> dom (snd (ttl_step c0 x s)) \<subseteq> K"
proof (cases x)
  case (MSet now now2 k v ttl)
  have len: "fmlen (mc_data c) < mc_maxSize c"
  proof -
    have "fmlen (mc_data c) \<le> int (card K)"
      using ref K by (intro fmlen_dom_bound) (auto simp: mc_refines_def)
    then show ?thesis using K(2) cfg by (simp add: mc_settings_def)
  qed
  have now: "t \<le> now" "t' = now" using t' MSet by auto
  show ?thesis
  proof (cases "int (length v) \<le> mc_maxItemSize c")
    case True
    let ?x = "UnixNano (now + (if ttl \<le> 0 then mc_defaultTTL c else ttl))"
    have d: "mc_data (mc_Set now now2 k v ttl c) = fmupd k \<lparr>ce_value = v, ce_expiration = ?x\<rparr> (mc_data c)"
      using len True by (simp add: mc_Set_def Let_def)
    have "0 < ?x" using inv now assms(10) by (auto simp: UnixNano_def mc_inv_def)
    then show ?thesis
      using MSet True d mc_complete_mono [OF com now(1)] K cfg now(2)
      by (auto simp: mc_complete_def mc_settings_def)
  next
    case False
    then show ?thesis
      using MSet mc_complete_mono [OF com now(1)] K cfg now(2) by (simp add: mc_settings_def mc_Set_def)
  qed
next
  case (MGet now k)
  then have now: "t \<le> now" "t' = now" using t' by auto
  have "mc_complete now (snd (mc_Get now k c)) s"
    using mc_complete_shrinks [OF mc_complete_mono [OF com now(1)] ref] mc_Get_state [OF inv, of now k] by simp
  then show ?thesis using MGet mc_complete_answers(1) [OF com ref now(1)] now(2) K by simp
next
  case (MGetMulti now ks)
  then have now: "t \<le> now" "t' = now" using t' by auto
  have "mc_data (snd (mc_GetMulti now ks c)) = mc_data c"
    using mc_GetMulti_props [of now ks c] mc_same_fields by blast
  then show ?thesis
    using MGetMulti mc_complete_answers(2) [OF com ref now(1)] mc_complete_mono [OF com now(1)] now(2) K
      mc_GetMulti_props [of now ks c] by (simp add: mc_complete_def)
next
  case (MDelete k)
  then show ?thesis using com t' K by (auto simp: mc_Delete_def mc_complete_def)
next
  case (MTick now)
  then have now: "t \<le> now" "t' = now" using t' by auto
  have "mc_shrinks (\<lambda>k e. ce_expiration e \<le> UnixNano now) c (mc_evictExpired now c)"
    using mc_expire_loop_props [of c "UnixNano now"] inv by (simp add: mc_inv_def mc_evictExpired_def)
  then have "mc_shrinks (\<lambda>k e. mc_expired e now) c (mc_evictExpired now c)"
    using com ref unfolding mc_shrinks_def mc_expired_def mc_complete_def mc_refines_def by metis
  then show ?thesis
    using MTick mc_complete_shrinks [OF mc_complete_mono [OF com now(1)] ref] now(2) K by simp
next
  case MFlush
  then show ?thesis by (simp add: mc_complete_def)
qed

lemma mc_run_exact:
  assumes "finite K" and "int (card K) < mc_maxSize c0"
  shows "\<lbrakk>mc_inv c; mc_refines c s; mc_settings c = mc_settings c0; mc_complete t c s; dom s \<subseteq> K;
      \<forall>x\<in>set xs. mc_written x \<subseteq> K; mc_clocked t xs; UnixNano t \<ge> 0\<rbrakk>
    \<Longrightarrow> fst (mc_run xs c) = ttl_run c0 xs s"
proof (induction xs arbitrary: c s t)
  case (Cons x xs)
  obtain y c1 s1 y' where step: "mc_step x c = (y, c1)" "ttl_step c0 x s = (y', s1)" by fastforce
  define t' where "t' = (case mc_op_time x of None \<Rightarrow> t | Some u \<Rightarrow> u)"
  have t': "case mc_op_time x of None \<Rightarrow> t' = t | Some u \<Rightarrow> t \<le> u \<and> t' = u"
    using Cons.prems(7) by (simp add: t'_def split: option.splits)
  have nn: "UnixNano t' \<ge> 0" using t' Cons.prems(8) by (auto simp: UnixNano_def split: option.splits)
  have "y = y' \<and> mc_complete t' c1 s1 \<and> dom s1 \<subseteq> K"
    using mc_step_exact [OF Cons.prems(1-4) assms Cons.prems(5) _ t' Cons.prems(8)] Cons.prems(6) step by simp
  moreover have "mc_inv c1" "mc_refines c1 s1" "mc_settings c1 = mc_settings c0"
    using mc_step_refines [OF Cons.prems(1-3), of x] step by simp_all
  moreover have "mc_clocked t' xs" using Cons.prems(7) by (simp add: t'_def split: option.splits)
  ultimately show ?case using Cons.IH [of c1 s1 t'] Cons.prems(6) nn step by (simp add: split_beta)
qed simp

text \<open>
  Below capacity the cache is the map: as long as fewer different keys are written than
  the capacity and the clock does not run backwards, every answer of a new cache is exactly the
  answer of the unbounded map with expiry.
\<close>

theorem memory_cache_exact_below_capacity:
  assumes "mc_clocked t xs" and "UnixNano t \<ge> 0"
    and "int (card (\<Union>x\<in>set xs. mc_written x)) < mc_maxSize (mc_New cfg)"
  shows "fst (mc_run xs (mc_New cfg)) = ttl_run (mc_New cfg) xs Map.empty"
proof (rule mc_run_exact [OF _ assms(3)])
  have "finite (mc_written x)" for x by (cases x) simp_all
  then show "finite (\<Union>x\<in>set xs. mc_written x)" by blast
qed (use assms in \<open>auto simp: mc_New_inv mc_refines_def mc_complete_def, auto simp: mc_New_def Let_def\<close>)

theorem memory_cache_exact_below_capacity_witness:
  "fst (mc_run [MSet (62135596800 * second) 0 ''a'' ''x'' 10, MGet (62135596800 * second + 9) ''a'',
      MTick (62135596800 * second + 11), MGet (62135596800 * second + 11) ''a''] (mc_New two_slots))
   = [GotNothing, GotOne (Some ''x''), GotNothing, GotOne None]"
  using memory_cache_exact_below_capacity [of "62135596800 * second"
    "[MSet (62135596800 * second) 0 ''a'' ''x'' 10, MGet (62135596800 * second + 9) ''a'',
      MTick (62135596800 * second + 11), MGet (62135596800 * second + 11) ''a'']" two_slots]
  by (simp add: UnixNano_def mc_New_def two_slots_def mc_DefaultConfig_def ttl_lookup_def Let_def)

section \<open>A write between the halves of Get\<close>

lemma mc_Set_lookup:
  assumes "mc_inv c" and "int (length val) \<le> mc_maxItemSize c" and "0 < ttl"
  shows "fmlookup (mc_data (mc_Set now now2 key val ttl c)) key =
    Some \<lparr>ce_value = val, ce_expiration = UnixNano (now + ttl)\<rparr>"
  using assms(1,2) by (cases rule: mc_Set_cases [of c val now now2 key ttl]) (use assms(3) in auto)

text \<open>
  A write is read back: whatever the state of the cache, full or not, a value of
  admissible size is returned by \<open>Get\<close> until its lifetime is over, and not after.
\<close>

theorem memory_cache_set_get:
  assumes "mc_inv c" and "int (length val) \<le> mc_maxItemSize c" and "0 < ttl" and "UnixNano now \<ge> 0"
  shows "fst (mc_Get now3 key (mc_Set now now2 key val ttl c)) = (if now3 < now + ttl then Some val else None)"
  using mc_Set_lookup [OF assms(1-3)] assms(3,4) by (simp add: mc_Get_eq mc_expired_def UnixNano_def)

theorem memory_cache_set_get_witness:
  "fst (mc_Get (62135596800 * second + 7) ''c'' (mc_Set (62135596800 * second) 0 ''c'' ''z'' 10 full_cache)) = Some ''z''"
  using memory_cache_set_get [OF full_cache_data(4), of "''z''" 10 "62135596800 * second" "62135596800 * second + 7" "''c''" 0]
  by (simp add: full_cache_data UnixNano_def)

text \<open>
  The lazy deletion may delete a fresh value: when a reader has found the entry of a key
  expired, another goroutine writes the key, and the reader then takes its second lock, the new
  value is gone, although without the reader it would be returned until the end of its
  lifetime.
\<close>

theorem memory_cache_lazy_delete_race:
  assumes "mc_inv c" and "int (length val) \<le> mc_maxItemSize c" and "0 < ttl" and "UnixNano now \<ge> 0"
    and "mc_Get_read now key c = (None, c1)" and "now3 < now + ttl"
  shows "fst (mc_Get now3 key (mc_Set now now2 key val ttl c)) = Some val \<and>
    fst (mc_Get now3 key (mc_Set now now2 key val ttl c1)) = Some val \<and>
    fst (mc_Get now3 key (mc_remove key (mc_Set now now2 key val ttl c1))) = None"
proof -
  have "mc_inv c1" "mc_maxItemSize c1 = mc_maxItemSize c"
    using assms(1,5) by (auto simp: mc_Get_read_def split: option.splits if_splits)
  then show ?thesis
    using mc_Set_lookup [OF assms(1-3)] mc_Set_lookup [of c1 val ttl] assms(2-4,6)
    by (simp add: mc_Get_eq mc_expired_def UnixNano_def)
qed

definition short_lived :: MemCache where
  "short_lived = mc_Set (62135596800 * second) 0 ''a'' ''x'' 10 (mc_New two_slots)"

theorem memory_cache_lazy_delete_race_witness:
  "\<exists>c1. mc_Get_read (62135596800 * second + 90) ''a'' short_lived = (None, c1) \<and>
     fst (mc_Get (62135596800 * second + 95) ''a''
       (mc_remove ''a'' (mc_Set (62135596800 * second + 90) 0 ''a'' ''z'' 10 c1))) = None"
proof -
  let ?t = "62135596800 * second + 90"
  obtain c1 where c1: "mc_Get_read ?t ''a'' short_lived = (None, c1)"
    by (simp add: mc_Get_read_def short_lived_def mc_Set_def mc_New_def two_slots_def mc_DefaultConfig_def
        mc_expired_def UnixNano_def Let_def)
  have "mc_inv short_lived" "mc_maxItemSize short_lived = 1024 * 1024"
    by (simp_all add: short_lived_def inv_intros) (simp add: mc_New_def two_slots_def mc_DefaultConfig_def Let_def)
  from memory_cache_lazy_delete_race [OF this(1) _ _ _ c1, of "''z''" 10 "?t + 5" 0] this(2) c1
  show ?thesis by (simp add: UnixNano_def)
qed

end
