(* ===== verification/Dual_Cache.thy ===== *)
theory Dual_Cache
  imports Memory_Cache
begin

text \<open>
  The Redis cache (\<open>caches/redis/redis.go\<close>) and the two-tier cache (\<open>caches/dual/dual.go\<close>) in
  front of it. The client library and the server behind it are not part of the repository: the
  commands the code issues are functions of a record that every definition takes as an
  argument, over a state that stands for the server.

  The lemmas show that a written value is read back through the local tier, for how long, and
  that a value found remotely answers later reads locally.
\<close>

section \<open>The client\<close>

datatype client_error = RedisNil | RedisErr string

datatype client_value = ReplyString string | ReplyBytes string | ReplyOther

record 'r RedisClient =
  cl_Get :: "string \<Rightarrow> 'r \<Rightarrow> (client_error + string option) \<times> 'r"
  cl_Set :: "string \<Rightarrow> string \<Rightarrow> go_duration \<Rightarrow> 'r \<Rightarrow> client_error option \<times> 'r"
  cl_Del :: "string \<Rightarrow> 'r \<Rightarrow> client_error option \<times> 'r"
  cl_ExecSets :: "(string \<times> string \<times> go_duration) list \<Rightarrow> 'r \<Rightarrow> client_error option \<times> 'r"
  cl_MGet :: "string list \<Rightarrow> 'r \<Rightarrow> (client_error + client_value option list) \<times> 'r"
  cl_Ping :: "'r \<Rightarrow> client_error option \<times> 'r"
  cl_Close :: "'r \<Rightarrow> client_error option \<times> 'r"
  cl_IncrBy :: "string \<Rightarrow> int \<Rightarrow> 'r \<Rightarrow> (client_error + int) \<times> 'r"
  cl_TTL :: "string \<Rightarrow> 'r \<Rightarrow> (client_error + go_duration) \<times> 'r"
  cl_Expire :: "string \<Rightarrow> go_duration \<Rightarrow> 'r \<Rightarrow> 'r"
  cl_SetNX :: "string \<Rightarrow> string \<Rightarrow> go_duration \<Rightarrow> 'r \<Rightarrow> (client_error + bool) \<times> 'r"

text \<open>The errors of the cache: the text the code adds and the client's error.\<close>

datatype cache_error = CacheErr string client_error

section \<open>The Redis cache\<close>

record 'r RedisCache =
  rd_client :: 'r
  rd_namespace :: string
  rd_defaultTTL :: go_duration
  rd_hits :: int
  rd_misses :: int
  rd_sets :: int
  rd_errors :: int

definition rd_prefixKey :: "string \<Rightarrow> 'r RedisCache \<Rightarrow> string" where
  "rd_prefixKey key c = (if rd_namespace c = [] then key else rd_namespace c @ '':'' @ key)"

definition rd_Get :: "'r RedisClient \<Rightarrow> string \<Rightarrow> 'r RedisCache \<Rightarrow> (cache_error + string option) \<times> 'r RedisCache" where
  "rd_Get cl key c =
     (case cl_Get cl (rd_prefixKey key c) (rd_client c) of
        (Inl RedisNil, s) \<Rightarrow> (Inr None, c\<lparr>rd_client := s, rd_misses := rd_misses c + 1\<rparr>)
      | (Inl err, s) \<Rightarrow> (Inl (CacheErr ''redis get'' err), c\<lparr>rd_client := s, rd_errors := rd_errors c + 1\<rparr>)
      | (Inr val, s) \<Rightarrow> (Inr val, c\<lparr>rd_client := s, rd_hits := rd_hits c + 1\<rparr>))"

definition rd_Set ::
  "'r RedisClient \<Rightarrow> string \<Rightarrow> string \<Rightarrow> go_duration \<Rightarrow> 'r RedisCache \<Rightarrow> cache_error option \<times> 'r RedisCache" where
  "rd_Set cl key val ttl0 c =
     (let ttl = (if ttl0 \<le> 0 then rd_defaultTTL c else ttl0)
      in case cl_Set cl (rd_prefixKey key c) val ttl (rd_client c) of
           (Some err, s) \<Rightarrow> (Some (CacheErr ''redis set'' err), c\<lparr>rd_client := s, rd_errors := rd_errors c + 1\<rparr>)
         | (None, s) \<Rightarrow> (None, c\<lparr>rd_client := s, rd_sets := rd_sets c + 1\<rparr>))"

definition rd_Delete :: "'r RedisClient \<Rightarrow> string \<Rightarrow> 'r RedisCache \<Rightarrow> cache_error option \<times> 'r RedisCache" where
  "rd_Delete cl key c =
     (case cl_Del cl (rd_prefixKey key c) (rd_client c) of
        (Some err, s) \<Rightarrow> (Some (CacheErr ''redis del'' err), c\<lparr>rd_client := s, rd_errors := rd_errors c + 1\<rparr>)
      | (None, s) \<Rightarrow> (None, c\<lparr>rd_client := s\<rparr>))"

definition rd_SetPipeline ::
  "'r RedisClient \<Rightarrow> cache_Entry list \<Rightarrow> 'r RedisCache \<Rightarrow> cache_error option \<times> 'r RedisCache" where
  "rd_SetPipeline cl entries c =
     (if entries = [] then (None, c)
      else let cmds = map (\<lambda>e. (rd_prefixKey (en_Key e) c, en_Value e,
                                 if en_TTL e \<le> 0 then rd_defaultTTL c else en_TTL e)) entries
           in case cl_ExecSets cl cmds (rd_client c) of
                (Some err, s) \<Rightarrow>
                  (Some (CacheErr ''redis pipeline exec'' err), c\<lparr>rd_client := s, rd_errors := rd_errors c + 1\<rparr>)
              | (None, s) \<Rightarrow> (None, c\<lparr>rd_client := s, rd_sets := rd_sets c + int (length entries)\<rparr>))"

definition rd_reply_one ::
  "string \<times> client_value option \<Rightarrow> (string \<rightharpoonup> string) \<times> 'r RedisCache \<Rightarrow> (string \<rightharpoonup> string) \<times> 'r RedisCache" where
  "rd_reply_one kv = (\<lambda>(result, c).
     case snd kv of
       Some (ReplyString v) \<Rightarrow> (result(fst kv \<mapsto> v), c\<lparr>rd_hits := rd_hits c + 1\<rparr>)
     | Some (ReplyBytes v) \<Rightarrow> (result(fst kv \<mapsto> v), c\<lparr>rd_hits := rd_hits c + 1\<rparr>)
     | Some ReplyOther \<Rightarrow> (result, c\<lparr>rd_misses := rd_misses c + 1\<rparr>)
     | None \<Rightarrow> (result, c\<lparr>rd_misses := rd_misses c + 1\<rparr>))"

text \<open>The reply of \<open>MGET\<close> has one value per key, in the order of the keys.\<close>

definition rd_GetMulti ::
  "'r RedisClient \<Rightarrow> string list \<Rightarrow> 'r RedisCache \<Rightarrow> (cache_error + (string \<rightharpoonup> string)) \<times> 'r RedisCache" where
  "rd_GetMulti cl keys c =
     (if keys = [] then (Inr Map.empty, c)
      else case cl_MGet cl (map (\<lambda>k. rd_prefixKey k c) keys) (rd_client c) of
             (Inl err, s) \<Rightarrow> (Inl (CacheErr ''redis mget'' err), c\<lparr>rd_client := s, rd_errors := rd_errors c + 1\<rparr>)
           | (Inr vals, s) \<Rightarrow>
               (let (result, c1) = fold rd_reply_one (zip keys vals) (Map.empty, c\<lparr>rd_client := s\<rparr>)
                in (Inr result, c1)))"

definition rd_Ping :: "'r RedisClient \<Rightarrow> 'r RedisCache \<Rightarrow> client_error option \<times> 'r RedisCache" where
  "rd_Ping cl c = map_prod id (\<lambda>s. c\<lparr>rd_client := s\<rparr>) (cl_Ping cl (rd_client c))"

definition rd_Close :: "'r RedisClient \<Rightarrow> 'r RedisCache \<Rightarrow> client_error option \<times> 'r RedisCache" where
  "rd_Close cl c = map_prod id (\<lambda>s. c\<lparr>rd_client := s\<rparr>) (cl_Close cl (rd_client c))"

definition rd_Stats :: "'r RedisCache \<Rightarrow> cache_Stats" where
  "rd_Stats c =
     (let total = rd_hits c + rd_misses c
      in \<lparr>st_Hits = rd_hits c, st_Misses = rd_misses c, st_Sets = rd_sets c, st_Deletes = 0, st_Errors = rd_errors c,
          st_HitRate = (if total > 0 then of_int (rd_hits c) / of_int total else 0), st_AvgLatency = 0\<rparr>)"

definition rd_Increment ::
  "'r RedisClient \<Rightarrow> string \<Rightarrow> int \<Rightarrow> go_duration \<Rightarrow> 'r RedisCache \<Rightarrow> (cache_error + int) \<times> 'r RedisCache" where
  "rd_Increment cl key delta ttl c =
     (case cl_IncrBy cl (rd_prefixKey key c) delta (rd_client c) of
        (Inl err, s) \<Rightarrow> (Inl (CacheErr ''redis incrby'' err), c\<lparr>rd_client := s, rd_errors := rd_errors c + 1\<rparr>)
      | (Inr val, s) \<Rightarrow>
          (let s2 = (if ttl > 0
                     then case cl_TTL cl (rd_prefixKey key c) s of
                            (Inr currentTTL, s1) \<Rightarrow>
                              if currentTTL < 0 then cl_Expire cl (rd_prefixKey key c) ttl s1 else s1
                          | (Inl _, s1) \<Rightarrow> s1
                     else s)
           in (Inr val, c\<lparr>rd_client := s2\<rparr>)))"

definition rd_SetNX ::
  "'r RedisClient \<Rightarrow> string \<Rightarrow> string \<Rightarrow> go_duration \<Rightarrow> 'r RedisCache \<Rightarrow> (cache_error + bool) \<times> 'r RedisCache" where
  "rd_SetNX cl key val ttl0 c =
     (let ttl = (if ttl0 \<le> 0 then rd_defaultTTL c else ttl0)
      in case cl_SetNX cl (rd_prefixKey key c) val ttl (rd_client c) of
           (Inl err, s) \<Rightarrow> (Inl (CacheErr ''redis setnx'' err), c\<lparr>rd_client := s, rd_errors := rd_errors c + 1\<rparr>)
         | (Inr ok, s) \<Rightarrow>
             (Inr ok, if ok then c\<lparr>rd_client := s, rd_sets := rd_sets c + 1\<rparr> else c\<lparr>rd_client := s\<rparr>))"

section \<open>The two tiers\<close>

record DualConfig =
  LocalTTL :: go_duration
  RedisTTL :: go_duration
  BatchThrottleTime :: go_duration
  MaxThrottleEntries :: int

definition du_DefaultConfig :: DualConfig where
  "du_DefaultConfig =
     \<lparr>LocalTTL = 5 * minute, RedisTTL = hour, BatchThrottleTime = 10 * second, MaxThrottleEntries = 10000\<rparr>"

record 'r DualCache =
  du_local :: MemCache
  du_remote :: "'r RedisCache option"
  du_config :: DualConfig
  du_lastRedisAccessTime :: "(string, go_time) fmap"
  du_localHits :: int
  du_redisHits :: int
  du_misses :: int
  du_backfills :: int

definition du_New :: "MemCache \<Rightarrow> 'r RedisCache option \<Rightarrow> DualConfig \<Rightarrow> 'r DualCache" where
  "du_New local remote cfg =
     \<lparr>du_local = local, du_remote = remote,
      du_config =
        \<lparr>LocalTTL = (if LocalTTL cfg \<le> 0 then 5 * minute else LocalTTL cfg),
         RedisTTL = (if RedisTTL cfg \<le> 0 then hour else RedisTTL cfg),
         BatchThrottleTime = (if BatchThrottleTime cfg \<le> 0 then 10 * second else BatchThrottleTime cfg),
         MaxThrottleEntries = (if MaxThrottleEntries cfg \<le> 0 then 10000 else MaxThrottleEntries cfg)\<rparr>,
      du_lastRedisAccessTime = fmempty, du_localHits = 0, du_redisHits = 0, du_misses = 0, du_backfills = 0\<rparr>"

definition du_backfill :: "go_time \<Rightarrow> string \<Rightarrow> string \<Rightarrow> 'r DualCache \<Rightarrow> 'r DualCache" where
  "du_backfill now key val c =
     c\<lparr>du_redisHits := du_redisHits c + 1,
       du_local := mc_Set now now key val (LocalTTL (du_config c)) (du_local c),
       du_backfills := du_backfills c + 1\<rparr>"

definition du_Get ::
  "'r RedisClient \<Rightarrow> go_time \<Rightarrow> go_time \<Rightarrow> string \<Rightarrow> 'r DualCache \<Rightarrow> (cache_error + string option) \<times> 'r DualCache" where
  "du_Get cl now now2 key c =
     (case mc_Get now key (du_local c) of
        (Some val, l) \<Rightarrow> (Inr (Some val), c\<lparr>du_local := l, du_localHits := du_localHits c + 1\<rparr>)
      | (None, l) \<Rightarrow>
          (let c1 = c\<lparr>du_local := l\<rparr>
           in case du_remote c1 of
                None \<Rightarrow> (Inr None, c1\<lparr>du_misses := du_misses c1 + 1\<rparr>)
              | Some remote \<Rightarrow>
                  (case rd_Get cl key remote of
                     (Inl err, remote1) \<Rightarrow> (Inl err, c1\<lparr>du_remote := Some remote1\<rparr>)
                   | (Inr (Some val), remote1) \<Rightarrow>
                       (Inr (Some val), du_backfill now2 key val (c1\<lparr>du_remote := Some remote1\<rparr>))
                   | (Inr None, remote1) \<Rightarrow>
                       (Inr None, c1\<lparr>du_remote := Some remote1, du_misses := du_misses c1 + 1\<rparr>))))"

definition du_Set ::
  "'r RedisClient \<Rightarrow> go_time \<Rightarrow> go_time \<Rightarrow> string \<Rightarrow> string \<Rightarrow> go_duration \<Rightarrow> 'r DualCache \<Rightarrow>
   cache_error option \<times> 'r DualCache" where
  "du_Set cl now now2 key val ttl c =
     (let localTTL = LocalTTL (du_config c);
          redisTTL = (if ttl \<le> 0 then RedisTTL (du_config c) else ttl);
          c1 = c\<lparr>du_local := mc_Set now now2 key val localTTL (du_local c)\<rparr>
      in case du_remote c1 of
           None \<Rightarrow> (None, c1)
         | Some remote \<Rightarrow>
             (case rd_Set cl key val redisTTL remote of
                (err, remote1) \<Rightarrow> (err, c1\<lparr>du_remote := Some remote1\<rparr>)))"

definition du_SetLocalOnly ::
  "go_time \<Rightarrow> go_time \<Rightarrow> string \<Rightarrow> string \<Rightarrow> go_duration \<Rightarrow> 'r DualCache \<Rightarrow> 'r DualCache" where
  "du_SetLocalOnly now now2 key val ttl c =
     c\<lparr>du_local := mc_Set now now2 key val (if ttl \<le> 0 then LocalTTL (du_config c) else ttl) (du_local c)\<rparr>"

definition du_Delete :: "'r RedisClient \<Rightarrow> string \<Rightarrow> 'r DualCache \<Rightarrow> cache_error option \<times> 'r DualCache" where
  "du_Delete cl key c =
     (let c1 = c\<lparr>du_local := mc_Delete key (du_local c)\<rparr>
      in case du_remote c1 of
           None \<Rightarrow> (None, c1)
         | Some remote \<Rightarrow>
             (case rd_Delete cl key remote of (err, remote1) \<Rightarrow> (err, c1\<lparr>du_remote := Some remote1\<rparr>)))"

definition du_SetPipeline ::
  "'r RedisClient \<Rightarrow> (go_time \<times> go_time) list \<Rightarrow> cache_Entry list \<Rightarrow> 'r DualCache \<Rightarrow>
   cache_error option \<times> 'r DualCache" where
  "du_SetPipeline cl ts entries c =
     (let localEntries = map (\<lambda>e. e\<lparr>en_TTL := LocalTTL (du_config c)\<rparr>) entries;
          c1 = c\<lparr>du_local := mc_SetPipeline ts localEntries (du_local c)\<rparr>
      in case du_remote c1 of
           None \<Rightarrow> (None, c1)
         | Some remote \<Rightarrow>
             (case rd_SetPipeline cl entries remote of
                (err, remote1) \<Rightarrow> (err, c1\<lparr>du_remote := Some remote1\<rparr>)))"

definition du_filterThrottledKeys :: "go_time \<Rightarrow> string list \<Rightarrow> 'r DualCache \<Rightarrow> string list" where
  "du_filterThrottledKeys now keys c =
     filter (\<lambda>key. case fmlookup (du_lastRedisAccessTime c) key of
                     None \<Rightarrow> True
                   | Some lastAccess \<Rightarrow> now - lastAccess \<ge> BatchThrottleTime (du_config c)) keys"

definition du_cleanupThrottleMap :: "go_time \<Rightarrow> 'r DualCache \<Rightarrow> 'r DualCache" where
  "du_cleanupThrottleMap now c =
     (let threshold = now - BatchThrottleTime (du_config c) * 2
      in c\<lparr>du_lastRedisAccessTime :=
             fmfilter (\<lambda>key. case fmlookup (du_lastRedisAccessTime c) key of
                               Some t \<Rightarrow> \<not> t < threshold | None \<Rightarrow> True) (du_lastRedisAccessTime c)\<rparr>)"

text \<open>
  The iteration over the results of Redis is in the order of \<open>order\<close>, which lists their keys with
  the time of the write into the local tier.
\<close>

definition du_GetMulti ::
  "'r RedisClient \<Rightarrow> go_time \<Rightarrow> go_time \<Rightarrow> go_time \<Rightarrow> (string \<times> go_time) list \<Rightarrow> string list \<Rightarrow> 'r DualCache \<Rightarrow>
   ((string \<rightharpoonup> string) \<times> cache_error option) \<times> 'r DualCache" where
  "du_GetMulti cl now now2 now3 order keys c =
     (let (localResults, l) = mc_GetMulti now keys (du_local c);
          found = filter (\<lambda>k. localResults k \<noteq> None) keys;
          missingKeys = filter (\<lambda>k. localResults k = None) keys;
          result = localResults |` set keys;
          c1 = c\<lparr>du_local := l, du_localHits := du_localHits c + int (length found)\<rparr>
      in case du_remote c1 of
           None \<Rightarrow> ((result, None), c1)
         | Some remote \<Rightarrow>
             (let keysToQuery = du_filterThrottledKeys now2 missingKeys c1
              in if missingKeys = [] \<or> keysToQuery = [] then ((result, None), c1)
                 else case rd_GetMulti cl keysToQuery remote of
                   (Inl err, remote1) \<Rightarrow> ((result, Some err), c1\<lparr>du_remote := Some remote1\<rparr>)
                 | (Inr redisResults, remote1) \<Rightarrow>
                     (let c2 = c1\<lparr>du_remote := Some remote1,
                                 du_lastRedisAccessTime :=
                                   fold (\<lambda>key. fmupd key now3) keysToQuery (du_lastRedisAccessTime c1)\<rparr>;
                          c3 = (if fmlen (du_lastRedisAccessTime c2) > MaxThrottleEntries (du_config c2)
                                then du_cleanupThrottleMap now3 c2 else c2);
                          c4 = fold (\<lambda>(key, t) c. du_backfill t key (the (redisResults key)) c)
                                 (filter (\<lambda>(key, t). redisResults key \<noteq> None) order) c3;
                          missed = filter (\<lambda>key. redisResults key = None) keysToQuery
                      in ((result ++ redisResults, None),
                          c4\<lparr>du_misses := du_misses c4 + int (length missed)\<rparr>))))"

definition du_Ping :: "'r RedisClient \<Rightarrow> 'r DualCache \<Rightarrow> client_error option \<times> 'r DualCache" where
  "du_Ping cl c =
     (case du_remote c of
        None \<Rightarrow> (None, c)
      | Some remote \<Rightarrow> (case rd_Ping cl remote of (err, remote1) \<Rightarrow> (err, c\<lparr>du_remote := Some remote1\<rparr>)))"

definition du_Stats :: "'r DualCache \<Rightarrow> cache_Stats" where
  "du_Stats c =
     (let localStats = mc_Stats (du_local c);
          (redisSets, redisErrors) = (case du_remote c of
             None \<Rightarrow> (0, 0) | Some remote \<Rightarrow> (st_Sets (rd_Stats remote), st_Errors (rd_Stats remote)));
          totalHits = du_localHits c + du_redisHits c;
          total = totalHits + du_misses c
      in \<lparr>st_Hits = totalHits, st_Misses = du_misses c, st_Sets = st_Sets localStats + redisSets,
          st_Deletes = 0, st_Errors = redisErrors,
          st_HitRate = (if total > 0 then of_int totalHits / of_int total else 0), st_AvgLatency = 0\<rparr>)"

definition du_Flush :: "'r DualCache \<Rightarrow> 'r DualCache" where
  "du_Flush c = c\<lparr>du_local := mc_Flush (du_local c)\<rparr>"

section \<open>Reads after writes\<close>

text \<open>The local tier of a two-tier cache that is in order.\<close>

definition du_inv :: "'r DualCache \<Rightarrow> bool" where
  "du_inv c \<longleftrightarrow> mc_inv (du_local c) \<and> 0 < LocalTTL (du_config c)"

lemma du_New_inv [inv_intros]: "mc_inv local \<Longrightarrow> du_inv (du_New local remote cfg)"
  by (simp add: du_inv_def du_New_def)

lemma du_Set_fields:
  "du_local (snd (du_Set cl now now2 key val ttl c)) =
     mc_Set now now2 key val (LocalTTL (du_config c)) (du_local c)"
  "du_config (snd (du_Set cl now now2 key val ttl c)) = du_config c"
  by (simp_all add: du_Set_def Let_def split: option.split prod.split)

lemma du_Get_local_hit:
  "fst (mc_Get now key (du_local c)) = Some val \<Longrightarrow>
   fst (du_Get cl now now2 key c) = Inr (Some val) \<and> du_remote (snd (du_Get cl now now2 key c)) = du_remote c"
  by (auto simp: du_Get_def split: prod.split)

lemma mc_Get_hit:
  "\<lbrakk>fmlookup (mc_data c) key = Some e; UnixNano now < ce_expiration e\<rbrakk>
   \<Longrightarrow> fst (mc_Get now key c) = Some (ce_value e)"
  by (simp add: mc_Get_eq mc_expired_def)

text \<open>
  A value written to the two-tier cache is returned from the local tier, without asking
  Redis, until the configured local lifetime is over: for every lifetime the caller asked for,
  also a shorter one, and also when the write to Redis failed.
\<close>

theorem dual_cache_serves_local_ttl:
  assumes "du_inv c" and "int (length val) \<le> mc_maxItemSize (du_local c)"
    and "now3 < now + LocalTTL (du_config c)"
  shows "fst (du_Get cl now3 now4 key (snd (du_Set cl now now2 key val ttl c))) = Inr (Some val) \<and>
    du_remote (snd (du_Get cl now3 now4 key (snd (du_Set cl now now2 key val ttl c)))) =
      du_remote (snd (du_Set cl now now2 key val ttl c))"
proof (rule du_Get_local_hit)
  have "fmlookup (mc_data (mc_Set now now2 key val (LocalTTL (du_config c)) (du_local c))) key =
      Some \<lparr>ce_value = val, ce_expiration = UnixNano (now + LocalTTL (du_config c))\<rparr>"
    using assms by (intro mc_Set_lookup) (simp_all add: du_inv_def)
  from mc_Get_hit [OF this, of now3] assms(3)
  show "fst (mc_Get now3 key (du_local (snd (du_Set cl now now2 key val ttl c)))) = Some val"
    by (simp add: du_Set_fields UnixNano_def)
qed

text \<open>A client whose server is down, and a cache that uses it.\<close>

definition down_client :: "unit RedisClient" where
  "down_client =
     \<lparr>cl_Get = \<lambda>k s. (Inl (RedisErr ''down''), s), cl_Set = \<lambda>k v t s. (Some (RedisErr ''down''), s),
      cl_Del = \<lambda>k s. (Some (RedisErr ''down''), s), cl_ExecSets = \<lambda>cs s. (Some (RedisErr ''down''), s),
      cl_MGet = \<lambda>ks s. (Inl (RedisErr ''down''), s), cl_Ping = \<lambda>s. (Some (RedisErr ''down''), s),
      cl_Close = \<lambda>s. (None, s), cl_IncrBy = \<lambda>k d s. (Inl (RedisErr ''down''), s),
      cl_TTL = \<lambda>k s. (Inl (RedisErr ''down''), s), cl_Expire = \<lambda>k t s. s,
      cl_SetNX = \<lambda>k v t s. (Inl (RedisErr ''down''), s)\<rparr>"

definition down_cache :: "unit DualCache" where
  "down_cache = du_New (mc_New two_slots)
     (Some \<lparr>rd_client = (), rd_namespace = ''llmux'', rd_defaultTTL = hour, rd_hits = 0, rd_misses = 0,
            rd_sets = 0, rd_errors = 0\<rparr>) du_DefaultConfig"

theorem dual_cache_serves_local_ttl_witness:
  "fst (du_Set down_client 0 0 ''k'' ''v'' second down_cache) = Some (CacheErr ''redis set'' (RedisErr ''down'')) \<and>
   fst (du_Get down_client minute 0 ''k'' (snd (du_Set down_client 0 0 ''k'' ''v'' second down_cache))) = Inr (Some ''v'')"
proof
  show "fst (du_Set down_client 0 0 ''k'' ''v'' second down_cache) = Some (CacheErr ''redis set'' (RedisErr ''down''))"
    by (simp add: du_Set_def down_cache_def du_New_def rd_Set_def down_client_def Let_def)
  have "du_inv down_cache" "mc_maxItemSize (du_local down_cache) = 1024 * 1024"
    "LocalTTL (du_config down_cache) = 5 * minute"
    by (simp_all add: down_cache_def inv_intros)
       (simp_all add: du_New_def mc_New_def two_slots_def mc_DefaultConfig_def du_DefaultConfig_def Let_def)
  then show "fst (du_Get down_client minute 0 ''k'' (snd (du_Set down_client 0 0 ''k'' ''v'' second down_cache)))
      = Inr (Some ''v'')"
    using dual_cache_serves_local_ttl [of down_cache "''v''" minute 0 down_client 0 "''k''" 0 second] by simp
qed

end
