(* ===== verification/Llm_Errors.thy ===== *)
theory Llm_Errors
  imports Router_Types
begin

text \<open>
  The unified errors of \<open>pkg/errors/errors.go\<close>: the constructors, the HTTP status and the rule
  for cooldowns.
\<close>

definition Error_string :: "LLMError \<Rightarrow> string" where
  "Error_string e =
     ''['' @ err_Type e @ ''] '' @ err_Message e @ '' (provider='' @ err_Provider e @ '', model='' @
     err_Model e @ '', code='' @ FormatInt (StatusCode e) @ '')''"

definition HTTPStatusCode :: "LLMError \<Rightarrow> int" where
  "HTTPStatusCode e = (if StatusCode e > 0 then StatusCode e else 500)"

definition NewAuthenticationError :: "string \<Rightarrow> string \<Rightarrow> string \<Rightarrow> LLMError" where
  "NewAuthenticationError provider model message =
     \<lparr>StatusCode = 401, err_Message = message, err_Type = ''authentication_error'', err_Provider = provider,
      err_Model = model, Retryable = False\<rparr>"

definition NewPermissionError :: "string \<Rightarrow> string \<Rightarrow> string \<Rightarrow> LLMError" where
  "NewPermissionError provider model message =
     \<lparr>StatusCode = 403, err_Message = message, err_Type = ''permission_error'', err_Provider = provider,
      err_Model = model, Retryable = False\<rparr>"

definition NewRateLimitError :: "string \<Rightarrow> string \<Rightarrow> string \<Rightarrow> LLMError" where
  "NewRateLimitError provider model message =
     \<lparr>StatusCode = 429, err_Message = message, err_Type = ''rate_limit_error'', err_Provider = provider,
      err_Model = model, Retryable = True\<rparr>"

definition NewInsufficientQuotaError :: "string \<Rightarrow> string \<Rightarrow> string \<Rightarrow> LLMError" where
  "NewInsufficientQuotaError provider model message =
     \<lparr>StatusCode = 402, err_Message = message, err_Type = ''insufficient_quota'', err_Provider = provider,
      err_Model = model, Retryable = False\<rparr>"

definition NewInvalidRequestError :: "string \<Rightarrow> string \<Rightarrow> string \<Rightarrow> LLMError" where
  "NewInvalidRequestError provider model message =
     \<lparr>StatusCode = 400, err_Message = message, err_Type = ''invalid_request_error'', err_Provider = provider,
      err_Model = model, Retryable = False\<rparr>"

definition NewNotFoundError :: "string \<Rightarrow> string \<Rightarrow> string \<Rightarrow> LLMError" where
  "NewNotFoundError provider model message =
     \<lparr>StatusCode = 404, err_Message = message, err_Type = ''not_found_error'', err_Provider = provider,
      err_Model = model, Retryable = False\<rparr>"

definition NewTimeoutError :: "string \<Rightarrow> string \<Rightarrow> string \<Rightarrow> LLMError" where
  "NewTimeoutError provider model message =
     \<lparr>StatusCode = 408, err_Message = message, err_Type = ''timeout_error'', err_Provider = provider,
      err_Model = model, Retryable = True\<rparr>"

definition NewServiceUnavailableError :: "string \<Rightarrow> string \<Rightarrow> string \<Rightarrow> LLMError" where
  "NewServiceUnavailableError provider model message =
     \<lparr>StatusCode = 503, err_Message = message, err_Type = ''service_unavailable_error'', err_Provider = provider,
      err_Model = model, Retryable = True\<rparr>"

definition NewInternalError :: "string \<Rightarrow> string \<Rightarrow> string \<Rightarrow> LLMError" where
  "NewInternalError provider model message =
     \<lparr>StatusCode = 500, err_Message = message, err_Type = ''internal_error'', err_Provider = provider,
      err_Model = model, Retryable = False\<rparr>"

definition IsCooldownRequired :: "int \<Rightarrow> bool" where
  "IsCooldownRequired statusCode =
     (if statusCode \<ge> 400 \<and> statusCode < 500
      then statusCode = 429 \<or> statusCode = 401 \<or> statusCode = 408 \<or> statusCode = 404
      else statusCode \<ge> 500)"

lemmas llm_error_defs = NewAuthenticationError_def NewPermissionError_def NewRateLimitError_def
  NewInsufficientQuotaError_def NewInvalidRequestError_def NewNotFoundError_def NewTimeoutError_def
  NewServiceUnavailableError_def NewInternalError_def

end
