(* ===== verification/Client_Core.thy ===== *)
theory Client_Core
  imports Router_Strategies Resilience_Manager Llm_Errors "HOL-Library.Finite_Map"
begin

text \<open>
  The execution of a request by the client (\<open>client.go\<close>): rate-limit keys and checks, back-off,
  concurrency permits, one exchange with a provider, and the loop that retries and falls back to
  other deployments. The router, the statistics, the pricing table and the permits are those of
  the other theories; the providers and the network are the environment, given per attempt.
\<close>

section \<open>Configuration and state\<close>

type_synonym RateLimitKeyStrategy = string

definition RateLimitKeyByAPIKey :: RateLimitKeyStrategy where "RateLimitKeyByAPIKey = ''api_key''"
definition RateLimitKeyByUser :: RateLimitKeyStrategy where "RateLimitKeyByUser = ''user''"
definition RateLimitKeyByModel :: RateLimitKeyStrategy where "RateLimitKeyByModel = ''model''"
definition RateLimitKeyByAPIKeyAndModel :: RateLimitKeyStrategy where
  "RateLimitKeyByAPIKeyAndModel = ''api_key_model''"

record RateLimiterConfig =
  rlc_Enabled :: bool
  rlc_RPMLimit :: int
  rlc_TPMLimit :: int
  rlc_WindowSize :: go_duration
  rlc_KeyStrategy :: RateLimitKeyStrategy
  rlc_FailOpen :: bool

text \<open>Of the client's configuration, the fields that the execution of requests reads.\<close>

record ClientConfig =
  FallbackEnabled :: bool
  RetryCount :: int
  RetryBackoff :: go_duration
  RetryMaxBackoff :: go_duration
  RetryJitter :: float64
  cc_RateLimiter :: RateLimiterConfig
  cc_CacheTTL :: go_duration

definition defaultConfig :: ClientConfig where
  "defaultConfig =
     \<lparr>FallbackEnabled = True, RetryCount = 3, RetryBackoff = second, RetryMaxBackoff = 5 * second,
      RetryJitter = 1 / 5,
      cc_RateLimiter = \<lparr>rlc_Enabled = False, rlc_RPMLimit = 0, rlc_TPMLimit = 0, rlc_WindowSize = 0,
                        rlc_KeyStrategy = [], rlc_FailOpen = False\<rparr>,
      cc_CacheTTL = hour\<rparr>"

text \<open>
  A request has the fields of the source; messages, tools, the response format and the stream
  options are their encodings, which are only passed on. Of a response, the fields that the
  execution reads; \<open>cp_Body\<close> stands for the others, which are only passed on to the caller.
\<close>

record ChatRequest =
  cq_Model :: string
  cq_Messages :: "string list"
  cq_Stream :: bool
  cq_MaxTokens :: int
  cq_Temperature :: "float64 option"
  cq_TopP :: "float64 option"
  cq_N :: int
  cq_Stop :: "string list"
  cq_PresencePenalty :: "float64 option"
  cq_FrequencyPenalty :: "float64 option"
  cq_User :: string
  cq_Tools :: "string list"
  cq_ToolChoice :: string
  cq_ResponseFormat :: "string option"
  cq_StreamOptions :: "string option"
  cq_Tags :: "string list"
  cq_Extra :: "(string, string) fmap"

record Usage =
  us_PromptTokens :: int
  us_CompletionTokens :: int
  us_TotalTokens :: int
  us_Provider :: string

record ChatResponse =
  cp_Model :: string
  cp_Usage :: "Usage option"
  cp_Body :: string

text \<open>
  A context carries the tenant scope of the router, the id of the authenticated API key and the
  key that a caller may have set for rate limiting.
\<close>

record CallCtx =
  cx_scope :: go_context
  cx_apiKey :: "string option"
  cx_rateKey :: string

text \<open>
  One exchange with a provider: building the request or sending it fails, or a reply arrives, of
  which the environment gives the status, the error \<open>MapError\<close> makes of it and the result of
  \<open>ParseResponse\<close>.
\<close>

datatype exchange =
    BuildFails go_error
  | DoFails go_error
  | Replied int go_error "go_error + ChatResponse"

text \<open>
  What the environment contributes to one attempt: the exchange with the given provider, the
  readings of the clock in their order, and the context's error before the attempt and when the
  permit is taken, if the context is done by then.
\<close>

record 'p attempt =
  at_exchange :: "'p \<Rightarrow> Deployment \<Rightarrow> ChatRequest \<Rightarrow> exchange"
  at_start :: go_time
  at_done :: go_time
  at_report :: "go_time \<times> go_time \<times> go_time"
  at_pick :: go_time
  at_cancelled :: "go_error option"
  at_ctxErr :: "go_error option"

record fallbackAttempt =
  fa_originalModel :: string
  fa_fallbackModel :: string
  fa_err :: go_error

text \<open>The calls of the fallback reporter are a log; without a reporter nothing is logged.\<close>

record ('s, 'c, 'p) Client =
  cli_providers :: "string \<rightharpoonup> 'p"
  cli_router :: "('s, 'c) Router"
  cli_config :: ClientConfig
  cli_pricing :: "Registry option"
  cli_manager :: "Manager option"
  cli_hasReporter :: bool
  cli_fallbacks :: "(string \<times> string \<times> go_error \<times> bool) list"
  cli_rng :: rng

section \<open>Rate limiting\<close>

definition buildRateLimitKey :: "RateLimiterConfig \<Rightarrow> string \<Rightarrow> string \<Rightarrow> string \<Rightarrow> string" where
  "buildRateLimitKey cfg model user apiKey =
     (let defaultKey = ''default''
      in if rlc_KeyStrategy cfg = RateLimitKeyByAPIKey then (if apiKey \<noteq> [] then apiKey else defaultKey)
         else if rlc_KeyStrategy cfg = RateLimitKeyByModel then (if model \<noteq> [] then model else defaultKey)
         else if rlc_KeyStrategy cfg = RateLimitKeyByAPIKeyAndModel
         then (let baseKey = (if apiKey \<noteq> [] then apiKey else defaultKey)
               in if model = [] then baseKey else baseKey @ '':'' @ model)
         else (if user \<noteq> [] then user else defaultKey))"

definition rateLimitAPIKey :: "CallCtx \<Rightarrow> string" where
  "rateLimitAPIKey cx =
     (if cx_rateKey cx \<noteq> [] then cx_rateKey cx
      else case cx_apiKey cx of Some i \<Rightarrow> i | None \<Rightarrow> [])"

definition withTenantScope :: "CallCtx \<Rightarrow> CallCtx" where
  "withTenantScope cx =
     (if TenantScopeFromContext (cx_scope cx) \<noteq> [] then cx
      else case cx_apiKey cx of
             Some i \<Rightarrow> cx\<lparr>cx_scope := WithTenantScope (cx_scope cx) i\<rparr>
           | None \<Rightarrow> cx)"

datatype LimitType = LimitTypeRequests | LimitTypeTokens

record Descriptor =
  ds_Key :: string
  ds_Value :: string
  ds_Limit :: int
  ds_Type :: LimitType
  ds_Increment :: int
  ds_Window :: go_duration

record LimitResult =
  lr_Allowed :: bool
  lr_Current :: int
  lr_Remaining :: int
  lr_ResetAt :: int
  lr_Error :: "go_error option"

text \<open>
  The limiter is an interface; a check takes the descriptors to results or an error and changes
  the limiter's state. The message of a denial repeats the counters.
\<close>

definition rate_descriptors :: "RateLimiterConfig \<Rightarrow> string \<Rightarrow> string \<Rightarrow> int \<Rightarrow> Descriptor list" where
  "rate_descriptors cfg key model estimatedTokens =
     (let windowSize = (if rlc_WindowSize cfg = 0 then minute else rlc_WindowSize cfg)
      in (if rlc_RPMLimit cfg > 0
          then [\<lparr>ds_Key = key, ds_Value = model, ds_Limit = rlc_RPMLimit cfg, ds_Type = LimitTypeRequests,
                 ds_Increment = 1, ds_Window = windowSize\<rparr>]
          else []) @
         (if rlc_TPMLimit cfg > 0
          then [\<lparr>ds_Key = key, ds_Value = model, ds_Limit = rlc_TPMLimit cfg, ds_Type = LimitTypeTokens,
                 ds_Increment = (if estimatedTokens \<le> 0 then 1 else estimatedTokens), ds_Window = windowSize\<rparr>]
          else []))"

definition limit_message :: "Descriptor \<Rightarrow> LimitResult \<Rightarrow> string" where
  "limit_message desc result =
     ''rate limit exceeded: '' @ (if ds_Type desc = LimitTypeTokens then ''tokens'' else ''requests'') @
     '' per minute limit reached (current: '' @ FormatInt (lr_Current result) @ '', limit: '' @
     FormatInt (ds_Limit desc) @ '', reset at: '' @ FormatInt (lr_ResetAt result) @ '')''"

definition checkRateLimit ::
  "(Descriptor list \<Rightarrow> 'l \<Rightarrow> (go_error + LimitResult list) \<times> 'l) \<Rightarrow> RateLimiterConfig \<Rightarrow> string \<Rightarrow> string \<Rightarrow> int \<Rightarrow>
   'l option \<Rightarrow> LLMError option \<times> 'l option" where
  "checkRateLimit checkAllow cfg key model estimatedTokens limiter =
     (case limiter of
        None \<Rightarrow> (None, None)
      | Some backend \<Rightarrow>
          if \<not> rlc_Enabled cfg then (None, limiter)
          else let descriptors = rate_descriptors cfg key model estimatedTokens
               in if descriptors = [] then (None, limiter)
                  else let (res, backend1) = checkAllow descriptors backend;
                           results = (case res of Inr rs \<Rightarrow> if length rs = length descriptors then Some rs else None
                                                | Inl _ \<Rightarrow> None)
                       in case results of
                            None \<Rightarrow>
                              (if rlc_FailOpen cfg then None
                               else Some (NewRateLimitError ''llmux'' model ''rate limiter backend unavailable''),
                               Some backend1)
                          | Some rs \<Rightarrow>
                              (map_option (\<lambda>(d, r). NewRateLimitError ''llmux'' model (limit_message d r))
                                 (find (\<lambda>(d, r). \<not> lr_Allowed r) (zip descriptors rs)),
                               Some backend1))"

section \<open>Back-off\<close>

text \<open>A \<open>time.Duration\<close> is a signed 64-bit integer; the doubling may wrap around.\<close>

fun backoff_doubled :: "nat \<Rightarrow> go_duration \<Rightarrow> go_duration" where
  "backoff_doubled 0 backoff = backoff"
| "backoff_doubled (Suc n) backoff =
     (let next' = wrap64 (backoff * 2)
      in if next' < backoff then backoff else backoff_doubled n next')"

definition retryBackoff :: "ClientConfig \<Rightarrow> int \<Rightarrow> rng \<Rightarrow> go_duration \<times> rng" where
  "retryBackoff cfg attempt g =
     (if attempt \<le> 0 then (0, g)
      else if RetryBackoff cfg \<le> 0 then (0, g)
      else let backoff0 = backoff_doubled (nat (attempt - 1)) (RetryBackoff cfg);
               backoff = (if RetryMaxBackoff cfg > 0 \<and> backoff0 > RetryMaxBackoff cfg
                          then RetryMaxBackoff cfg else backoff0)
           in if RetryJitter cfg > 0 \<and> backoff > 0
              then let jitter = (if RetryJitter cfg > 1 then 1 else RetryJitter cfg);
                       minFactor = 1 - jitter;
                       maxFactor = 1 + jitter;
                       (x, g') = randFloat64 g;
                       factor = minFactor + x * (maxFactor - minFactor);
                       backoff' = \<lfloor>of_int backoff * factor\<rfloor>
                   in (if RetryMaxBackoff cfg > 0 \<and> backoff' > RetryMaxBackoff cfg
                       then RetryMaxBackoff cfg else backoff', g')
              else (backoff, g))"

section \<open>One exchange\<close>

definition reportFallback ::
  "string \<Rightarrow> string \<Rightarrow> go_error \<Rightarrow> bool \<Rightarrow> ('s, 'c, 'p) Client \<Rightarrow> ('s, 'c, 'p) Client" where
  "reportFallback originalModel fallbackModel err success c =
     (if \<not> cli_hasReporter c then c
      else c\<lparr>cli_fallbacks := cli_fallbacks c @ [(originalModel, fallbackModel, err, success)]\<rparr>)"

definition validatePricing :: "string \<Rightarrow> string \<Rightarrow> ('s, 'c, 'p) Client \<Rightarrow> LLMError option" where
  "validatePricing model provider c =
     (case cli_pricing c of
        None \<Rightarrow> Some (NewInternalError provider model ''pricing registry unavailable'')
      | Some reg \<Rightarrow>
          (case GetPrice model provider reg of
             None \<Rightarrow> Some (NewInternalError provider model ''pricing not configured for model'')
           | Some _ \<Rightarrow> None))"

text \<open>The function that is returned with a permit is whether it releases anything.\<close>

definition acquireDeployment ::
  "go_error option \<Rightarrow> Deployment \<Rightarrow> ('s, 'c, 'p) Client \<Rightarrow> (go_error + bool) \<times> ('s, 'c, 'p) Client" where
  "acquireDeployment ctxErr deployment c =
     (case ctxErr of
        Some err \<Rightarrow> (Inl err, c)
      | None \<Rightarrow>
          (case cli_manager c of
             None \<Rightarrow> (Inr False, c)
           | Some m \<Rightarrow>
               if dep_MaxConcurrent deployment \<le> 0 then (Inr False, c)
               else let key = dep_ProviderName deployment;
                        (s, m1) = GetSemaphore key (dep_MaxConcurrent deployment) m;
                        (ok, s') = sem_TryAcquire s;
                        m2 = m1\<lparr>semaphores := (semaphores m1)(key \<mapsto> s')\<rparr>;
                        c1 = c\<lparr>cli_manager := Some m2\<rparr>
                    in if ok then (Inr True, c1)
                       else (Inl (LLMErr (NewRateLimitError (dep_ProviderName deployment) (dep_ModelName deployment)
                                            ''provider concurrency limit reached'')), c1)))"

definition releaseDeployment :: "bool \<Rightarrow> Deployment \<Rightarrow> ('s, 'c, 'p) Client \<Rightarrow> ('s, 'c, 'p) Client" where
  "releaseDeployment permit deployment c =
     (if permit
      then c\<lparr>cli_manager := map_option
               (\<lambda>m. snd (mgr_Release (dep_ProviderName deployment) (dep_MaxConcurrent deployment) m)) (cli_manager c)\<rparr>
      else c)"

definition on_router :: "('s BaseRouter \<Rightarrow> 's BaseRouter) \<Rightarrow> ('s, 'c, 'p) Client \<Rightarrow> ('s, 'c, 'p) Client" where
  "on_router f c = c\<lparr>cli_router := router_map f (cli_router c)\<rparr>"

definition canonical_model :: "string \<Rightarrow> string" where
  "canonical_model model =
     (let canonical = snd (SplitProviderModel model) in if canonical = [] then model else canonical)"

definition sanitizeChatRequestForProvider :: "ChatRequest \<Rightarrow> ChatRequest" where
  "sanitizeChatRequestForProvider req =
     (let modelName = snd (SplitProviderModel (cq_Model req));
          needsClone = length (cq_Tags req) > 0 \<or> (modelName \<noteq> [] \<and> modelName \<noteq> cq_Model req)
      in if \<not> needsClone then req
         else req\<lparr>cq_Tags := [],
                  cq_Model := (if modelName \<noteq> [] \<and> modelName \<noteq> cq_Model req then modelName else cq_Model req)\<rparr>)"

definition buildRouterRequestContext :: "ChatRequest \<Rightarrow> int \<Rightarrow> bool \<Rightarrow> RequestContext" where
  "buildRouterRequestContext req promptTokens isStreaming =
     \<lparr>rq_Model = cq_Model req, rq_IsStreaming = isStreaming, rq_Tags = cq_Tags req,
      rq_EstimatedInputTokens = promptTokens, rq_Metadata = Map.empty\<rparr>"

text \<open>The usage of a response, estimated when the provider gives none.\<close>

definition fill_usage ::
  "int \<Rightarrow> int \<Rightarrow> string \<Rightarrow> ChatResponse \<Rightarrow> Usage" where
  "fill_usage promptTokens completionTokens providerName resp =
     (let u = (case cp_Usage resp of
                 Some u \<Rightarrow> (if us_TotalTokens u = 0
                            then \<lparr>us_PromptTokens = promptTokens, us_CompletionTokens = completionTokens,
                                  us_TotalTokens = promptTokens + completionTokens, us_Provider = []\<rparr>
                            else u)
               | None \<Rightarrow> \<lparr>us_PromptTokens = promptTokens, us_CompletionTokens = completionTokens,
                          us_TotalTokens = promptTokens + completionTokens, us_Provider = []\<rparr>)
      in if us_Provider u = [] then u\<lparr>us_Provider := providerName\<rparr> else u)"

text \<open>
  \<open>estimate\<close> and \<open>estimateCompletion\<close> are the functions \<open>EstimatePromptTokens\<close> and
  \<open>EstimateCompletionTokens\<close> of the tokenizer.
\<close>

definition finish_exchange ::
  "'s StatsStore \<Rightarrow> (string \<Rightarrow> ChatRequest \<Rightarrow> int) \<Rightarrow> (string \<Rightarrow> ChatResponse \<Rightarrow> int) \<Rightarrow> 'p attempt \<Rightarrow> go_context \<Rightarrow>
   Deployment \<Rightarrow> ChatRequest \<Rightarrow> exchange \<Rightarrow> ('s, 'c, 'p) Client \<Rightarrow> (go_error + ChatResponse) \<times> ('s, 'c, 'p) Client" where
  "finish_exchange ops estimate estimateCompletion a ctx deployment req x c =
     (let (t1, t2, t3) = at_report a;
          fails = (\<lambda>err. on_router (ReportFailure ops ctx t1 t2 t3 deployment err) c)
      in case x of
           BuildFails err \<Rightarrow> (Inl (WrappedErr ''build request'' err), c)
         | DoFails err \<Rightarrow> (Inl (WrappedErr ''execute request'' err), fails err)
         | Replied statusCode llmErr parsed \<Rightarrow>
             (if statusCode \<ge> 400 then (Inl llmErr, fails llmErr)
              else case parsed of
                Inl err \<Rightarrow> (Inl (WrappedErr ''parse response'' err), fails err)
              | Inr resp0 \<Rightarrow>
                  (let resp = resp0\<lparr>cp_Model := cq_Model req\<rparr>;
                       canonical = canonical_model (cq_Model req);
                       usage = fill_usage (estimate canonical req) (estimateCompletion canonical resp)
                                 (dep_ProviderName deployment) resp;
                       metrics = \<lparr>rm_Latency = at_done a - at_start a, rm_TimeToFirstToken = 0,
                                  rm_TotalTokens = us_TotalTokens usage, rm_InputTokens = us_PromptTokens usage,
                                  rm_OutputTokens = us_CompletionTokens usage, rm_Cost = 0\<rparr>
                   in (Inr (resp\<lparr>cp_Usage := Some usage\<rparr>),
                       on_router (ReportSuccess ops ctx t1 t2 deployment metrics) c))))"

definition executeOnce ::
  "'s StatsStore \<Rightarrow> (string \<Rightarrow> ChatRequest \<Rightarrow> int) \<Rightarrow> (string \<Rightarrow> ChatResponse \<Rightarrow> int) \<Rightarrow> 'p attempt \<Rightarrow> CallCtx \<Rightarrow>
   'p \<Rightarrow> Deployment \<Rightarrow> ChatRequest \<Rightarrow> ('s, 'c, 'p) Client \<Rightarrow> (go_error + ChatResponse) \<times> ('s, 'c, 'p) Client" where
  "executeOnce ops estimate estimateCompletion a cx prov deployment req c =
     (let ctx = cx_scope (withTenantScope cx)
      in case validatePricing (canonical_model (cq_Model req)) (dep_ProviderName deployment) c of
           Some err \<Rightarrow> (Inl (LLMErr err), c)
         | None \<Rightarrow>
             (case acquireDeployment (at_ctxErr a) deployment c of
                (Inl err, c1) \<Rightarrow> (Inl err, c1)
              | (Inr permit, c1) \<Rightarrow>
                  (case at_exchange a prov deployment (sanitizeChatRequestForProvider req) of
                     BuildFails err \<Rightarrow>
                       (Inl (WrappedErr ''build request'' err), releaseDeployment permit deployment c1)
                   | x \<Rightarrow>
                       (let c2 = on_router (ReportRequestStart ops ctx deployment) c1;
                            (res, c3) = finish_exchange ops estimate estimateCompletion a ctx deployment req x c2;
                            c4 = on_router (ReportRequestEnd ops ctx deployment) c3
                        in (res, releaseDeployment permit deployment c4)))))"

section \<open>Retries and fallbacks\<close>

text \<open>
  The results of the loop: a response, an error, neither (when the retry count is negative and
  the loop does not run), or the panic of a pick.
\<close>

datatype exec_result = ExecResponse ChatResponse | ExecError go_error | ExecNothing | ExecPanic

definition settle_fallback ::
  "fallbackAttempt option \<Rightarrow> (fallbackAttempt \<Rightarrow> go_error) \<Rightarrow> bool \<Rightarrow> ('s, 'c, 'p) Client \<Rightarrow> ('s, 'c, 'p) Client" where
  "settle_fallback pending err success c =
     (case pending of
        None \<Rightarrow> c
      | Some f \<Rightarrow> reportFallback (fa_originalModel f) (fa_fallbackModel f) (err f) success c)"

definition not_retryable :: "go_error \<Rightarrow> bool" where
  "not_retryable err = (case assert_LLMError err of Some e \<Rightarrow> \<not> Retryable e | None \<Rightarrow> False)"

text \<open>The choice of a deployment for the next attempt.\<close>

definition try_fallback ::
  "'s StatsStore \<Rightarrow> 'c RoundRobinStore \<Rightarrow> CallCtx \<Rightarrow> go_time \<Rightarrow> RequestContext \<Rightarrow> go_error \<Rightarrow> 'p \<Rightarrow> Deployment \<Rightarrow>
   ('s, 'c, 'p) Client \<Rightarrow> ('p \<times> Deployment \<times> fallbackAttempt option \<times> ('s, 'c, 'p) Client) option" where
  "try_fallback ops rops cx now reqCtx err prov deployment c =
     (case router_Pick ops rops (cx_scope cx) now reqCtx (cli_router c) of
        (Inl PickPanic, r) \<Rightarrow> None
      | (Inl _, r) \<Rightarrow> Some (prov, deployment, None, c\<lparr>cli_router := r\<rparr>)
      | (Inr newDeployment, r) \<Rightarrow>
          if dep_ID newDeployment = dep_ID deployment
          then Some (prov, deployment, None, c\<lparr>cli_router := r\<rparr>)
          else Some (case cli_providers c (dep_ProviderName newDeployment) of Some p \<Rightarrow> p | None \<Rightarrow> prov,
                     newDeployment,
                     Some \<lparr>fa_originalModel = rq_Model reqCtx, fa_fallbackModel = dep_ModelName newDeployment,
                           fa_err = err\<rparr>,
                     c\<lparr>cli_router := r\<rparr>))"

fun retry_loop ::
  "'s StatsStore \<Rightarrow> 'c RoundRobinStore \<Rightarrow> (string \<Rightarrow> ChatRequest \<Rightarrow> int) \<Rightarrow> (string \<Rightarrow> ChatResponse \<Rightarrow> int) \<Rightarrow>
   (nat \<Rightarrow> 'p attempt) \<Rightarrow> CallCtx \<Rightarrow> RequestContext \<Rightarrow> ChatRequest \<Rightarrow> nat \<Rightarrow> nat \<Rightarrow> 'p \<Rightarrow> Deployment \<Rightarrow>
   fallbackAttempt option \<Rightarrow> exec_result \<Rightarrow> ('s, 'c, 'p) Client \<Rightarrow> exec_result \<times> ('s, 'c, 'p) Client" where
  "retry_loop ops rops est estC env cx reqCtx req attempt 0 prov deployment pending lastErr c = (lastErr, c)"
| "retry_loop ops rops est estC env cx reqCtx req attempt (Suc n) prov deployment pending lastErr c =
     (let a = env attempt;
          (backoff, g) = (if attempt > 0 then retryBackoff (cli_config c) (int attempt) (cli_rng c) else (0, cli_rng c));
          c0 = c\<lparr>cli_rng := g\<rparr>
      in case (if attempt > 0 then at_cancelled a else None) of
           Some err \<Rightarrow> (ExecError err, c0)
         | None \<Rightarrow>
             (case executeOnce ops est estC a cx prov deployment req c0 of
                (Inr resp, c1) \<Rightarrow> (ExecResponse resp, settle_fallback pending fa_err True c1)
              | (Inl err, c1) \<Rightarrow>
                  (let c2 = settle_fallback pending (\<lambda>_. err) False c1
                   in if not_retryable err then (ExecError err, c2)
                      else if FallbackEnabled (cli_config c2) \<and> n > 0
                      then case try_fallback ops rops cx (at_pick a) reqCtx err prov deployment c2 of
                             None \<Rightarrow> (ExecPanic, c2)
                           | Some (prov', deployment', pending', c3) \<Rightarrow>
                               retry_loop ops rops est estC env cx reqCtx req (Suc attempt) n prov' deployment'
                                 pending' (ExecError err) c3
                      else retry_loop ops rops est estC env cx reqCtx req (Suc attempt) n prov deployment
                             None (ExecError err) c2)))"

definition executeWithRetry ::
  "'s StatsStore \<Rightarrow> 'c RoundRobinStore \<Rightarrow> (string \<Rightarrow> ChatRequest \<Rightarrow> int) \<Rightarrow> (string \<Rightarrow> ChatResponse \<Rightarrow> int) \<Rightarrow>
   (nat \<Rightarrow> 'p attempt) \<Rightarrow> CallCtx \<Rightarrow> 'p \<Rightarrow> Deployment \<Rightarrow> ChatRequest \<Rightarrow> ('s, 'c, 'p) Client \<Rightarrow>
   exec_result \<times> ('s, 'c, 'p) Client" where
  "executeWithRetry ops rops est estC env cx prov deployment req c =
     (let promptTokens = est (canonical_model (cq_Model req)) req;
          reqCtx = buildRouterRequestContext req promptTokens (cq_Stream req)
      in retry_loop ops rops est estC env cx reqCtx req 0 (nat (RetryCount (cli_config c) + 1)) prov deployment
           None ExecNothing c)"

text \<open>Routing and execution of a request that neither a plugin nor the cache has answered.\<close>

definition route_and_execute ::
  "'s StatsStore \<Rightarrow> 'c RoundRobinStore \<Rightarrow> (string \<Rightarrow> ChatRequest \<Rightarrow> int) \<Rightarrow> (string \<Rightarrow> ChatResponse \<Rightarrow> int) \<Rightarrow>
   go_time \<Rightarrow> (nat \<Rightarrow> 'p attempt) \<Rightarrow> CallCtx \<Rightarrow> ChatRequest \<Rightarrow> ('s, 'c, 'p) Client \<Rightarrow> exec_result \<times> ('s, 'c, 'p) Client" where
  "route_and_execute ops rops est estC now env cx req c =
     (let promptEstimate = est (canonical_model (cq_Model req)) req;
          reqCtx = buildRouterRequestContext req promptEstimate (cq_Stream req)
      in case router_Pick ops rops (cx_scope cx) now reqCtx (cli_router c) of
           (Inl PickPanic, r) \<Rightarrow> (ExecPanic, c\<lparr>cli_router := r\<rparr>)
         | (Inl err, r) \<Rightarrow>
             (ExecError (WrappedErr (''no available deployment for model '' @ cq_Model req)
                (PlainErr (if err = ErrNoDeploymentsWithTag then ''no deployments match the requested tags''
                           else ''no available deployment for model''))), c\<lparr>cli_router := r\<rparr>)
         | (Inr deployment, r) \<Rightarrow>
             (case cli_providers c (dep_ProviderName deployment) of
                None \<Rightarrow> (ExecError (PlainErr (''provider '' @ dep_ProviderName deployment @ '' not found'')),
                         c\<lparr>cli_router := r\<rparr>)
              | Some prov \<Rightarrow>
                  executeWithRetry ops rops est estC env cx prov deployment req (c\<lparr>cli_router := r\<rparr>)))"

definition CalculateCost :: "string \<Rightarrow> Usage option \<Rightarrow> ('s, 'c, 'p) Client \<Rightarrow> float64" where
  "CalculateCost model usage c =
     (case (usage, cli_pricing c) of
        (Some u, Some reg) \<Rightarrow>
          (case GetPrice model (us_Provider u) reg of
             None \<Rightarrow> 0
           | Some price \<Rightarrow> of_int (us_PromptTokens u) * mp_InputCostPerToken price +
                           of_int (us_CompletionTokens u) * mp_OutputCostPerToken price)
      | _ \<Rightarrow> 0)"

end
