(* ===== verification/Client_Properties.thy ===== *)
theory Client_Properties
  imports Client_Core Router_Properties
begin

text \<open>
  What the execution of a request guarantees: the back-off is the capped exponential, the loop
  ends after the configured number of exchanges, permits and active-request counters return to
  where they were, and what the picks of an authenticated request do not see.
\<close>

section \<open>Back-off\<close>

lemma wrap64_over: "2 ^ 63 \<le> i \<Longrightarrow> i < 2 ^ 64 \<Longrightarrow> wrap64 i < 0"
proof -
  assume i: "2 ^ 63 \<le> i" "i < 2 ^ 64"
  have "(i + 2 ^ 63) mod 2 ^ 64 = ((i - 2 ^ 63) + 2 ^ 64) mod 2 ^ 64" by (simp add: add.commute)
  also have "\<dots> = (i - 2 ^ 63) mod 2 ^ 64" by (rule mod_add_self2)
  also have "\<dots> = i - 2 ^ 63" using i by (intro mod_pos_pos_trivial) simp_all
  finally show ?thesis using i by (simp add: wrap64_def)
qed

lemma backoff_doubled_props:
  "0 < b \<Longrightarrow> b < 2 ^ 63 \<Longrightarrow>
   b \<le> backoff_doubled n b \<and> backoff_doubled n b < 2 ^ 63 \<and> backoff_doubled n b \<le> b * 2 ^ n \<and>
   (backoff_doubled n b = b * 2 ^ n \<or> 2 ^ 62 \<le> backoff_doubled n b)"
proof (induction n arbitrary: b)
  case (Suc n)
  show ?case
  proof (cases "b * 2 < 2 ^ 63")
    case True
    then have "wrap64 (b * 2) = b * 2" using Suc.prems by (intro wrap64_small) simp_all
    then have "backoff_doubled (Suc n) b = backoff_doubled n (b * 2)" using Suc.prems by simp
    then show ?thesis using Suc.IH [of "b * 2"] Suc.prems True by (auto simp: algebra_simps)
  next
    case False
    then have "wrap64 (b * 2) < b" using wrap64_over [of "b * 2"] Suc.prems by simp
    then have "backoff_doubled (Suc n) b = b" by simp
    moreover have "b \<le> b * 2 ^ Suc n"
      using Suc.prems mult_left_mono [of 1 "2 ^ Suc n" b] one_le_power [of "2 :: int" "Suc n"] by simp
    ultimately show ?thesis using Suc.prems False by simp
  qed
qed simp

lemma jitter_bounds:
  fixes b :: int and j x :: real
  assumes "0 < b" and "0 < j" "j \<le> 1" and "0 \<le> x" "x < 1"
    and w: "w = \<lfloor>of_int b * (1 - j + x * (1 + j - (1 - j)))\<rfloor>"
  shows "of_int b * (1 - j) - 1 < of_int w" and "of_int w \<le> of_int b * (1 + j)" and "0 \<le> w"
proof -
  have "1 - j \<le> 1 - j + x * (1 + j - (1 - j))" "1 - j + x * (1 + j - (1 - j)) \<le> 1 + j"
    using assms(2-5) mult_left_le_one_le [of "2 * j" x] by (simp_all add: algebra_simps)
  then have "of_int b * (1 - j) \<le> of_int b * (1 - j + x * (1 + j - (1 - j)))"
    "of_int b * (1 - j + x * (1 + j - (1 - j))) \<le> of_int b * (1 + j)"
    using assms(1) by (simp_all add: mult_left_mono)
  then show le: "of_int b * (1 - j) - 1 < of_int w" "of_int w \<le> of_int b * (1 + j)"
    unfolding w by linarith+
  have "0 \<le> of_int b * (1 - j)" using assms(1,3) by simp
  then show "0 \<le> w" using le(1) by linarith
qed

text \<open>
  \<^bold>\<open>C39\<close>. The wait before a retry is the exponential one, capped and jittered: with a positive
  base and a cap below 2 to the 62 nanoseconds, it lies within the jitter of the smaller of base
  times 2 to the (attempt - 1) and the cap, it is never above the cap and never negative. The
  doubling may wrap around its 64 bits on the way; the result does not.
\<close>

theorem retry_backoff_capped_exponential:
  assumes "0 < attempt" and "0 < RetryBackoff cfg" and "RetryBackoff cfg < 2 ^ 63"
    and "0 < RetryMaxBackoff cfg" and "RetryMaxBackoff cfg < 2 ^ 62"
  shows "let ideal = min (RetryBackoff cfg * 2 ^ nat (attempt - 1)) (RetryMaxBackoff cfg);
             jitter = max 0 (min 1 (RetryJitter cfg));
             wait = fst (retryBackoff cfg attempt g)
         in 0 \<le> wait \<and> wait \<le> RetryMaxBackoff cfg \<and>
            of_int ideal * (1 - jitter) - 1 < of_int wait \<and> of_int wait \<le> of_int ideal * (1 + jitter)"
proof -
  let ?b0 = "backoff_doubled (nat (attempt - 1)) (RetryBackoff cfg)"
  let ?ideal = "min (RetryBackoff cfg * 2 ^ nat (attempt - 1)) (RetryMaxBackoff cfg)"
  define b where "b = (if RetryMaxBackoff cfg > 0 \<and> ?b0 > RetryMaxBackoff cfg then RetryMaxBackoff cfg else ?b0)"
  have b: "b = ?ideal" "0 < b" "b \<le> RetryMaxBackoff cfg"
    using backoff_doubled_props [OF assms(2,3), of "nat (attempt - 1)"] assms(2-5) by (auto simp: b_def min_def)
  show ?thesis
  proof (cases "RetryJitter cfg > 0")
    case False
    then have "fst (retryBackoff cfg attempt g) = b"
      using assms(1,2) by (simp add: retryBackoff_def b_def Let_def)
    then show ?thesis using False b by (simp add: Let_def max_def min_def)
  next
    case True
    define j where "j = (if RetryJitter cfg > 1 then 1 else RetryJitter cfg)"
    obtain x g' where x: "randFloat64 g = (x, g')" by fastforce
    define w where "w = \<lfloor>of_int b * (1 - j + x * (1 + j - (1 - j)))\<rfloor>"
    have x01: "0 \<le> x" "x < 1" using randFloat64_bounds [OF x] by simp_all
    have j: "0 < j" "j \<le> 1" "max 0 (min 1 (RetryJitter cfg)) = j" using True by (auto simp: j_def max_def min_def)
    have wait: "fst (retryBackoff cfg attempt g) =
        (if RetryMaxBackoff cfg > 0 \<and> w > RetryMaxBackoff cfg then RetryMaxBackoff cfg else w)"
      using assms(1,2) True b(2) x unfolding retryBackoff_def Let_def b_def [symmetric] j_def [symmetric] w_def
      by simp
    note w = jitter_bounds [OF b(2) j(1,2) x01 w_def]
    have "of_int b * (1 - j) \<le> of_int (RetryMaxBackoff cfg)"
    proof -
      have "of_int b * (1 - j) \<le> of_int b * (1 :: real)" using b(2) j(1) by (intro mult_left_mono) simp_all
      also have "\<dots> \<le> of_int (RetryMaxBackoff cfg)" using b(3) by simp
      finally show ?thesis .
    qed
    moreover have "real_of_int b \<le> of_int b * (1 + j)" using b(2) j(1) by simp
    ultimately show ?thesis
      using w b(3) assms(4) unfolding b(1) [symmetric] j(3) wait Let_def by auto
  qed
qed

theorem retry_backoff_capped_exponential_witness:
  "fst (retryBackoff (defaultConfig\<lparr>RetryJitter := 0, RetryMaxBackoff := 3 * second\<rparr>) 2 no_draws) = 2 * second"
  using retry_backoff_capped_exponential [of 2 "defaultConfig\<lparr>RetryJitter := 0, RetryMaxBackoff := 3 * second\<rparr>" no_draws]
  by (simp add: defaultConfig_def Let_def)

section \<open>Permits and active requests\<close>

text \<open>
  The permits of a provider in use, and the active requests counted under a key of the local
  statistics.
\<close>

definition permits :: "('s, 'c, 'p) Client \<Rightarrow> string \<Rightarrow> int" where
  "permits c p =
     (case cli_manager c of
        None \<Rightarrow> 0
      | Some m \<Rightarrow> (case semaphores m p of None \<Rightarrow> 0 | Some s \<Rightarrow> sem_current s))"

definition active_at :: "'s BaseRouter \<Rightarrow> string \<Rightarrow> int" where
  "active_at r k = (case br_stats r k of None \<Rightarrow> 0 | Some st \<Rightarrow> ActiveRequests st)"

text \<open>
  The counters are not negative and nobody waits for a permit: the client only ever calls
  \<open>TryAcquire\<close>.
\<close>

definition sound_client :: "('s, 'c, 'p) Client \<Rightarrow> bool" where
  "sound_client c \<longleftrightarrow>
     br_statsStore (router_base (cli_router c)) = None \<and>
     (\<forall>k. 0 \<le> active_at (router_base (cli_router c)) k) \<and>
     (\<forall>m p s. cli_manager c = Some m \<longrightarrow> semaphores m p = Some s \<longrightarrow> sem_waiters s = [] \<and> 0 \<le> sem_current s)"

definition balanced :: "('s, 'c, 'p) Client \<Rightarrow> ('s, 'c, 'p) Client \<Rightarrow> bool" where
  "balanced c c' \<longleftrightarrow>
     sound_client c' \<and> permits c' = permits c \<and>
     active_at (router_base (cli_router c')) = active_at (router_base (cli_router c))"

lemma newStatsEntry_active [simp]: "ActiveRequests (newStatsEntry cfg) = 0"
  by (simp add: newStatsEntry_def DeploymentStats.defs statsEntry.defs zero_stats_def)

lemma entry_active [simp]:
  "ActiveRequests (recordWindow now ok st) = ActiveRequests st"
  "ActiveRequests (updateUsageStats now tokens st) = ActiveRequests st"
  by (simp_all add: recordWindow_def updateUsageStats_def Let_def)

lemma success_entry_active [simp]: "ActiveRequests (success_entry cfg metrics now now2 st) = ActiveRequests st"
  by (simp add: success_entry_def recordWindowSuccess_def Let_def)

lemma failure_entry_active [simp]: "ActiveRequests (snd (failure_entry cfg single err now now2 st)) = ActiveRequests st"
  by (simp add: failure_entry_def recordWindowFailure_def Let_def split: option.split)

lemma active_put:
  "active_at (putStats k st r) = (active_at r)(k := ActiveRequests st)"
  "active_at (r\<lparr>br_metrics := ms\<rparr>) = active_at r" "active_at (r\<lparr>br_rng := g\<rparr>) = active_at r"
  by (auto simp: active_at_def putStats_def)

lemma active_getOrCreate: "ActiveRequests (getOrCreateStats k r) = active_at r k"
  by (simp add: getOrCreateStats_def active_at_def split: option.split)

lemma putStats_fields [simp]:
  "br_statsStore (putStats k st r) = br_statsStore r" "br_metrics (putStats k st r) = br_metrics r"
  by (simp_all add: putStats_def)

lemma ReportRequestStart_local:
  assumes "br_statsStore r = None"
  shows "br_statsStore (ReportRequestStart ops ctx d r) = None"
    and "active_at (ReportRequestStart ops ctx d r) =
      (active_at r)(localStatsKey ctx (dep_ID d) := active_at r (localStatsKey ctx (dep_ID d)) + 1)"
  using assms by (simp_all add: ReportRequestStart_def active_put active_getOrCreate Let_def)

lemma ReportRequestEnd_local:
  assumes "br_statsStore r = None"
  shows "br_statsStore (ReportRequestEnd ops ctx d r) = None"
    and "active_at (ReportRequestEnd ops ctx d r) =
      (active_at r)(localStatsKey ctx (dep_ID d) :=
         if active_at r (localStatsKey ctx (dep_ID d)) > 0
         then active_at r (localStatsKey ctx (dep_ID d)) - 1 else active_at r (localStatsKey ctx (dep_ID d)))"
  using assms by (simp_all add: ReportRequestEnd_def active_put active_getOrCreate Let_def if_distrib [of ActiveRequests])

lemma ReportSuccess_local:
  assumes "br_statsStore r = None"
  shows "br_statsStore (ReportSuccess ops ctx now now2 d ms r) = None"
    and "active_at (ReportSuccess ops ctx now now2 d ms r) = active_at r"
  using assms by (simp_all add: ReportSuccess_def active_put active_getOrCreate Let_def)

lemma ReportFailure_active:
  assumes "br_statsStore r = None"
  shows "br_statsStore (ReportFailure ops ctx now now2 now3 d err r) = None"
    and "active_at (ReportFailure ops ctx now now2 now3 d err r) = active_at r"
  using ReportFailure_local [OF assms, of ops ctx now now2 now3 d err] assms
  by (auto simp: active_put active_getOrCreate)

text \<open>A bracket of a start, a report that leaves the counters alone, and an end.\<close>

lemma on_router_fields [simp]:
  "router_base (cli_router (on_router f c)) = f (router_base (cli_router c))"
  "cli_manager (on_router f c) = cli_manager c" "cli_providers (on_router f c) = cli_providers c"
  "cli_config (on_router f c) = cli_config c" "cli_pricing (on_router f c) = cli_pricing c"
  by (simp_all add: on_router_def)

lemma finish_exchange_frame:
  assumes "br_statsStore (router_base (cli_router c)) = None"
  shows "br_statsStore (router_base (cli_router (snd (finish_exchange ops est estC a ctx d req x c)))) = None"
    and "active_at (router_base (cli_router (snd (finish_exchange ops est estC a ctx d req x c)))) =
      active_at (router_base (cli_router c))"
    and "cli_manager (snd (finish_exchange ops est estC a ctx d req x c)) = cli_manager c"
  using assms
  by (cases x; simp add: finish_exchange_def ReportFailure_active ReportSuccess_local Let_def split: prod.split sum.split)+

lemma bracket_active:
  assumes r: "br_statsStore r = None" "0 \<le> active_at r (localStatsKey ctx (dep_ID d))"
    and r2: "br_statsStore r2 = None" "active_at r2 = active_at (ReportRequestStart ops ctx d r)"
  shows "active_at (ReportRequestEnd ops ctx d r2) = active_at r"
  unfolding ReportRequestEnd_local(2) [OF r2(1)] r2(2) ReportRequestStart_local(2) [OF r(1)]
  using r(2) by (intro ext) simp

text \<open>Taking and returning a permit.\<close>

lemma GetSemaphore_sound:
  assumes "sound_client c" and "cli_manager c = Some m" and "GetSemaphore p cap m = (s, m1)"
  shows "sem_waiters s = []" and "0 \<le> sem_current s" and "sem_current s = permits c p"
    and "\<And>p'. p' \<noteq> p \<Longrightarrow> semaphores m1 p' = semaphores m p'"
  using assms by (auto simp: GetSemaphore_def sound_client_def permits_def NewSemaphore_def Let_def
      split: option.splits)

lemma permits_restored:
  assumes "sound_client c" and m: "cli_manager c = Some m" "GetSemaphore p cap m = (s, m1)"
    and c': "cli_manager c' = Some (m1\<lparr>semaphores := (semaphores m1)(p \<mapsto> s)\<rparr>)"
  shows "permits c' = permits c"
    and "\<forall>m p s. cli_manager c' = Some m \<longrightarrow> semaphores m p = Some s \<longrightarrow> sem_waiters s = [] \<and> 0 \<le> sem_current s"
proof -
  note s = GetSemaphore_sound [OF assms(1) m]
  show "permits c' = permits c"
  proof
    fix p' show "permits c' p' = permits c p'"
      using s(3,4) m(1) c' by (cases "p' = p") (simp_all add: permits_def)
  qed
  show "\<forall>m p s. cli_manager c' = Some m \<longrightarrow> semaphores m p = Some s \<longrightarrow> sem_waiters s = [] \<and> 0 \<le> sem_current s"
    using s assms(1) m(1) c' by (auto simp: sound_client_def split: if_splits)
qed

lemma acquire_release:
  assumes snd': "sound_client c" and acq: "acquireDeployment e d c = (Inr permit, c1)"
    and c2: "cli_manager c2 = cli_manager c1"
  shows "permits (releaseDeployment permit d c2) = permits c"
    and "\<forall>m p s. cli_manager (releaseDeployment permit d c2) = Some m \<longrightarrow> semaphores m p = Some s \<longrightarrow>
      sem_waiters s = [] \<and> 0 \<le> sem_current s"
    and "cli_router c1 = cli_router c"
proof -
  have "permits (releaseDeployment permit d c2) = permits c \<and>
    (\<forall>m p s. cli_manager (releaseDeployment permit d c2) = Some m \<longrightarrow> semaphores m p = Some s \<longrightarrow>
      sem_waiters s = [] \<and> 0 \<le> sem_current s) \<and> cli_router c1 = cli_router c"
  proof (cases permit)
    case False
    then have "c1 = c" using acq
      by (auto simp: acquireDeployment_def Let_def split: option.splits if_splits prod.splits)
    then show ?thesis using False snd' c2 by (auto simp: releaseDeployment_def permits_def sound_client_def)
  next
    case True
    then obtain m s m1 s' where m: "cli_manager c = Some m" "dep_MaxConcurrent d > 0"
      "GetSemaphore (dep_ProviderName d) (dep_MaxConcurrent d) m = (s, m1)" "sem_TryAcquire s = (True, s')"
      "c1 = c\<lparr>cli_manager := Some (m1\<lparr>semaphores := (semaphores m1)(dep_ProviderName d \<mapsto> s')\<rparr>)\<rparr>"
      using acq by (auto simp: acquireDeployment_def Let_def split: option.splits if_splits prod.splits)
    note s = GetSemaphore_sound [OF snd' m(1,3)]
    have "s' = s\<lparr>sem_current := sem_current s + 1\<rparr>"
      using m(4) by (simp add: sem_TryAcquire_def split: if_splits)
    then have "sem_Release s' = (None, s)" using s by (simp add: sem_Release_def)
    then have "cli_manager (releaseDeployment permit d c2) =
        Some (m1\<lparr>semaphores := (semaphores m1)(dep_ProviderName d \<mapsto> s)\<rparr>)"
      using True m(2) by (simp add: releaseDeployment_def c2 m(5) mgr_Release_def)
    from permits_restored [OF snd' m(1,3) this] show ?thesis using m(5) by simp
  qed
  then show "permits (releaseDeployment permit d c2) = permits c"
    "\<forall>m p s. cli_manager (releaseDeployment permit d c2) = Some m \<longrightarrow> semaphores m p = Some s \<longrightarrow>
      sem_waiters s = [] \<and> 0 \<le> sem_current s" "cli_router c1 = cli_router c" by blast+
qed

lemma balanced_refl [simp]: "sound_client c \<Longrightarrow> balanced c c"
  by (simp add: balanced_def)

lemma balanced_trans: "balanced c c1 \<Longrightarrow> balanced c1 c2 \<Longrightarrow> balanced c c2"
  by (simp add: balanced_def)

lemma balanced_sound: "balanced c c' \<Longrightarrow> sound_client c'"
  by (simp add: balanced_def)

lemma acquire_fails:
  assumes "sound_client c" and "acquireDeployment e d c = (Inl err, c1)"
  shows "balanced c c1"
proof -
  have "c1 = c \<or> (\<exists>m s m1. cli_manager c = Some m \<and>
      GetSemaphore (dep_ProviderName d) (dep_MaxConcurrent d) m = (s, m1) \<and>
      c1 = c\<lparr>cli_manager := Some (m1\<lparr>semaphores := (semaphores m1)(dep_ProviderName d \<mapsto> s)\<rparr>)\<rparr>)"
    using assms(2) by (auto simp: acquireDeployment_def Let_def sem_TryAcquire_def
        split: option.splits if_splits prod.splits)
  then show ?thesis
  proof (elim disjE exE conjE)
    fix m s m1
    assume m: "cli_manager c = Some m" "GetSemaphore (dep_ProviderName d) (dep_MaxConcurrent d) m = (s, m1)"
      and c1: "c1 = c\<lparr>cli_manager := Some (m1\<lparr>semaphores := (semaphores m1)(dep_ProviderName d \<mapsto> s)\<rparr>)\<rparr>"
    then have "cli_manager c1 = Some (m1\<lparr>semaphores := (semaphores m1)(dep_ProviderName d \<mapsto> s)\<rparr>)" by simp
    from permits_restored [OF assms(1) m this] show ?thesis
      using assms(1) c1 by (simp add: balanced_def sound_client_def)
  qed (use assms(1) in simp)
qed

lemma executeOnce_balanced:
  assumes snd': "sound_client c"
  shows "balanced c (snd (executeOnce ops est estC a cx prov d req c))"
proof (cases "validatePricing (canonical_model (cq_Model req)) (dep_ProviderName d) c")
  case (Some err)
  then show ?thesis using snd' by (simp add: executeOnce_def)
next
  case price: None
  let ?ctx = "cx_scope (withTenantScope cx)" and ?x = "at_exchange a prov d (sanitizeChatRequestForProvider req)"
  obtain res c1 where acq: "acquireDeployment (at_ctxErr a) d c = (res, c1)" by fastforce
  show ?thesis
  proof (cases res)
    case (Inl err)
    then show ?thesis using acquire_fails [OF snd', of "at_ctxErr a" d err c1] acq price by (simp add: executeOnce_def)
  next
    case (Inr permit)
    note rel = acquire_release [OF snd' acq [unfolded Inr]]
    let ?f = "\<lambda>c. snd (finish_exchange ops est estC a ?ctx d req ?x c)"
    let ?c2 = "on_router (ReportRequestStart ops ?ctx d) c1"
    let ?c4 = "on_router (ReportRequestEnd ops ?ctx d) (?f ?c2)"
    have r: "br_statsStore (router_base (cli_router c1)) = None"
      "0 \<le> active_at (router_base (cli_router c1)) (localStatsKey ?ctx (dep_ID d))"
      "active_at (router_base (cli_router c1)) = active_at (router_base (cli_router c))"
      using snd' rel(3) [OF refl] by (simp_all add: sound_client_def)
    have f: "br_statsStore (router_base (cli_router (?f ?c2))) = None"
      "active_at (router_base (cli_router (?f ?c2))) = active_at (ReportRequestStart ops ?ctx d (router_base (cli_router c1)))"
      "cli_manager (?f ?c2) = cli_manager c1"
      using finish_exchange_frame [of ?c2] ReportRequestStart_local(1) [OF r(1)] by simp_all
    have bal: "br_statsStore (router_base (cli_router ?c4)) = None"
      "active_at (router_base (cli_router ?c4)) = active_at (router_base (cli_router c1))"
      using ReportRequestEnd_local(1) [OF f(1)] bracket_active [OF r(1,2) f(1,2)] by simp_all
    have fin: "balanced c (releaseDeployment permit d c')"
      if "cli_manager c' = cli_manager c1" "br_statsStore (router_base (cli_router c')) = None"
        "active_at (router_base (cli_router c')) = active_at (router_base (cli_router c1))" for c'
    proof -
      have "cli_router (releaseDeployment permit d c') = cli_router c'" by (simp add: releaseDeployment_def)
      then show ?thesis
        using rel(1,2) [OF that(1)] that r(3) snd' unfolding balanced_def sound_client_def by simp
    qed
    show ?thesis
      using price acq Inr fin [of c1] fin [of ?c4] r(1) bal f(3)
      by (cases ?x) (simp_all add: executeOnce_def Let_def split_beta)
  qed
qed

lemma balanced_frame:
  assumes "sound_client c" and "cli_manager c' = cli_manager c"
    and "\<exists>g. router_base (cli_router c') = (router_base (cli_router c))\<lparr>br_rng := g\<rparr>"
  shows "balanced c c'"
  using assms by (auto simp: balanced_def sound_client_def permits_def active_put)

lemma settle_fallback_fields [simp]:
  "cli_manager (settle_fallback pending err ok c) = cli_manager c"
  "cli_router (settle_fallback pending err ok c) = cli_router c"
  "cli_config (settle_fallback pending err ok c) = cli_config c"
  by (simp_all add: settle_fallback_def reportFallback_def split: option.split)

lemma try_fallback_frame:
  assumes "try_fallback ops rops cx now q err prov d c = Some (prov', d', pending, c')"
  shows "\<exists>res. router_Pick ops rops (cx_scope cx) now q (cli_router c) = (res, cli_router c') \<and>
    c' = c\<lparr>cli_router := cli_router c'\<rparr>"
  using assms by (auto simp: try_fallback_def split: prod.splits sum.splits pick_error.splits if_splits)

text \<open>
  The loop is a sequence of steps of four kinds; what holds of every step and is transitive holds
  of the loop.
\<close>

lemma retry_loop_rule:
  assumes refl: "\<And>c. P c \<Longrightarrow> Q 0 c c"
    and trans: "\<And>m n c c1 c2. Q m c c1 \<Longrightarrow> Q n c1 c2 \<Longrightarrow> Q (m + n) c c2"
    and keep: "\<And>n c c'. P c \<Longrightarrow> Q n c c' \<Longrightarrow> P c'"
    and rng: "\<And>c g. P c \<Longrightarrow> Q 0 c (c\<lparr>cli_rng := g\<rparr>)"
    and once: "\<And>k c prov d. P c \<Longrightarrow> Q 1 c (snd (executeOnce ops est estC (env k) cx prov d req c))"
    and settle: "\<And>c pending err ok. P c \<Longrightarrow> Q 0 c (settle_fallback pending err ok c)"
    and fallback: "\<And>c now err prov d prov' d' pending c'. P c \<Longrightarrow>
      try_fallback ops rops cx now q err prov d c = Some (prov', d', pending, c') \<Longrightarrow> Q 0 c c'"
    and mono: "\<And>m n c c'. Q m c c' \<Longrightarrow> m \<le> n \<Longrightarrow> Q n c c'"
  shows "P c \<Longrightarrow> Q n c (snd (retry_loop ops rops est estC env cx q req k n prov d pending last' c))"
proof (induction n arbitrary: k prov d pending last' c)
  case 0
  then show ?case by (simp add: refl)
next
  case (Suc n)
  obtain b g where bk: "(if k > 0 then retryBackoff (cli_config c) (int k) (cli_rng c) else (0, cli_rng c)) = (b, g)"
    by fastforce
  define c0 where "c0 = c\<lparr>cli_rng := g\<rparr>"
  obtain res c1 where ex: "executeOnce ops est estC (env k) cx prov d req c0 = (res, c1)" by fastforce
  have q0: "Q 0 c c0" using rng [OF Suc.prems] by (simp add: c0_def)
  have q1: "Q 1 c c1"
    using trans [OF q0 once [OF keep [OF Suc.prems q0], of k prov d]] by (simp add: ex)
  have q2: "Q 1 c (settle_fallback pending err ok c1)" for err ok
    using trans [OF q1 settle [OF keep [OF Suc.prems q1]]] by simp
  have done': "Q (Suc n) c c'" if "Q m c c'" "m \<le> 1" for m c' using mono [OF that(1), of "Suc n"] that(2) by simp
  have loop: "Q (Suc n) c (snd (retry_loop ops rops est estC env cx q req (Suc k) n prov' d' pending' l c'))"
    if "Q 1 c c'" for prov' d' pending' l c'
    using trans [OF that Suc.IH [OF keep [OF Suc.prems that]]] by simp
  have fb: "Q 1 c c'"
    if "try_fallback ops rops cx now q err prov d (settle_fallback pending e ok c1) = Some (prov', d', pending', c')"
    for now err e ok prov' d' pending' c'
    using trans [OF q2 fallback [OF keep [OF Suc.prems q2] that]] by simp
  show ?case
  proof (cases "if k > 0 then at_cancelled (env k) else None")
    case (Some err)
    then have "retry_loop ops rops est estC env cx q req k (Suc n) prov d pending last' c = (ExecError err, c0)"
      by (simp only: retry_loop.simps Let_def prod.case bk c0_def option.simps)
    then show ?thesis using done' [OF q0] by simp
  next
    case None
    let ?next = "\<lambda>err. let c2 = settle_fallback pending (\<lambda>_. err) False c1
       in if not_retryable err then (ExecError err, c2)
          else if FallbackEnabled (cli_config c2) \<and> n > 0
          then case try_fallback ops rops cx (at_pick (env k)) q err prov d c2 of
                 None \<Rightarrow> (ExecPanic, c2)
               | Some (prov', deployment', pending', c3) \<Rightarrow>
                   retry_loop ops rops est estC env cx q req (Suc k) n prov' deployment' pending' (ExecError err) c3
          else retry_loop ops rops est estC env cx q req (Suc k) n prov d None (ExecError err) c2"
    have "retry_loop ops rops est estC env cx q req k (Suc n) prov d pending last' c =
        (case res of Inr resp \<Rightarrow> (ExecResponse resp, settle_fallback pending fa_err True c1) | Inl err \<Rightarrow> ?next err)"
      using None by (simp only: retry_loop.simps Let_def prod.case bk option.simps ex [unfolded c0_def])
    then show ?thesis
      using done' [OF q2] loop [OF q2] loop [OF fb]
      by (cases res) (simp_all add: Let_def split: option.split prod.split)
  qed
qed

lemma router_Pick_frame:
  assumes "router_Pick ops rops ctx now q r = (res, r')"
  shows "\<exists>g. router_base r' = (router_base r)\<lparr>br_rng := g\<rparr>"
  by (rule any_strat.pick_frame [OF assms])

lemma retry_loop_balanced:
  assumes "sound_client c"
  shows "balanced c (snd (retry_loop ops rops est estC env cx q req k n prov d pending last' c))"
proof (rule retry_loop_rule [where P = sound_client and Q = "\<lambda>_. balanced", OF _ _ _ _ _ _ _ _ assms], goal_cases)
  case (7 c now err prov d prov' d' pending c')
  from try_fallback_frame [OF 7(2)] obtain res where
    r: "router_Pick ops rops (cx_scope cx) now q (cli_router c) = (res, cli_router c')"
    and c': "c' = c\<lparr>cli_router := cli_router c'\<rparr>" by blast
  show ?case
    using balanced_frame [OF 7(1)] router_Pick_frame [OF r] arg_cong [OF c', of cli_manager] by simp
next
  case (4 c g)
  then show ?case by (intro balanced_frame) (simp_all add: rng_self)
next
  case (6 c pending err ok)
  then show ?case by (intro balanced_frame) (simp_all add: rng_self)
qed (blast intro: balanced_refl balanced_trans balanced_sound executeOnce_balanced)+


definition demo_client :: "(MemoryStatsStore, MemoryRoundRobinStore, unit) Client" where
  "demo_client =
     \<lparr>cli_providers = (\<lambda>_. Some ()), cli_router = ShuffleRouter two_deployments, cli_config = defaultConfig,
      cli_pricing = None, cli_manager = Some (NewManager DefaultManagerConfig), cli_hasReporter = False,
      cli_fallbacks = [], cli_rng = no_draws\<rparr>"

text \<open>Every attempt gets a 429.\<close>

definition busy_provider :: "nat \<Rightarrow> unit attempt" where
  "busy_provider k =
     \<lparr>at_exchange = (\<lambda>_ _ _. Replied 429 (err_status 429) (Inl (err_status 429))), at_start = 10, at_done = 20,
      at_report = (20, 21, 22), at_pick = 23, at_cancelled = None, at_ctxErr = None\<rparr>"

definition demo_request :: ChatRequest where
  "demo_request =
     \<lparr>cq_Model = ''gpt'', cq_Messages = [''hi''], cq_Stream = False, cq_MaxTokens = 0,
      cq_Temperature = None, cq_TopP = None, cq_N = 0, cq_Stop = [], cq_PresencePenalty = None,
      cq_FrequencyPenalty = None, cq_User = [], cq_Tools = [], cq_ToolChoice = [], cq_ResponseFormat = None,
      cq_StreamOptions = None, cq_Tags = [], cq_Extra = fmempty\<rparr>"

lemma demo_client_sound: "sound_client demo_client"
  by (simp add: sound_client_def demo_client_def active_at_def two_deployments_fields NewManager_def)


section \<open>The number of attempts\<close>

text \<open>The exchanges that were started, as the active-request metric counts them.\<close>

definition starts :: "('s, 'c, 'p) Client \<Rightarrow> nat" where
  "starts c = length (filter (\<lambda>e. case e of RecordActiveRequest _ _ _ n \<Rightarrow> n = 1 | _ \<Rightarrow> False)
     (br_metrics (router_base (cli_router c))))"

lemma recordCooldownMetric_starts:
  "filter (\<lambda>e. case e of RecordActiveRequest _ _ _ n \<Rightarrow> n = 1 | _ \<Rightarrow> False)
     (br_metrics (recordCooldownMetric now d before after r)) =
   filter (\<lambda>e. case e of RecordActiveRequest _ _ _ n \<Rightarrow> n = 1 | _ \<Rightarrow> False) (br_metrics r)"
  by (simp add: recordCooldownMetric_def split: option.split)

lemma starts_reports [simp]:
  "starts (on_router (ReportRequestStart ops ctx d) c) = Suc (starts c)"
  "starts (on_router (ReportRequestEnd ops ctx d) c) = starts c"
  "starts (on_router (ReportSuccess ops ctx now now2 d ms) c) = starts c"
  "starts (on_router (ReportFailure ops ctx now now2 now3 d err) c) = starts c"
  by (simp_all add: starts_def ReportRequestStart_def ReportRequestEnd_def ReportSuccess_def ReportFailure_def
      recordCooldownMetric_starts Let_def split: option.split prod.split)

lemma starts_frame:
  "starts (releaseDeployment permit d c) = starts c"
  "acquireDeployment e d c = (res, c1) \<Longrightarrow> starts c1 = starts c"
  "starts (snd (finish_exchange ops est estC a ctx d req x c)) = starts c"
proof -
  show "starts (releaseDeployment permit d c) = starts c" by (simp add: releaseDeployment_def starts_def)
  show "starts c1 = starts c" if "acquireDeployment e d c = (res, c1)"
    using that by (auto simp: acquireDeployment_def starts_def Let_def split: option.splits if_splits prod.splits)
  show "starts (snd (finish_exchange ops est estC a ctx d req x c)) = starts c"
    by (cases x) (simp_all add: finish_exchange_def Let_def split: prod.split sum.split)
qed

lemma executeOnce_starts: "starts (snd (executeOnce ops est estC a cx prov d req c)) \<le> Suc (starts c)"
proof -
  obtain res c1 where acq: "acquireDeployment (at_ctxErr a) d c = (res, c1)" by fastforce
  then show ?thesis
    using starts_frame(2) [OF acq] unfolding executeOnce_def
    by (cases res; cases "at_exchange a prov d (sanitizeChatRequestForProvider req)")
      (simp_all add: starts_frame Let_def split_beta split: option.split)
qed

lemma starts_router:
  assumes "cli_router c' = cli_router c \<or> (\<exists>g. router_base (cli_router c') = (router_base (cli_router c))\<lparr>br_rng := g\<rparr>)"
  shows "starts c' = starts c"
  using assms by (auto simp: starts_def)

lemma retry_loop_starts:
  "starts (snd (retry_loop ops rops est estC env cx q req k n prov d pending last' c)) \<le> starts c + n"
proof (rule retry_loop_rule [where P = "\<lambda>_. True" and Q = "\<lambda>n c c'. starts c' \<le> starts c + n"], goal_cases)
  case (7 c now err prov d prov' d' pending c')
  from try_fallback_frame [OF 7(2)] show ?case
    using router_Pick_frame starts_router [of c' c] by fastforce
next
  case (5 k c prov d)
  then show ?case using executeOnce_starts [of ops est estC "env k" cx prov d req c] by simp
qed (simp_all add: starts_def)

text \<open>
  \<^bold>\<open>C17\<close>. Retrying ends: a request starts at most one exchange with a provider per attempt, at
  most \<open>RetryCount + 1\<close> in all, and none if the retry count is negative, in which case the
  request ends with neither a response nor an error.
\<close>

theorem execution_attempts_bounded:
  "let (res, c') = executeWithRetry ops rops est estC env cx prov d req c
   in starts c' \<le> starts c + nat (RetryCount (cli_config c) + 1) \<and>
      (RetryCount (cli_config c) < 0 \<longrightarrow> res = ExecNothing \<and> c' = c)"
  using retry_loop_starts [of ops rops est estC env cx _ req 0 "nat (RetryCount (cli_config c) + 1)" prov d None
      ExecNothing c]
  by (auto simp: executeWithRetry_def split_beta Let_def)

theorem execution_attempts_bounded_witness:
  "fst (executeWithRetry memory_ops memory_rr_ops (\<lambda>_ _. 1) (\<lambda>_ _. 1) busy_provider
     \<lparr>cx_scope = [], cx_apiKey = None, cx_rateKey = []\<rparr> () (dep_named ''a'') demo_request
     (demo_client\<lparr>cli_config := defaultConfig\<lparr>RetryCount := - 1\<rparr>\<rparr>)) = ExecNothing"
  using execution_attempts_bounded [of memory_ops memory_rr_ops "\<lambda>_ _. 1" "\<lambda>_ _. 1" busy_provider
      "\<lparr>cx_scope = [], cx_apiKey = None, cx_rateKey = []\<rparr>" "()" "dep_named ''a''" demo_request
      "demo_client\<lparr>cli_config := defaultConfig\<lparr>RetryCount := - 1\<rparr>\<rparr>"]
  by (simp add: split_beta)

section \<open>The tenant of an execution\<close>

text \<open>
  In local mode an execution changes statistics only under the keys of the tenant that
  \<open>withTenantScope\<close> makes of the context; \<open>same_elsewhere K\<close> says so for the keys \<open>K\<close>.
\<close>

definition same_elsewhere :: "string set \<Rightarrow> ('s, 'c, 'p) Client \<Rightarrow> ('s, 'c, 'p) Client \<Rightarrow> bool" where
  "same_elsewhere K c c' \<longleftrightarrow>
     br_statsStore (router_base (cli_router c')) = None \<and>
     (\<forall>k. k \<notin> K \<longrightarrow> br_stats (router_base (cli_router c')) k = br_stats (router_base (cli_router c)) k)"

lemma same_elsewhere_trans: "same_elsewhere K c c1 \<Longrightarrow> same_elsewhere K c1 c2 \<Longrightarrow> same_elsewhere K c c2"
  by (simp add: same_elsewhere_def)

lemma same_elsewhere_local: "same_elsewhere K c c' \<Longrightarrow> br_statsStore (router_base (cli_router c')) = None"
  by (simp add: same_elsewhere_def)

lemma same_elsewhere_frame:
  assumes "br_statsStore (router_base (cli_router c)) = None"
    and "cli_router c' = cli_router c \<or> (\<exists>g. router_base (cli_router c') = (router_base (cli_router c))\<lparr>br_rng := g\<rparr>)"
  shows "same_elsewhere K c c'"
  using assms by (auto simp: same_elsewhere_def)

lemma reports_same_elsewhere:
  assumes "br_statsStore (router_base (cli_router c)) = None" and "localStatsKey ctx (dep_ID d) \<in> K"
  shows "same_elsewhere K c (on_router (ReportRequestStart ops ctx d) c)"
    and "same_elsewhere K c (on_router (ReportRequestEnd ops ctx d) c)"
    and "same_elsewhere K c (on_router (ReportSuccess ops ctx now now2 d ms) c)"
    and "same_elsewhere K c (on_router (ReportFailure ops ctx now now2 now3 d err) c)"
proof -
  show "same_elsewhere K c (on_router (ReportFailure ops ctx now now2 now3 d err) c)"
    using ReportFailure_local [OF assms(1), of ops ctx now now2 now3 d err] assms
    by (auto simp: same_elsewhere_def putStats_def)
qed (use assms in \<open>auto simp: same_elsewhere_def putStats_def ReportRequestStart_def ReportRequestEnd_def
    ReportSuccess_def Let_def\<close>)

lemma finish_exchange_elsewhere:
  assumes "br_statsStore (router_base (cli_router c)) = None" and "localStatsKey ctx (dep_ID d) \<in> K"
  shows "same_elsewhere K c (snd (finish_exchange ops est estC a ctx d req x c))"
  using reports_same_elsewhere [OF assms] same_elsewhere_frame [OF assms(1)]
  by (cases x) (simp_all add: finish_exchange_def Let_def split: prod.split sum.split)

lemma executeOnce_elsewhere:
  assumes "br_statsStore (router_base (cli_router c)) = None"
    and K: "localStatsKey (cx_scope (withTenantScope cx)) (dep_ID d) \<in> K"
  shows "same_elsewhere K c (snd (executeOnce ops est estC a cx prov d req c))"
proof -
  let ?ctx = "cx_scope (withTenantScope cx)"
  obtain res c1 where acq: "acquireDeployment (at_ctxErr a) d c = (res, c1)" by fastforce
  have r1: "cli_router c1 = cli_router c"
    using acq by (auto simp: acquireDeployment_def Let_def split: option.splits if_splits prod.splits)
  let ?c2 = "on_router (ReportRequestStart ops ?ctx d) c1"
  let ?c3 = "\<lambda>x. snd (finish_exchange ops est estC a ?ctx d req x ?c2)"
  have s1: "br_statsStore (router_base (cli_router c1)) = None" using assms(1) r1 by simp
  have s2: "same_elsewhere K c1 ?c2" by (rule reports_same_elsewhere(1) [OF s1 K])
  have s3: "same_elsewhere K c1 (?c3 x)" for x
    by (rule same_elsewhere_trans [OF s2 finish_exchange_elsewhere [OF same_elsewhere_local [OF s2] K]])
  have s4: "same_elsewhere K c1 (on_router (ReportRequestEnd ops ?ctx d) (?c3 x))" for x
    by (rule same_elsewhere_trans [OF s3 reports_same_elsewhere(2) [OF same_elsewhere_local [OF s3] K]])
  have fin: "same_elsewhere K c (releaseDeployment permit d c')" if "same_elsewhere K c1 c'" for permit c'
    using that r1 by (simp add: same_elsewhere_def releaseDeployment_def)
  have "same_elsewhere K c c" "same_elsewhere K c c1" "same_elsewhere K c1 c1"
    using assms(1) r1 by (simp_all add: same_elsewhere_frame)
  then show ?thesis
    using fin fin [OF s4] acq
    by (cases res; cases "at_exchange a prov d (sanitizeChatRequestForProvider req)")
      (simp_all add: executeOnce_def Let_def split_beta split: option.split)
qed

lemma retry_loop_elsewhere:
  assumes local: "br_statsStore (router_base (cli_router c)) = None"
    and K: "\<And>i. localStatsKey (cx_scope (withTenantScope cx)) i \<in> K"
  shows "same_elsewhere K c (snd (retry_loop ops rops est estC env cx q req k n prov d pending last' c))"
proof (rule retry_loop_rule [where P = "\<lambda>c. br_statsStore (router_base (cli_router c)) = None"
      and Q = "\<lambda>_. same_elsewhere K", OF _ _ _ _ _ _ _ _ local], goal_cases)
  case (2 m n c c1 c2)
  then show ?case by (rule same_elsewhere_trans)
next
  case (3 n c c')
  then show ?case by (simp add: same_elsewhere_local)
next
  case (5 k c prov d)
  then show ?case using K by (rule executeOnce_elsewhere)
next
  case (7 c now err prov d prov' d' pending c')
  from try_fallback_frame [OF 7(2)] show ?case
    using router_Pick_frame same_elsewhere_frame [OF 7(1)] by blast
qed (simp_all add: same_elsewhere_frame)

text \<open>
  \<^bold>\<open>C40\<close>. The requests of an authenticated caller whose context carries no tenant scope are
  picked without a scope, but what becomes of them is recorded under the id of the API key:
  in local mode the statistics that such picks consult are the same after the request as before
  it, whatever the attempts reported. So no failure of such a request rests a deployment for
  the next one. (Deployment ids that start with the key's id and a colon are the exception.)
\<close>

theorem execution_invisible_to_picks:
  assumes "br_statsStore (router_base (cli_router c)) = None"
    and "cx_scope cx = []" and "cx_apiKey cx = Some key" and "key \<noteq> []"
    and "take (length key + 1) i \<noteq> key @ '':''"
  shows "seen_stats ops (cx_scope cx)
      (router_base (cli_router (snd (executeWithRetry ops rops est estC env cx prov d req c)))) i =
    seen_stats ops (cx_scope cx) (router_base (cli_router c)) i"
proof -
  define K where "K = range (localStatsKey key)"
  have "cx_scope (withTenantScope cx) = key"
    using assms by (simp add: withTenantScope_def TenantScopeFromContext_def WithTenantScope_def)
  then have "same_elsewhere K c (snd (executeWithRetry ops rops est estC env cx prov d req c))"
    unfolding executeWithRetry_def Let_def using assms(1) by (intro retry_loop_elsewhere) (simp_all add: K_def)
  moreover have "i \<notin> K"
    using assms(4,5) by (auto simp: K_def localStatsKey_def TenantScopeFromContext_def Let_def)
  ultimately show ?thesis
    using assms(1,2)
    by (simp add: same_elsewhere_def seen_stats_def localStatsKey_def TenantScopeFromContext_def Let_def)
qed

theorem execution_invisible_to_picks_witness:
  "available memory_ops [] 30 (router_base (cli_router (snd (executeWithRetry memory_ops memory_rr_ops (\<lambda>_ _. 1) (\<lambda>_ _. 1)
     busy_provider \<lparr>cx_scope = [], cx_apiKey = Some ''k'', cx_rateKey = []\<rparr> () (dep_named ''a'') demo_request
     demo_client)))) ''a''"
  using execution_invisible_to_picks [of demo_client "\<lparr>cx_scope = [], cx_apiKey = Some ''k'', cx_rateKey = []\<rparr>" "''k''"
      "''a''" memory_ops memory_rr_ops "\<lambda>_ _. 1" "\<lambda>_ _. 1" busy_provider "()" "dep_named ''a''" demo_request]
  by (simp add: available_def demo_client_def two_deployments_fields seen_stats_def [of _ _ two_deployments]
      localStatsKey_def TenantScopeFromContext_def statsEntrySnapshot_def Let_def)

end
