(* ===== verification/Auth_Types.thy ===== *)
theory Auth_Types
  imports Llm_Errors
begin

text \<open>
  The entities of the gateway's access control, from \<open>internal/auth/types.go\<close> and
  \<open>internal/auth/budget.go\<close>: API keys, teams, users, organisations, memberships, end users,
  budgets and usage logs, with the questions the code asks them.

  A pointer that may be nil is an option. \<open>Clone\<close> is the identity on values; where the code
  shares a pointer between two indexes, the store has addresses.
\<close>

section \<open>Budgets\<close>

type_synonym BudgetDuration = string

definition BudgetDurationDaily :: BudgetDuration where
  "BudgetDurationDaily = ''1d''"

definition BudgetDurationWeekly :: BudgetDuration where
  "BudgetDurationWeekly = ''7d''"

definition BudgetDurationMonthly :: BudgetDuration where
  "BudgetDurationMonthly = ''30d''"

definition BudgetDurationNever :: BudgetDuration where
  "BudgetDurationNever = []"

lemmas budget_durations =
  BudgetDurationDaily_def BudgetDurationWeekly_def BudgetDurationMonthly_def BudgetDurationNever_def

record Budget =
  bg_ID :: string
  bg_MaxBudget :: "float64 option"
  bg_SoftBudget :: "float64 option"
  bg_MaxParallelRequests :: "int option"
  bg_TPMLimit :: "int option"
  bg_RPMLimit :: "int option"
  bg_ModelMaxBudget :: "string \<rightharpoonup> float64"
  bg_BudgetDuration :: BudgetDuration
  bg_BudgetResetAt :: "go_time option"
  bg_CreatedAt :: go_time
  bg_CreatedBy :: string
  bg_UpdatedAt :: go_time
  bg_UpdatedBy :: string

record BudgetStatus =
  bs_IsOverBudget :: bool
  bs_IsOverSoftBudget :: bool
  bs_SpentAmount :: float64
  bs_RemainingBudget :: float64
  bs_UsagePercent :: float64

definition DurationSeconds :: "BudgetDuration \<Rightarrow> int" where
  "DurationSeconds d =
     (if d = BudgetDurationDaily then 86400
      else if d = BudgetDurationWeekly then 604800
      else if d = BudgetDurationMonthly then 2592000
      else 0)"

definition NextResetTime :: "go_time \<Rightarrow> BudgetDuration \<Rightarrow> go_time option" where
  "NextResetTime now d =
     (if d = BudgetDurationNever then None else Some (now + DurationSeconds d * second))"

definition bd_IsValid :: "BudgetDuration \<Rightarrow> bool" where
  "bd_IsValid d \<longleftrightarrow>
     d \<in> {BudgetDurationDaily, BudgetDurationWeekly, BudgetDurationMonthly, BudgetDurationNever}"

definition bg_NeedsReset :: "go_time \<Rightarrow> Budget \<Rightarrow> bool" where
  "bg_NeedsReset now b = (case bg_BudgetResetAt b of None \<Rightarrow> False | Some t \<Rightarrow> now > t)"

definition CalculateNextReset :: "go_time \<Rightarrow> Budget \<Rightarrow> Budget" where
  "CalculateNextReset now b =
     (if bg_BudgetDuration b = BudgetDurationNever then b\<lparr>bg_BudgetResetAt := None\<rparr>
      else b\<lparr>bg_BudgetResetAt := NextResetTime now (bg_BudgetDuration b)\<rparr>)"

definition CheckBudgetStatus :: "Budget \<Rightarrow> float64 \<Rightarrow> BudgetStatus" where
  "CheckBudgetStatus b spent =
     (let status = \<lparr>bs_IsOverBudget = False, bs_IsOverSoftBudget = False, bs_SpentAmount = spent,
                    bs_RemainingBudget = 0, bs_UsagePercent = 0\<rparr>;
          status1 = (case bg_MaxBudget b of
                       Some m \<Rightarrow>
                         (if m > 0
                          then status\<lparr>bs_RemainingBudget := m - spent, bs_UsagePercent := (spent / m) * 100,
                                      bs_IsOverBudget := spent \<ge> m\<rparr>
                          else status)
                     | None \<Rightarrow> status)
      in case bg_SoftBudget b of
           Some m \<Rightarrow> (if m > 0 then status1\<lparr>bs_IsOverSoftBudget := spent \<ge> m\<rparr> else status1)
         | None \<Rightarrow> status1)"

definition GetModelBudget :: "Budget \<Rightarrow> string \<Rightarrow> float64 option" where
  "GetModelBudget b model = bg_ModelMaxBudget b model"

section \<open>Keys, teams and users\<close>

text \<open>A value of the type \<open>any\<close>, as far as the code inspects it.\<close>

datatype go_any = AnyBool bool | AnyString string | AnyInt int | AnyFloat float64 | AnyOther

type_synonym Metadata = "string \<rightharpoonup> go_any"

type_synonym KeyType = string

definition KeyTypeLLMAPI :: KeyType where
  "KeyTypeLLMAPI = ''llm_api''"

definition KeyTypeManagement :: KeyType where
  "KeyTypeManagement = ''management''"

definition KeyTypeReadOnly :: KeyType where
  "KeyTypeReadOnly = ''read_only''"

definition KeyTypeDefault :: KeyType where
  "KeyTypeDefault = ''default''"

record APIKey =
  ak_ID :: string
  ak_KeyHash :: string
  ak_KeyPrefix :: string
  ak_Name :: string
  ak_KeyAlias :: "string option"
  ak_TeamID :: "string option"
  ak_UserID :: "string option"
  ak_OrganizationID :: "string option"
  ak_AllowedModels :: "string list"
  ak_KeyType :: KeyType
  ak_TPMLimit :: "int option"
  ak_RPMLimit :: "int option"
  ak_MaxParallelRequests :: "int option"
  ak_ModelTPMLimit :: "string \<rightharpoonup> int"
  ak_ModelRPMLimit :: "string \<rightharpoonup> int"
  ak_MaxBudget :: float64
  ak_SoftBudget :: "float64 option"
  ak_SpentBudget :: float64
  ak_ModelMaxBudget :: "string \<rightharpoonup> float64"
  ak_ModelSpend :: "string \<rightharpoonup> float64"
  ak_BudgetDuration :: BudgetDuration
  ak_BudgetResetAt :: "go_time option"
  ak_Metadata :: Metadata
  ak_IsActive :: bool
  ak_Blocked :: bool
  ak_CreatedAt :: go_time
  ak_UpdatedAt :: go_time
  ak_ExpiresAt :: "go_time option"
  ak_LastUsedAt :: "go_time option"

record Team =
  tm_ID :: string
  tm_Alias :: "string option"
  tm_OrganizationID :: "string option"
  tm_Members :: "string list"
  tm_MaxBudget :: float64
  tm_SpentBudget :: float64
  tm_ModelMaxBudget :: "string \<rightharpoonup> float64"
  tm_ModelSpend :: "string \<rightharpoonup> float64"
  tm_BudgetDuration :: BudgetDuration
  tm_BudgetResetAt :: "go_time option"
  tm_TPMLimit :: "int option"
  tm_RPMLimit :: "int option"
  tm_MaxParallelRequests :: "int option"
  tm_ModelTPMLimit :: "string \<rightharpoonup> int"
  tm_ModelRPMLimit :: "string \<rightharpoonup> int"
  tm_Models :: "string list"
  tm_IsActive :: bool
  tm_Blocked :: bool
  tm_Metadata :: Metadata
  tm_CreatedAt :: go_time
  tm_UpdatedAt :: go_time

record User =
  usr_ID :: string
  usr_Alias :: "string option"
  usr_Email :: "string option"
  usr_TeamID :: "string option"
  usr_Teams :: "string list"
  usr_OrganizationID :: "string option"
  usr_Role :: string
  usr_MaxBudget :: float64
  usr_Spend :: float64
  usr_ModelMaxBudget :: "string \<rightharpoonup> float64"
  usr_ModelSpend :: "string \<rightharpoonup> float64"
  usr_BudgetDuration :: BudgetDuration
  usr_BudgetResetAt :: "go_time option"
  usr_TPMLimit :: "int option"
  usr_RPMLimit :: "int option"
  usr_MaxParallelRequests :: "int option"
  usr_Models :: "string list"
  usr_IsActive :: bool
  usr_Metadata :: Metadata
  usr_CreatedAt :: "go_time option"
  usr_UpdatedAt :: "go_time option"

type_synonym UserRole = string

definition UserRoleProxyAdmin :: UserRole where
  "UserRoleProxyAdmin = ''proxy_admin''"

definition UserRoleProxyAdminViewer :: UserRole where
  "UserRoleProxyAdminViewer = ''proxy_admin_viewer''"

definition UserRoleOrgAdmin :: UserRole where
  "UserRoleOrgAdmin = ''org_admin''"

definition UserRoleInternalUser :: UserRole where
  "UserRoleInternalUser = ''internal_user''"

definition UserRoleInternalUserViewer :: UserRole where
  "UserRoleInternalUserViewer = ''internal_user_viewer''"

definition UserRoleTeam :: UserRole where
  "UserRoleTeam = ''team''"

definition UserRoleCustomer :: UserRole where
  "UserRoleCustomer = ''customer''"

record UsageLog =
  ul_ID :: int
  ul_RequestID :: string
  ul_APIKeyID :: string
  ul_TeamID :: "string option"
  ul_OrganizationID :: "string option"
  ul_UserID :: "string option"
  ul_EndUserID :: "string option"
  ul_Model :: string
  ul_ModelGroup :: "string option"
  ul_Provider :: string
  ul_CallType :: string
  ul_InputTokens :: int
  ul_OutputTokens :: int
  ul_TotalTokens :: int
  ul_Cost :: float64
  ul_LatencyMs :: int
  ul_StatusCode :: "int option"
  ul_Status :: "string option"
  ul_CacheHit :: "string option"
  ul_RequestTags :: "string list"
  ul_Metadata :: Metadata
  ul_StartTime :: go_time
  ul_EndTime :: go_time

record AuthContext =
  ac_APIKey :: "APIKey option"
  ac_Team :: "Team option"
  ac_User :: "User option"
  ac_RequestID :: string
  ac_UserRole :: UserRole
  ac_EndUserID :: string
  ac_SSOUserID :: string
  ac_JWTTeamIDs :: "string list"
  ac_JWTOrgID :: string

section \<open>Questions\<close>

text \<open>The four methods \<open>CanAccessModel\<close> have the same body over different lists of models.\<close>

definition models_allow :: "string list \<Rightarrow> string \<Rightarrow> bool" where
  "models_allow models model =
     (if length models = 0 then True else list_ex (\<lambda>m. m = model \<or> m = ''*'') models)"

definition ak_CanAccessModel :: "APIKey \<Rightarrow> string \<Rightarrow> bool" where
  "ak_CanAccessModel k model = models_allow (ak_AllowedModels k) model"

definition ak_IsExpired :: "go_time \<Rightarrow> APIKey \<Rightarrow> bool" where
  "ak_IsExpired now k = (case ak_ExpiresAt k of None \<Rightarrow> False | Some t \<Rightarrow> now > t)"

definition ak_IsOverBudget :: "APIKey \<Rightarrow> bool" where
  "ak_IsOverBudget k = (if ak_MaxBudget k \<le> 0 then False else ak_SpentBudget k \<ge> ak_MaxBudget k)"

definition ak_IsOverSoftBudget :: "APIKey \<Rightarrow> bool" where
  "ak_IsOverSoftBudget k =
     (case ak_SoftBudget k of
        None \<Rightarrow> False
      | Some soft \<Rightarrow> (if soft \<le> 0 then False else ak_SpentBudget k \<ge> soft))"

definition ak_IsBlocked :: "APIKey \<Rightarrow> bool" where
  "ak_IsBlocked k \<longleftrightarrow> ak_Blocked k \<or> \<not> ak_IsActive k"

definition ak_NeedsBudgetReset :: "go_time \<Rightarrow> APIKey \<Rightarrow> bool" where
  "ak_NeedsBudgetReset now k = (case ak_BudgetResetAt k of None \<Rightarrow> False | Some t \<Rightarrow> now > t)"

definition GetModelTPMLimit :: "APIKey \<Rightarrow> string \<Rightarrow> int option" where
  "GetModelTPMLimit k model =
     (case ak_ModelTPMLimit k model of Some limit \<Rightarrow> Some limit | None \<Rightarrow> ak_TPMLimit k)"

definition GetModelRPMLimit :: "APIKey \<Rightarrow> string \<Rightarrow> int option" where
  "GetModelRPMLimit k model =
     (case ak_ModelRPMLimit k model of Some limit \<Rightarrow> Some limit | None \<Rightarrow> ak_RPMLimit k)"

definition tm_IsOverBudget :: "Team \<Rightarrow> bool" where
  "tm_IsOverBudget t = (if tm_MaxBudget t \<le> 0 then False else tm_SpentBudget t \<ge> tm_MaxBudget t)"

definition tm_IsBlocked :: "Team \<Rightarrow> bool" where
  "tm_IsBlocked t \<longleftrightarrow> tm_Blocked t \<or> \<not> tm_IsActive t"

definition tm_CanAccessModel :: "Team \<Rightarrow> string \<Rightarrow> bool" where
  "tm_CanAccessModel t model = models_allow (tm_Models t) model"

definition usr_CanAccessModel :: "User \<Rightarrow> string \<Rightarrow> bool" where
  "usr_CanAccessModel u model = models_allow (usr_Models u) model"

definition usr_IsProxyAdmin :: "User \<Rightarrow> bool" where
  "usr_IsProxyAdmin u \<longleftrightarrow> usr_Role u = UserRoleProxyAdmin"

definition usr_IsOrgAdmin :: "User \<Rightarrow> bool" where
  "usr_IsOrgAdmin u \<longleftrightarrow> usr_Role u = UserRoleOrgAdmin"

definition usr_IsOverBudget :: "User \<Rightarrow> bool" where
  "usr_IsOverBudget u = (if usr_MaxBudget u \<le> 0 then False else usr_Spend u \<ge> usr_MaxBudget u)"

section \<open>Organisations, memberships and end users\<close>

record Organization =
  og_ID :: string
  og_Alias :: string
  og_BudgetID :: "string option"
  og_Models :: "string list"
  og_MaxBudget :: float64
  og_Spend :: float64
  og_ModelSpend :: "string \<rightharpoonup> float64"
  og_Metadata :: Metadata
  og_CreatedAt :: go_time
  og_UpdatedAt :: go_time

definition og_IsOverBudget :: "Organization \<Rightarrow> bool" where
  "og_IsOverBudget x = (if og_MaxBudget x \<le> 0 then False else og_Spend x \<ge> og_MaxBudget x)"

definition og_CanAccessModel :: "Organization \<Rightarrow> string \<Rightarrow> bool" where
  "og_CanAccessModel x model = models_allow (og_Models x) model"

record TeamMembership =
  mb_UserID :: string
  mb_TeamID :: string
  mb_Role :: string
  mb_Spend :: float64
  mb_BudgetID :: "string option"
  mb_Budget :: "Budget option"
  mb_JoinedAt :: "go_time option"

text \<open>Memberships and end users have their limit in a budget that may be missing.\<close>

definition over_budget_ref :: "Budget option \<Rightarrow> float64 \<Rightarrow> bool" where
  "over_budget_ref budget spend =
     (case budget of
        None \<Rightarrow> False
      | Some b \<Rightarrow>
          (case bg_MaxBudget b of None \<Rightarrow> False | Some m \<Rightarrow> (if m \<le> 0 then False else spend \<ge> m)))"

definition mb_IsOverBudget :: "TeamMembership \<Rightarrow> bool" where
  "mb_IsOverBudget m = over_budget_ref (mb_Budget m) (mb_Spend m)"

record OrganizationMembership =
  om_UserID :: string
  om_OrganizationID :: string
  om_UserRole :: string
  om_Spend :: float64
  om_BudgetID :: "string option"
  om_Budget :: "Budget option"
  om_JoinedAt :: "go_time option"

definition om_IsOverBudget :: "OrganizationMembership \<Rightarrow> bool" where
  "om_IsOverBudget m = over_budget_ref (om_Budget m) (om_Spend m)"

definition om_IsOrgAdmin :: "OrganizationMembership \<Rightarrow> bool" where
  "om_IsOrgAdmin m \<longleftrightarrow> om_UserRole m = UserRoleOrgAdmin"

record EndUser =
  eu_UserID :: string
  eu_Alias :: "string option"
  eu_Spend :: float64
  eu_BudgetID :: "string option"
  eu_Budget :: "Budget option"
  eu_Blocked :: bool

definition eu_IsOverBudget :: "EndUser \<Rightarrow> bool" where
  "eu_IsOverBudget e = over_budget_ref (eu_Budget e) (eu_Spend e)"

definition eu_IsBlocked :: "EndUser \<Rightarrow> bool" where
  "eu_IsBlocked e \<longleftrightarrow> eu_Blocked e"

section \<open>Lemmas\<close>

lemma models_allow_iff: "models_allow models model \<longleftrightarrow> models = [] \<or> model \<in> set models \<or> ''*'' \<in> set models"
  by (auto simp: models_allow_def list_ex_iff)

text \<open>A limit is a positive number; anything else means that there is none.\<close>

lemma over_budget_iff:
  "ak_IsOverBudget k \<longleftrightarrow> 0 < ak_MaxBudget k \<and> ak_MaxBudget k \<le> ak_SpentBudget k"
  "tm_IsOverBudget t \<longleftrightarrow> 0 < tm_MaxBudget t \<and> tm_MaxBudget t \<le> tm_SpentBudget t"
  "usr_IsOverBudget u \<longleftrightarrow> 0 < usr_MaxBudget u \<and> usr_MaxBudget u \<le> usr_Spend u"
  "og_IsOverBudget x \<longleftrightarrow> 0 < og_MaxBudget x \<and> og_MaxBudget x \<le> og_Spend x"
  by (auto simp: ak_IsOverBudget_def tm_IsOverBudget_def usr_IsOverBudget_def og_IsOverBudget_def)

lemma over_budget_ref_iff:
  "over_budget_ref budget spend \<longleftrightarrow> (\<exists>b m. budget = Some b \<and> bg_MaxBudget b = Some m \<and> 0 < m \<and> m \<le> spend)"
  by (auto simp: over_budget_ref_def split: option.splits)

lemma CheckBudgetStatus_over:
  "bs_IsOverBudget (CheckBudgetStatus b spent) = over_budget_ref (Some b) spent"
  by (auto simp: CheckBudgetStatus_def over_budget_ref_def Let_def split: option.splits)

text \<open>A valid duration that is not \<open>never\<close> moves the reset strictly into the future.\<close>

lemma NextResetTime_future:
  assumes "bd_IsValid d" and "NextResetTime now d = Some t"
  shows "now < t"
  using assms
  by (auto simp: bd_IsValid_def NextResetTime_def DurationSeconds_def budget_durations split: if_splits)

end
