(* ===== verification/Plugin_Pipeline.thy ===== *)
theory Plugin_Pipeline
  imports Auth_Types Base_Router
begin

text \<open>
  The plugin pipeline (\<open>internal/plugin\<close>): contexts and their pool, registration in the order of
  priorities, and the hooks that run around a request, a stream and a shutdown.

  Plugins are code of the gateway's user. A plugin is a reference, and a table \<open>P\<close> of methods,
  which is an argument of the operations, says what its hooks do: a hook is a function on the
  context and the whole world, so that it may keep a state of its own, take time, and also call
  the pipeline that runs it, as another goroutine may do meanwhile. The pipeline's slice is a
  window on an array in an explicit store, because a running request keeps the window it has read
  and \<open>append\<close> writes through it.
\<close>

section \<open>Contexts\<close>

text \<open>
  Of the embedded \<open>context.Context\<close>, its deadline; the nil context that \<open>Reset\<close> leaves is
  overwritten by \<open>GetContext\<close> before any use.
\<close>

record Context =
  pc_Context :: "go_time option"
  pc_RequestID :: string
  pc_Model :: string
  pc_Provider :: string
  pc_Deployment :: "Deployment option"
  pc_IsStreaming :: bool
  pc_StartTime :: go_time
  pc_Auth :: "AuthContext option"
  pc_values :: "string \<rightharpoonup> go_any"

definition NewContext :: "go_time option \<Rightarrow> string \<Rightarrow> go_time \<Rightarrow> Context" where
  "NewContext ctx requestID now =
     \<lparr>pc_Context = ctx, pc_RequestID = requestID, pc_Model = [], pc_Provider = [], pc_Deployment = None,
      pc_IsStreaming = False, pc_StartTime = now, pc_Auth = None, pc_values = Map.empty\<rparr>"

definition pc_Set :: "string \<Rightarrow> go_any \<Rightarrow> Context \<Rightarrow> Context" where
  "pc_Set key v c = c\<lparr>pc_values := (pc_values c)(key \<mapsto> v)\<rparr>"

definition pc_Get :: "string \<Rightarrow> Context \<Rightarrow> go_any option" where
  "pc_Get key c = pc_values c key"

definition GetString :: "string \<Rightarrow> Context \<Rightarrow> string" where
  "GetString key c = (case pc_Get key c of Some (AnyString s) \<Rightarrow> s | _ \<Rightarrow> [])"

definition GetInt :: "string \<Rightarrow> Context \<Rightarrow> int" where
  "GetInt key c = (case pc_Get key c of Some (AnyInt i) \<Rightarrow> i | _ \<Rightarrow> 0)"

definition GetBool :: "string \<Rightarrow> Context \<Rightarrow> bool" where
  "GetBool key c = (case pc_Get key c of Some (AnyBool b) \<Rightarrow> b | _ \<Rightarrow> False)"

text \<open>\<open>keys\<close> are the keys of the map in the order in which the range loop deletes them.\<close>

definition pc_Reset :: "string list \<Rightarrow> Context \<Rightarrow> Context" where
  "pc_Reset keys c =
     c\<lparr>pc_Context := None, pc_RequestID := [], pc_Model := [], pc_Provider := [], pc_Deployment := None,
       pc_IsStreaming := False, pc_StartTime := zero_time, pc_Auth := None,
       pc_values := fold (\<lambda>k m. m(k := None)) keys (pc_values c)\<rparr>"

section \<open>Plugins, the store of arrays and the pipeline\<close>

datatype plugin_error =
  ErrTooManyPlugins | ErrPluginNotFound | ErrDuplicatePlugin | ErrNilPlugin | ErrPipelineClosed

record ('r, 'e) ShortCircuit =
  sc_Response :: "'r option"
  sc_Error :: "'e option"
  sc_AllowFallback :: bool
  sc_Metadata :: "string \<rightharpoonup> go_any"

text \<open>A channel is the list of the chunks that are received from it.\<close>

record ('k, 'e) StreamShortCircuit =
  ss_Stream :: "'k list option"
  ss_Error :: "'e option"
  ss_AllowFallback :: bool
  ss_Metadata :: "string \<rightharpoonup> go_any"

record PipelineConfig =
  PreHookTimeout :: go_duration
  PostHookTimeout :: go_duration
  PropagateErrors :: bool
  MaxPlugins :: int

definition DefaultPipelineConfig :: PipelineConfig where
  "DefaultPipelineConfig =
     \<lparr>PreHookTimeout = 10 * second, PostHookTimeout = 10 * second, PropagateErrors = False, MaxPlugins = 100\<rparr>"

type_synonym PluginRef = nat

text \<open>A slice: the array it is a window on and its length; it starts at the array's first cell.\<close>

record Slice =
  sl_array :: nat
  sl_len :: nat

record Pipeline =
  pl_plugins :: Slice
  pl_config :: PipelineConfig
  pl_closed :: bool
  pl_ctxPool :: "Context list"

text \<open>
  The world of a pipeline: the arrays that were ever allocated, the pipeline, the clock and
  whatever the plugins and their environment have beside it.
\<close>

record 'x World =
  arrays :: "PluginRef option list list"
  pipeline :: Pipeline
  clock :: go_time
  user :: 'x

record ('x, 'q, 'k, 'e) StreamHooks =
  PreStreamHook :: "'q option \<Rightarrow> Context \<times> 'x World \<Rightarrow>
    ('q option \<times> ('k, 'e) StreamShortCircuit option \<times> 'e option) \<times> Context \<times> 'x World"
  OnStreamChunk :: "'k \<Rightarrow> Context \<times> 'x World \<Rightarrow> ('k option \<times> 'e option) \<times> Context \<times> 'x World"
  PostStreamHook :: "'e option \<Rightarrow> Context \<times> 'x World \<Rightarrow> 'e option \<times> Context \<times> 'x World"

text \<open>A plugin that implements \<open>StreamPlugin\<close> has the hooks of streams as well.\<close>

record ('x, 'q, 'r, 'k, 'e) Plugin =
  Name :: string
  Priority :: int
  PreHook :: "'q option \<Rightarrow> Context \<times> 'x World \<Rightarrow>
    ('q option \<times> ('r, 'e) ShortCircuit option \<times> 'e option) \<times> Context \<times> 'x World"
  PostHook :: "'r option \<Rightarrow> 'e option \<Rightarrow> Context \<times> 'x World \<Rightarrow>
    ('r option \<times> 'e option \<times> 'e option) \<times> Context \<times> 'x World"
  Cleanup :: "'x World \<Rightarrow> 'e option \<times> 'x World"
  asStream :: "('x, 'q, 'k, 'e) StreamHooks option"

text \<open>Reading a cell of a slice; the cells below the length of the pipeline's slice are never nil.\<close>

definition cell :: "'x World \<Rightarrow> Slice \<Rightarrow> nat \<Rightarrow> PluginRef" where
  "cell w s i = the (arrays w ! sl_array s ! i)"

definition elems :: "'x World \<Rightarrow> PluginRef list" where
  "elems w = map (cell w (pl_plugins (pipeline w))) [0..<sl_len (pl_plugins (pipeline w))]"

text \<open>
  \<open>append(s, v)\<close>: in place when the array has room, otherwise in a new array, whose capacity
  \<open>grow n\<close> for \<open>n\<close> elements the runtime chooses; and \<open>copy\<close> inside one array.
\<close>

definition append_cell ::
  "(nat \<Rightarrow> nat) \<Rightarrow> PluginRef option \<Rightarrow> Slice \<Rightarrow> PluginRef option list list \<Rightarrow> Slice \<times> PluginRef option list list" where
  "append_cell grow v s arrs =
     (let xs = arrs ! sl_array s;
          n = sl_len s
      in if n < length xs then (s\<lparr>sl_len := n + 1\<rparr>, arrs[sl_array s := xs[n := v]])
         else (\<lparr>sl_array = length arrs, sl_len = n + 1\<rparr>,
               arrs @ [take n xs @ [v] @ replicate (grow (n + 1) - (n + 1)) None]))"

definition copy_cells :: "nat \<Rightarrow> nat \<Rightarrow> nat \<Rightarrow> 'a list \<Rightarrow> 'a list" where
  "copy_cells dst src n xs = take dst xs @ take n (drop src xs) @ drop (dst + n) xs"

definition NewPipeline :: "PipelineConfig \<Rightarrow> PluginRef option list list \<Rightarrow> Pipeline \<times> PluginRef option list list" where
  "NewPipeline config arrs =
     (let config = (if PreHookTimeout config = 0 then config\<lparr>PreHookTimeout := 10 * second\<rparr> else config);
          config = (if PostHookTimeout config = 0 then config\<lparr>PostHookTimeout := 10 * second\<rparr> else config);
          config = (if MaxPlugins config = 0 then config\<lparr>MaxPlugins := 100\<rparr> else config)
      in (\<lparr>pl_plugins = \<lparr>sl_array = length arrs, sl_len = 0\<rparr>, pl_config = config, pl_closed = False,
           pl_ctxPool = []\<rparr>, arrs @ [[]]))"

section \<open>Registration\<close>

text \<open>\<open>sort.Search\<close>: the binary search of the standard library on \<open>[i, j)\<close>.\<close>

function sort_Search :: "(nat \<Rightarrow> bool) \<Rightarrow> nat \<Rightarrow> nat \<Rightarrow> nat" where
  "sort_Search f i j =
     (if i < j
      then let h = (i + j) div 2
           in if \<not> f h then sort_Search f (h + 1) j else sort_Search f i h
      else i)"
  by pat_completeness auto
termination by (relation "measure (\<lambda>(f, i, j). j - i)") auto

declare sort_Search.simps [simp del]

definition Register ::
  "(PluginRef \<Rightarrow> ('x, 'q, 'r, 'k, 'e) Plugin) \<Rightarrow> (nat \<Rightarrow> nat) \<Rightarrow> PluginRef option \<Rightarrow> 'x World \<Rightarrow>
   plugin_error option \<times> 'x World" where
  "Register P grow plugin w =
     (if pl_closed (pipeline w) then (Some ErrPipelineClosed, w)
      else case plugin of
             None \<Rightarrow> (Some ErrNilPlugin, w)
           | Some p \<Rightarrow>
               (if list_ex (\<lambda>existing. Name (P existing) = Name (P p)) (elems w) then (Some ErrDuplicatePlugin, w)
                else if int (length (elems w)) \<ge> MaxPlugins (pl_config (pipeline w)) then (Some ErrTooManyPlugins, w)
                else let s = pl_plugins (pipeline w);
                         idx = sort_Search (\<lambda>i. Priority (P (cell w s i)) > Priority (P p)) 0 (sl_len s);
                         (s', arrs) = append_cell grow None s (arrays w);
                         xs = copy_cells (idx + 1) idx (sl_len s - idx) (arrs ! sl_array s')
                     in (None, w\<lparr>arrays := arrs[sl_array s' := xs[idx := Some p]],
                                 pipeline := (pipeline w)\<lparr>pl_plugins := s'\<rparr>\<rparr>)))"

definition Unregister ::
  "(PluginRef \<Rightarrow> ('x, 'q, 'r, 'k, 'e) Plugin) \<Rightarrow> string \<Rightarrow> 'x World \<Rightarrow> plugin_error option \<times> 'x World" where
  "Unregister P nm w =
     (if pl_closed (pipeline w) then (Some ErrPipelineClosed, w)
      else let s = pl_plugins (pipeline w)
           in case find (\<lambda>i. Name (P (cell w s i)) = nm) [0..<sl_len s] of
                None \<Rightarrow> (Some ErrPluginNotFound, w)
              | Some i \<Rightarrow>
                  (None, w\<lparr>arrays := (arrays w)[sl_array s := copy_cells i (i + 1) (sl_len s - (i + 1))
                                                                (arrays w ! sl_array s)],
                           pipeline := (pipeline w)\<lparr>pl_plugins := s\<lparr>sl_len := sl_len s - 1\<rparr>\<rparr>\<rparr>))"

definition Plugins :: "'x World \<Rightarrow> PluginRef list" where
  "Plugins w = elems w"

definition PluginCount :: "'x World \<Rightarrow> int" where
  "PluginCount w = int (sl_len (pl_plugins (pipeline w)))"

section \<open>The pool of contexts\<close>

text \<open>
  \<open>sync.Pool\<close> may hand out any of the contexts that were put back, the one at \<open>choice\<close>, or
  a new one.
\<close>

definition GetContext :: "nat option \<Rightarrow> go_time option \<Rightarrow> string \<Rightarrow> 'x World \<Rightarrow> Context \<times> 'x World" where
  "GetContext choice ctx requestID w =
     (let pool = pl_ctxPool (pipeline w);
          (c, pool') = (case choice of
                          Some i \<Rightarrow> if i < length pool then (pool ! i, take i pool @ drop (i + 1) pool)
                                    else (NewContext None [] zero_time, pool)
                        | None \<Rightarrow> (NewContext None [] zero_time, pool))
      in (c\<lparr>pc_Context := ctx, pc_RequestID := requestID, pc_StartTime := clock w\<rparr>,
          w\<lparr>pipeline := (pipeline w)\<lparr>pl_ctxPool := pool'\<rparr>\<rparr>))"

definition PutContext :: "string list \<Rightarrow> Context \<times> 'x World \<Rightarrow> 'x World" where
  "PutContext keys st =
     (let (c, w) = st
      in w\<lparr>pipeline := (pipeline w)\<lparr>pl_ctxPool := pl_ctxPool (pipeline w) @ [pc_Reset keys c]\<rparr>\<rparr>)"

section \<open>Hooks\<close>

text \<open>
  \<open>context.WithTimeout\<close> keeps an earlier deadline of the parent. A hook runs on the derived
  context, and the original one is put back afterwards whatever the hook has done to it.
\<close>

definition WithTimeout :: "go_time option \<Rightarrow> go_time \<Rightarrow> go_duration \<Rightarrow> go_time option" where
  "WithTimeout parent now timeout =
     (case parent of
        Some d \<Rightarrow> if d < now + timeout then Some d else Some (now + timeout)
      | None \<Rightarrow> Some (now + timeout))"

definition timed ::
  "go_duration \<Rightarrow> (Context \<times> 'x World \<Rightarrow> 'a \<times> Context \<times> 'x World) \<Rightarrow> Context \<times> 'x World \<Rightarrow>
   'a \<times> Context \<times> 'x World" where
  "timed timeout hook st =
     (let (c, w) = st;
          (res, c', w') = hook (c\<lparr>pc_Context := WithTimeout (pc_Context c) (clock w) timeout\<rparr>, w)
      in (res, c'\<lparr>pc_Context := pc_Context c\<rparr>, w'))"

text \<open>
  The loops run over the slice \<open>s\<close> that was read at the start, at the positions from \<open>i\<close> on or
  down from \<open>i\<close>; the element is read from the array when its turn comes.
\<close>

fun pre_loop ::
  "(PluginRef \<Rightarrow> ('x, 'q, 'r, 'k, 'e) Plugin) \<Rightarrow> go_duration \<Rightarrow> Slice \<Rightarrow> nat \<Rightarrow> nat \<Rightarrow> 'q option \<Rightarrow>
   Context \<times> 'x World \<Rightarrow> ('q option \<times> ('r, 'e) ShortCircuit option \<times> int) \<times> Context \<times> 'x World" where
  "pre_loop P timeout s i 0 req st = ((req, None, int i), st)"
| "pre_loop P timeout s i (Suc n) req st =
     (let plugin = P (cell (snd st) s i);
          ((req', shortCircuit, err), st') = timed timeout (PreHook plugin req) st
      in case shortCircuit of
           Some sc \<Rightarrow> ((req', Some sc, int (i + 1)), st')
         | None \<Rightarrow> pre_loop P timeout s (i + 1) n req' st')"

definition RunPreHooks ::
  "(PluginRef \<Rightarrow> ('x, 'q, 'r, 'k, 'e) Plugin) \<Rightarrow> 'q option \<Rightarrow> Context \<times> 'x World \<Rightarrow>
   ('q option \<times> ('r, 'e) ShortCircuit option \<times> int) \<times> Context \<times> 'x World" where
  "RunPreHooks P req st =
     (let plugins = pl_plugins (pipeline (snd st))
      in if sl_len plugins = 0 then ((req, None, 0), st)
         else pre_loop P (PreHookTimeout (pl_config (pipeline (snd st)))) plugins 0 (sl_len plugins) req st)"

definition clamp_run_from :: "int \<Rightarrow> nat \<Rightarrow> nat" where
  "clamp_run_from runFrom n =
     (let runFrom = (if runFrom < 0 then 0 else runFrom)
      in nat (if runFrom > int n then int n else runFrom))"

fun post_loop ::
  "(PluginRef \<Rightarrow> ('x, 'q, 'r, 'k, 'e) Plugin) \<Rightarrow> go_duration \<Rightarrow> Slice \<Rightarrow> nat \<Rightarrow> 'r option \<Rightarrow> 'e option \<Rightarrow>
   Context \<times> 'x World \<Rightarrow> ('r option \<times> 'e option) \<times> Context \<times> 'x World" where
  "post_loop P timeout s 0 resp respErr st = ((resp, respErr), st)"
| "post_loop P timeout s (Suc i) resp respErr st =
     (let plugin = P (cell (snd st) s i);
          ((resp', respErr', pluginErr), st') = timed timeout (PostHook plugin resp respErr) st
      in post_loop P timeout s i resp' respErr' st')"

definition RunPostHooks ::
  "(PluginRef \<Rightarrow> ('x, 'q, 'r, 'k, 'e) Plugin) \<Rightarrow> 'r option \<Rightarrow> 'e option \<Rightarrow> int \<Rightarrow> Context \<times> 'x World \<Rightarrow>
   ('r option \<times> 'e option) \<times> Context \<times> 'x World" where
  "RunPostHooks P resp respErr runFrom st =
     (let plugins = pl_plugins (pipeline (snd st))
      in if sl_len plugins = 0 then ((resp, respErr), st)
         else post_loop P (PostHookTimeout (pl_config (pipeline (snd st)))) plugins
                (clamp_run_from runFrom (sl_len plugins)) resp respErr st)"

fun stream_pre_loop ::
  "(PluginRef \<Rightarrow> ('x, 'q, 'r, 'k, 'e) Plugin) \<Rightarrow> go_duration \<Rightarrow> Slice \<Rightarrow> nat \<Rightarrow> nat \<Rightarrow> 'q option \<Rightarrow>
   Context \<times> 'x World \<Rightarrow> ('q option \<times> ('k, 'e) StreamShortCircuit option \<times> int) \<times> Context \<times> 'x World" where
  "stream_pre_loop P timeout s i 0 req st = ((req, None, int i), st)"
| "stream_pre_loop P timeout s i (Suc n) req st =
     (case asStream (P (cell (snd st) s i)) of
        None \<Rightarrow> stream_pre_loop P timeout s (i + 1) n req st
      | Some streamPlugin \<Rightarrow>
          (let ((req', shortCircuit, err), st') = timed timeout (PreStreamHook streamPlugin req) st
           in case shortCircuit of
                Some sc \<Rightarrow> ((req', Some sc, int (i + 1)), st')
              | None \<Rightarrow> stream_pre_loop P timeout s (i + 1) n req' st'))"

definition RunStreamPreHooks ::
  "(PluginRef \<Rightarrow> ('x, 'q, 'r, 'k, 'e) Plugin) \<Rightarrow> 'q option \<Rightarrow> Context \<times> 'x World \<Rightarrow>
   ('q option \<times> ('k, 'e) StreamShortCircuit option \<times> int) \<times> Context \<times> 'x World" where
  "RunStreamPreHooks P req st =
     (let plugins = pl_plugins (pipeline (snd st))
      in if sl_len plugins = 0 then ((req, None, 0), st)
         else stream_pre_loop P (PreHookTimeout (pl_config (pipeline (snd st)))) plugins 0 (sl_len plugins) req st)"

fun chunk_loop ::
  "(PluginRef \<Rightarrow> ('x, 'q, 'r, 'k, 'e) Plugin) \<Rightarrow> Slice \<Rightarrow> nat \<Rightarrow> nat \<Rightarrow> 'k \<Rightarrow> 'e option \<Rightarrow> Context \<times> 'x World \<Rightarrow>
   ('k option \<times> 'e option) \<times> Context \<times> 'x World" where
  "chunk_loop P s i 0 chunk lastErr st = ((Some chunk, lastErr), st)"
| "chunk_loop P s i (Suc n) chunk lastErr st =
     (case asStream (P (cell (snd st) s i)) of
        None \<Rightarrow> chunk_loop P s (i + 1) n chunk lastErr st
      | Some streamPlugin \<Rightarrow>
          (let ((chunk', err), st') = OnStreamChunk streamPlugin chunk st;
               lastErr' = (case err of Some e \<Rightarrow> Some e | None \<Rightarrow> lastErr)
           in case chunk' of
                None \<Rightarrow> ((None, None), st')
              | Some k \<Rightarrow> chunk_loop P s (i + 1) n k lastErr' st'))"

definition RunOnStreamChunk ::
  "(PluginRef \<Rightarrow> ('x, 'q, 'r, 'k, 'e) Plugin) \<Rightarrow> 'k option \<Rightarrow> Context \<times> 'x World \<Rightarrow>
   ('k option \<times> 'e option) \<times> Context \<times> 'x World" where
  "RunOnStreamChunk P chunk st =
     (let plugins = pl_plugins (pipeline (snd st))
      in case chunk of
           None \<Rightarrow> ((None, None), st)
         | Some k \<Rightarrow> if sl_len plugins = 0 then ((Some k, None), st)
                     else chunk_loop P plugins 0 (sl_len plugins) k None st)"

fun stream_post_loop ::
  "(PluginRef \<Rightarrow> ('x, 'q, 'r, 'k, 'e) Plugin) \<Rightarrow> go_duration \<Rightarrow> Slice \<Rightarrow> nat \<Rightarrow> 'e option \<Rightarrow>
   Context \<times> 'x World \<Rightarrow> Context \<times> 'x World" where
  "stream_post_loop P timeout s 0 err st = st"
| "stream_post_loop P timeout s (Suc i) err st =
     (case asStream (P (cell (snd st) s i)) of
        None \<Rightarrow> stream_post_loop P timeout s i err st
      | Some streamPlugin \<Rightarrow>
          stream_post_loop P timeout s i err (snd (timed timeout (PostStreamHook streamPlugin err) st)))"

definition RunStreamPostHooks ::
  "(PluginRef \<Rightarrow> ('x, 'q, 'r, 'k, 'e) Plugin) \<Rightarrow> 'e option \<Rightarrow> int \<Rightarrow> Context \<times> 'x World \<Rightarrow>
   'e option \<times> Context \<times> 'x World" where
  "RunStreamPostHooks P err runFrom st =
     (let plugins = pl_plugins (pipeline (snd st))
      in if sl_len plugins = 0 then (err, st)
         else (err, stream_post_loop P (PostHookTimeout (pl_config (pipeline (snd st)))) plugins
                      (clamp_run_from runFrom (sl_len plugins)) err st))"

section \<open>Shutdown\<close>

fun cleanup_loop ::
  "(PluginRef \<Rightarrow> ('x, 'q, 'r, 'k, 'e) Plugin) \<Rightarrow> Slice \<Rightarrow> nat \<Rightarrow> nat \<Rightarrow> 'x World \<Rightarrow> (string \<times> 'e) list \<times> 'x World" where
  "cleanup_loop P s i 0 w = ([], w)"
| "cleanup_loop P s i (Suc n) w =
     (let plugin = P (cell w s i);
          (err, w1) = Cleanup plugin w;
          (errs, w2) = cleanup_loop P s (i + 1) n w1
      in (case err of Some e \<Rightarrow> (Name plugin, e) # errs | None \<Rightarrow> errs, w2))"

text \<open>An error of a shutdown is that the pipeline was closed already, or lists the plugins' errors.\<close>

datatype 'e shutdown_error = AlreadyClosed | CleanupErrors "(string \<times> 'e) list"

definition Shutdown ::
  "(PluginRef \<Rightarrow> ('x, 'q, 'r, 'k, 'e) Plugin) \<Rightarrow> 'x World \<Rightarrow> 'e shutdown_error option \<times> 'x World" where
  "Shutdown P w =
     (if pl_closed (pipeline w) then (Some AlreadyClosed, w)
      else let w1 = w\<lparr>pipeline := (pipeline w)\<lparr>pl_closed := True\<rparr>\<rparr>;
               plugins = pl_plugins (pipeline w1);
               (errs, w2) = cleanup_loop P plugins 0 (sl_len plugins) w1
           in (if errs \<noteq> [] then Some (CleanupErrors errs) else None, w2))"

definition IsClosed :: "'x World \<Rightarrow> bool" where
  "IsClosed w = pl_closed (pipeline w)"

end
