(* ===== verification/Plugin_Properties.thy ===== *)
theory Plugin_Properties
  imports Plugin_Pipeline
begin

text \<open>
  What the plugin pipeline guarantees: the registry is a stable sort of the registered plugins,
  hooks nest around a request, a pooled context carries nothing over, and what a request sees
  when the registry changes while it runs.
\<close>

section \<open>Binary search and insertion\<close>

lemma sort_Search_boundary:
  assumes mono: "\<And>a b. a \<le> b \<Longrightarrow> b < n \<Longrightarrow> f a \<Longrightarrow> f b"
  shows "i \<le> j \<Longrightarrow> j \<le> n \<Longrightarrow> \<forall>k<i. \<not> f k \<Longrightarrow> \<forall>k<n. j \<le> k \<longrightarrow> f k \<Longrightarrow>
    sort_Search f i j \<le> n \<and> (\<forall>k < sort_Search f i j. \<not> f k) \<and> (\<forall>k<n. sort_Search f i j \<le> k \<longrightarrow> f k)"
proof (induction "j - i" arbitrary: i j rule: less_induct)
  case less
  let ?h = "(i + j) div 2"
  show ?case
  proof (cases "i < j")
    case True
    then have h: "i \<le> ?h" "?h < j" "?h < n" using less.prems by auto
    show ?thesis
    proof (cases "f ?h")
      case fh: True
      have "\<forall>k<n. ?h \<le> k \<longrightarrow> f k" using mono [of ?h] fh by blast
      with less.hyps [of ?h i] less.prems h have "sort_Search f i ?h \<le> n \<and> (\<forall>k < sort_Search f i ?h. \<not> f k) \<and>
        (\<forall>k<n. sort_Search f i ?h \<le> k \<longrightarrow> f k)" by simp
      moreover have "sort_Search f i j = sort_Search f i ?h"
        using True fh by (simp add: sort_Search.simps [of f i j] Let_def)
      ultimately show ?thesis by simp
    next
      case fh: False
      have "\<forall>k<?h + 1. \<not> f k" using mono [of _ ?h] fh h by (metis less_Suc_eq_le Suc_eq_plus1)
      with less.hyps [of j "?h + 1"] less.prems h have "sort_Search f (?h + 1) j \<le> n \<and>
        (\<forall>k < sort_Search f (?h + 1) j. \<not> f k) \<and> (\<forall>k<n. sort_Search f (?h + 1) j \<le> k \<longrightarrow> f k)" by simp
      moreover have "sort_Search f i j = sort_Search f (?h + 1) j"
        using True fh by (simp add: sort_Search.simps [of f i j] Let_def)
      ultimately show ?thesis by simp
    qed
  next
    case False
    with less.prems have "i = j" "sort_Search f i j = j" by (simp, subst sort_Search.simps, simp)
    with less.prems show ?thesis by (simp only:)
  qed
qed

lemma sort_Search_cong:
  "(\<And>k. k < n \<Longrightarrow> f k = g k) \<Longrightarrow> j \<le> n \<Longrightarrow> sort_Search f i j = sort_Search g i j"
proof (induction f i j rule: sort_Search.induct)
  case (1 f i j)
  then show ?case
    by (subst (1 2) sort_Search.simps) (simp add: Let_def)
qed

lemma sort_Search_takeWhile:
  fixes key :: "'a \<Rightarrow> 'b::linorder"
  assumes "sorted (map key xs)"
  shows "sort_Search (\<lambda>i. key (xs ! i) > v) 0 (length xs) = length (takeWhile (\<lambda>x. key x \<le> v) xs)"
proof -
  let ?r = "sort_Search (\<lambda>i. key (xs ! i) > v) 0 (length xs)"
  have "key (xs ! a) \<le> key (xs ! b)" if "a \<le> b" "b < length xs" for a b
    using assms that by (auto simp: sorted_iff_nth_mono)
  then have "?r \<le> length xs \<and> (\<forall>k<?r. \<not> key (xs ! k) > v) \<and> (\<forall>k<length xs. ?r \<le> k \<longrightarrow> key (xs ! k) > v)"
    by (intro sort_Search_boundary) (force+)
  then have r: "?r \<le> length xs" "\<And>k. k < ?r \<Longrightarrow> k < length xs \<Longrightarrow> key (xs ! k) \<le> v"
    "?r < length xs \<Longrightarrow> \<not> key (xs ! ?r) \<le> v"
    by (auto simp: not_less not_le)
  have "takeWhile (\<lambda>x. key x \<le> v) xs = take ?r xs" by (rule takeWhile_eq_take_P_nth) (fact r(2,3))+
  with r(1) show ?thesis by simp
qed

lemma stable_insert:
  fixes f :: "'a \<Rightarrow> 'b::linorder"
  shows "sort_key f (xs @ [p]) =
    takeWhile (\<lambda>q. f q \<le> f p) (sort_key f xs) @ p # dropWhile (\<lambda>q. f q \<le> f p) (sort_key f xs)"
    (is "_ = ?tw @ p # ?dw")
proof -
  have sorted: "sorted (map f (?tw @ ?dw))" by simp
  have parts: "sorted (map f ?tw)" "sorted (map f ?dw)"
    using sorted unfolding map_append sorted_append by blast+
  have split: "?tw @ ?dw = sort_key f xs" by simp
  have le: "\<forall>x\<in>set ?tw. f x \<le> f p" by (auto dest: set_takeWhileD)
  have gt: "\<forall>x\<in>set ?dw. f p < f x"
  proof (cases ?dw)
    case Nil
    then show ?thesis by (simp only: list.set) simp
  next
    case (Cons y ys)
    have "\<not> f y \<le> f p" using hd_dropWhile [of "\<lambda>q. f q \<le> f p" "sort_key f xs"] Cons by simp
    moreover have "\<forall>x\<in>set ys. f y \<le> f x" using sorted Cons by (simp add: sorted_append)
    ultimately show ?thesis using Cons by auto
  qed
  show ?thesis
  proof (rule properties_for_sort_key)
    have "mset ?tw + mset ?dw = mset xs" using arg_cong [OF split, of mset] by (simp only: mset_append mset_sort)
    then show "mset (?tw @ p # ?dw) = mset (xs @ [p])" by simp
    show "sorted (map f (?tw @ p # ?dw))"
      using parts le gt by (auto simp: sorted_append less_imp_le) (meson le_less_trans less_imp_le)
    fix k
    have "filter (\<lambda>x. f k = f x) xs = filter (\<lambda>x. f k = f x) ?tw @ filter (\<lambda>x. f k = f x) ?dw"
      unfolding filter_append [symmetric] split using sort_key_stable [of f "f k" xs] by (metis (mono_tags, lifting) filter_cong)
    moreover have "filter (\<lambda>x. f k = f x) ?dw = []" if "f k = f p" using gt that by (auto simp: filter_empty_conv)
    ultimately show "filter (\<lambda>x. f k = f x) (?tw @ p # ?dw) = filter (\<lambda>x. f k = f x) (xs @ [p])"
      by simp
  qed
qed

section \<open>The cells of the pipeline's slice\<close>

definition pl_inv :: "'x World \<Rightarrow> bool" where
  "pl_inv w \<longleftrightarrow>
     (let s = pl_plugins (pipeline w)
      in sl_array s < length (arrays w) \<and> sl_len s \<le> length (arrays w ! sl_array s) \<and>
         (\<forall>i < sl_len s. arrays w ! sl_array s ! i \<noteq> None))"

lemma length_elems [simp]: "length (elems w) = sl_len (pl_plugins (pipeline w))"
  by (simp add: elems_def)

lemma elems_nth: "i < sl_len (pl_plugins (pipeline w)) \<Longrightarrow> elems w ! i = cell w (pl_plugins (pipeline w)) i"
  by (simp add: elems_def)

lemma pl_inv_cells:
  "pl_inv w \<Longrightarrow> take (sl_len (pl_plugins (pipeline w))) (arrays w ! sl_array (pl_plugins (pipeline w))) = map Some (elems w)"
  by (rule nth_equalityI) (auto simp: pl_inv_def Let_def elems_nth cell_def)

lemma pl_invI:
  assumes "pl_plugins (pipeline w) = s" and "sl_array s < length (arrays w)"
    and "arrays w ! sl_array s = map Some l @ rest" and "sl_len s = length l"
  shows "pl_inv w" and "elems w = l"
proof -
  show "pl_inv w" using assms by (simp add: pl_inv_def nth_append)
  show "elems w = l" by (rule nth_equalityI) (use assms in \<open>auto simp: elems_nth cell_def nth_append\<close>)
qed

lemma pl_inv_rest:
  assumes "pl_inv w"
  obtains rest where "arrays w ! sl_array (pl_plugins (pipeline w)) = map Some (elems w) @ rest"
  using pl_inv_cells [OF assms] append_take_drop_id by metis

lemma append_cell_room:
  assumes "sl_array s < length arrs" and "arrs ! sl_array s = map Some l @ rest" and "sl_len s = length l"
  obtains s' arrs' rest' where "append_cell grow None s arrs = (s', arrs')" and "sl_array s' < length arrs'"
    and "sl_len s' = Suc (length l)" and "arrs' ! sl_array s' = map Some l @ None # rest'"
  using assms by (cases rest) (force simp: append_cell_def Let_def list_update_append)+

lemma insert_cells:
  assumes "i \<le> length l"
  shows "(copy_cells (i + 1) i (length l - i) (map Some l @ None # rest))[i := Some p] =
    map Some (take i l @ p # drop i l) @ rest"
proof -
  have "take (i + 1) (map Some l @ None # rest) = map Some (take i l) @ [(map Some l @ None # rest) ! i]"
    using assms by (simp only: Suc_eq_plus1 [symmetric], subst take_Suc_conv_app_nth) (simp_all add: take_map)
  then show ?thesis using assms
    by (simp add: copy_cells_def take_map drop_map list_update_append nth_append)
qed

lemma delete_cells:
  assumes "i < length l"
  shows "copy_cells i (i + 1) (length l - (i + 1)) (map Some l @ rest) =
    map Some (take i l @ drop (i + 1) l) @ Some (last l) # rest"
proof -
  have "drop (length l - 1) l = [last l]" using assms
    by (metis append_butlast_last_id append_eq_conv_conj length_butlast length_greater_0_conv less_zeroE list.size(3) not_gr_zero)
  then have "drop (i + (length l - (i + 1))) (map Some l) = [Some (last l)]" using assms by (simp add: drop_map)
  then show ?thesis using assms by (simp add: copy_cells_def take_map drop_map)
qed

section \<open>The registry is a stable sort\<close>

text \<open>
  The specification: the registered plugins in the order of their registration. A name is
  registered at most once and no more than \<open>MaxPlugins\<close> plugins are.
\<close>

datatype reg_call = CallRegister "PluginRef option" | CallUnregister string

primrec reg_exec ::
  "(PluginRef \<Rightarrow> ('x, 'q, 'r, 'k, 'e) Plugin) \<Rightarrow> (nat \<Rightarrow> nat) \<Rightarrow> reg_call \<Rightarrow> 'x World \<Rightarrow>
   plugin_error option \<times> 'x World" where
  "reg_exec P grow (CallRegister p) w = Register P grow p w"
| "reg_exec P grow (CallUnregister nm) w = Unregister P nm w"

fun reg_spec ::
  "(PluginRef \<Rightarrow> ('x, 'q, 'r, 'k, 'e) Plugin) \<Rightarrow> int \<Rightarrow> reg_call \<Rightarrow> PluginRef list \<Rightarrow>
   plugin_error option \<times> PluginRef list" where
  "reg_spec P most (CallRegister None) l = (Some ErrNilPlugin, l)"
| "reg_spec P most (CallRegister (Some p)) l =
     (if Name (P p) \<in> (\<lambda>q. Name (P q)) ` set l then (Some ErrDuplicatePlugin, l)
      else if int (length l) \<ge> most then (Some ErrTooManyPlugins, l)
      else (None, l @ [p]))"
| "reg_spec P most (CallUnregister nm) l =
     (if nm \<in> (\<lambda>q. Name (P q)) ` set l then (None, filter (\<lambda>q. Name (P q) \<noteq> nm) l)
      else (Some ErrPluginNotFound, l))"

primrec run_calls :: "('c \<Rightarrow> 's \<Rightarrow> 'o \<times> 's) \<Rightarrow> 'c list \<Rightarrow> 's \<Rightarrow> 'o list \<times> 's" where
  "run_calls f [] s = ([], s)"
| "run_calls f (c # cs) s = (let (out, s') = f c s; (outs, s'') = run_calls f cs s' in (out # outs, s''))"

lemma run_calls_sim:
  assumes "\<And>c s t. R s t \<Longrightarrow> fst (f c s) = fst (g c t) \<and> R (snd (f c s)) (snd (g c t))" and "R s t"
  shows "fst (run_calls f cs s) = fst (run_calls g cs t) \<and> R (snd (run_calls f cs s)) (snd (run_calls g cs t))"
  using assms(2)
proof (induction cs arbitrary: s t)
  case (Cons c cs)
  from assms(1) [OF Cons.prems] Cons.IH show ?case by (fastforce simp: split_beta Let_def)
qed simp

definition registry_rel ::
  "(PluginRef \<Rightarrow> ('x, 'q, 'r, 'k, 'e) Plugin) \<Rightarrow> int \<Rightarrow> 'x World \<Rightarrow> PluginRef list \<Rightarrow> bool" where
  "registry_rel P most w l \<longleftrightarrow>
     pl_inv w \<and> elems w = sort_key (\<lambda>q. Priority (P q)) l \<and> distinct (map (\<lambda>q. Name (P q)) l) \<and>
     MaxPlugins (pl_config (pipeline w)) = most \<and> \<not> pl_closed (pipeline w)"

lemma cell_elems: "i < length (elems w) \<Longrightarrow> cell w (pl_plugins (pipeline w)) i = elems w ! i"
  by (simp add: elems_nth)

lemma Register_inserts:
  fixes P :: "PluginRef \<Rightarrow> ('x, 'q, 'r, 'k, 'e) Plugin"
  assumes inv: "pl_inv w" and sorted: "sorted (map (\<lambda>q. Priority (P q)) (elems w))" and "\<not> pl_closed (pipeline w)"
    and "Name (P p) \<notin> (\<lambda>q. Name (P q)) ` set (elems w)"
    and "int (length (elems w)) < MaxPlugins (pl_config (pipeline w))"
  obtains w' where "Register P grow (Some p) w = (None, w')" and "pl_inv w'"
    and "elems w' = takeWhile (\<lambda>q. Priority (P q) \<le> Priority (P p)) (elems w) @ p #
                    dropWhile (\<lambda>q. Priority (P q) \<le> Priority (P p)) (elems w)"
    and "pl_config (pipeline w') = pl_config (pipeline w)" and "pl_closed (pipeline w') = pl_closed (pipeline w)"
proof -
  let ?s = "pl_plugins (pipeline w)" and ?l = "elems w" and ?le = "\<lambda>q. Priority (P q) \<le> Priority (P p)"
  let ?idx = "sort_Search (\<lambda>i. Priority (P (cell w ?s i)) > Priority (P p)) 0 (sl_len ?s)"
  obtain rest where cells: "arrays w ! sl_array ?s = map Some ?l @ rest" using pl_inv_rest [OF inv] .
  obtain s' arrs rest' where app: "append_cell grow None ?s (arrays w) = (s', arrs)"
    and s': "sl_array s' < length arrs" "sl_len s' = Suc (length ?l)" "arrs ! sl_array s' = map Some ?l @ None # rest'"
    using append_cell_room [OF _ cells length_elems [symmetric]] inv by (metis pl_inv_def)
  have "?idx = sort_Search (\<lambda>i. Priority (P (?l ! i)) > Priority (P p)) 0 (length ?l)"
    using sort_Search_cong [of "length ?l" "\<lambda>i. Priority (P (cell w ?s i)) > Priority (P p)"
        "\<lambda>i. Priority (P (?l ! i)) > Priority (P p)"] by (simp add: elems_nth)
  then have idx: "?idx = length (takeWhile ?le ?l)"
    using sort_Search_takeWhile [OF sorted, of "Priority (P p)"] by (simp only:)
  have le: "length (takeWhile ?le ?l) \<le> length ?l" by (rule length_takeWhile_le)
  let ?w = "w\<lparr>arrays := arrs[sl_array s' := (copy_cells (?idx + 1) ?idx (sl_len ?s - ?idx) (arrs ! sl_array s'))
      [?idx := Some p]], pipeline := (pipeline w)\<lparr>pl_plugins := s'\<rparr>\<rparr>"
  have "\<not> list_ex (\<lambda>existing. Name (P existing) = Name (P p)) ?l" using assms(4) unfolding list_ex_iff image_iff by metis
  then have "Register P grow (Some p) w = (None, ?w)"
    using assms(3,5) by (simp add: Register_def Let_def app)
  moreover have "pl_inv ?w" "elems ?w = takeWhile ?le ?l @ p # dropWhile ?le ?l"
  proof -
    have "take ?idx ?l @ p # drop ?idx ?l = takeWhile ?le ?l @ p # dropWhile ?le ?l"
      unfolding idx by (simp add: takeWhile_eq_take [symmetric] dropWhile_eq_drop [symmetric])
    moreover have len: "length (takeWhile ?le ?l @ p # dropWhile ?le ?l) = sl_len s'"
      using arg_cong [OF takeWhile_dropWhile_id [of ?le ?l], of length, unfolded length_append] s'(2) by simp
    ultimately have "arrays ?w ! sl_array s' = map Some (takeWhile ?le ?l @ p # dropWhile ?le ?l) @ rest'"
      using insert_cells [of ?idx ?l rest' p] le s' by (simp add: idx)
    then show "pl_inv ?w" "elems ?w = takeWhile ?le ?l @ p # dropWhile ?le ?l"
      using pl_invI [of ?w s' "takeWhile ?le ?l @ p # dropWhile ?le ?l" rest'] s' len by simp_all
  qed
  ultimately show thesis using that by simp
qed

lemma remove_first_at:
  "i < length l \<Longrightarrow> Q (l ! i) \<Longrightarrow> \<forall>j<i. \<not> Q (l ! j) \<Longrightarrow> remove_first Q l = take i l @ drop (i + 1) l"
proof (induction l arbitrary: i)
  case (Cons x l)
  show ?case
  proof (cases i)
    case (Suc k)
    with Cons.prems have "\<not> Q x" "k < length l" "Q (l ! k)" "\<forall>j<k. \<not> Q (l ! j)" by auto
    with Cons.IH [of k] Suc show ?thesis by simp
  qed (use Cons.prems in simp)
qed simp

lemma find_upt_first:
  assumes "length l = n" and "\<And>i. i < n \<Longrightarrow> f i = Q (l ! i)" and "\<exists>x\<in>set l. Q x"
  obtains i where "i < n" and "find f [0..<n] = Some i" and "Q (l ! i)"
    and "take i l @ drop (i + 1) l = remove_first Q l"
proof (cases "find f [0..<n]")
  case None
  with assms show ?thesis by (force simp: find_None_iff in_set_conv_nth)
next
  case (Some i)
  then have "i < n" "f i" "\<forall>j<i. \<not> f j" by (auto simp: find_Some_iff)
  with assms(1,2) Some that show ?thesis using remove_first_at [of i l Q] by simp
qed

lemma Unregister_removes:
  fixes P :: "PluginRef \<Rightarrow> ('x, 'q, 'r, 'k, 'e) Plugin"
  assumes inv: "pl_inv w" and "\<not> pl_closed (pipeline w)" and "nm \<in> (\<lambda>q. Name (P q)) ` set (elems w)"
  obtains w' i where "Unregister P nm w = (None, w')" and "pl_inv w'" and "i < length (elems w)"
    and "Name (P (elems w ! i)) = nm" and "elems w' = remove_first (\<lambda>q. Name (P q) = nm) (elems w)"
    and "pl_config (pipeline w') = pl_config (pipeline w)" and "pl_closed (pipeline w') = pl_closed (pipeline w)"
proof -
  let ?s = "pl_plugins (pipeline w)" and ?l = "elems w"
  obtain rest where cells: "arrays w ! sl_array ?s = map Some ?l @ rest" using pl_inv_rest [OF inv] .
  obtain i where i: "i < length ?l" "find (\<lambda>i. Name (P (cell w ?s i)) = nm) [0..<sl_len ?s] = Some i"
    "Name (P (?l ! i)) = nm" "take i ?l @ drop (i + 1) ?l = remove_first (\<lambda>q. Name (P q) = nm) ?l"
  proof (rule find_upt_first [of ?l "sl_len ?s" "\<lambda>i. Name (P (cell w ?s i)) = nm" "\<lambda>q. Name (P q) = nm"])
    show "\<exists>x\<in>set ?l. Name (P x) = nm" using assms(3) by blast
  qed (simp_all add: elems_nth)
  let ?w = "w\<lparr>arrays := (arrays w)[sl_array ?s := copy_cells i (i + 1) (sl_len ?s - (i + 1)) (arrays w ! sl_array ?s)],
      pipeline := (pipeline w)\<lparr>pl_plugins := ?s\<lparr>sl_len := sl_len ?s - 1\<rparr>\<rparr>\<rparr>"
  have "Unregister P nm w = (None, ?w)" using assms(2) i by (simp add: Unregister_def Let_def)
  moreover have arr: "sl_array ?s < length (arrays w)" using inv by (simp add: pl_inv_def Let_def)
  then have "arrays ?w ! sl_array (?s\<lparr>sl_len := sl_len ?s - 1\<rparr>) =
      map Some (take i ?l @ drop (i + 1) ?l) @ Some (last ?l) # rest"
    using delete_cells [OF i(1), of rest] by (simp add: cells)
  from pl_invI [OF _ _ this] i(1) arr have "pl_inv ?w" "elems ?w = take i ?l @ drop (i + 1) ?l" by simp_all
  ultimately show thesis using that i by simp
qed

lemma registry_step:
  fixes P :: "PluginRef \<Rightarrow> ('x, 'q, 'r, 'k, 'e) Plugin"
  assumes rel: "registry_rel P most w l"
  shows "fst (reg_exec P grow c w) = fst (reg_spec P most c l) \<and>
    registry_rel P most (snd (reg_exec P grow c w)) (snd (reg_spec P most c l))"
proof -
  let ?key = "\<lambda>q. Priority (P q)" and ?nm = "\<lambda>q. Name (P q)"
  from rel have inv: "pl_inv w" and el: "elems w = sort_key ?key l" and dist: "distinct (map ?nm l)"
    and most: "MaxPlugins (pl_config (pipeline w)) = most" and opened: "\<not> pl_closed (pipeline w)"
    by (simp_all add: registry_rel_def)
  have dist': "distinct (map ?nm (elems w))"
    using dist mset_eq_imp_distinct_iff [of "map ?nm (elems w)" "map ?nm l"] by (simp add: el)
  have set: "set (elems w) = set l" and len: "length (elems w) = length l" by (simp_all only: el set_sort length_sort)
  show ?thesis
  proof (cases c)
    case (CallUnregister nm)
    show ?thesis
    proof (cases "nm \<in> ?nm ` set l")
      case True
      then obtain w' i where "Unregister P nm w = (None, w')" "pl_inv w'"
        "elems w' = remove_first (\<lambda>q. ?nm q = nm) (elems w)"
        "pl_config (pipeline w') = pl_config (pipeline w)" "pl_closed (pipeline w') = pl_closed (pipeline w)"
        using Unregister_removes [OF inv opened] unfolding set by metis
      with True CallUnregister dist most opened show ?thesis
        by (simp add: registry_rel_def remove_first_filter [OF dist' [unfolded el]] el filter_sort distinct_map_filter)
    next
      case False
      then have "find (\<lambda>i. ?nm (cell w (pl_plugins (pipeline w)) i) = nm) [0..<length (elems w)] = None"
        unfolding set [symmetric] find_None_iff by (auto simp: elems_def)
      with False CallUnregister opened rel show ?thesis by (simp add: Unregister_def Let_def)
    qed
  next
    case (CallRegister p)
    show ?thesis
    proof (cases p)
      case None
      with CallRegister opened rel show ?thesis by (simp add: Register_def)
    next
      case (Some q)
      have dup: "list_ex (\<lambda>existing. ?nm existing = ?nm q) (elems w) \<longleftrightarrow> ?nm q \<in> ?nm ` set l"
        unfolding list_ex_iff set image_iff by metis
      show ?thesis
      proof (cases "?nm q \<in> ?nm ` set l \<or> int (length l) \<ge> most")
        case True
        with CallRegister Some opened rel most show ?thesis by (auto simp: Register_def dup len simp del: length_elems)
      next
        case False
        then obtain w' where "Register P grow (Some q) w = (None, w')" "pl_inv w'"
          "elems w' = takeWhile (\<lambda>a. ?key a \<le> ?key q) (elems w) @ q # dropWhile (\<lambda>a. ?key a \<le> ?key q) (elems w)"
          "pl_config (pipeline w') = pl_config (pipeline w)" "pl_closed (pipeline w') = pl_closed (pipeline w)"
          using Register_inserts [OF inv _ opened, of P q grow] most unfolding set len
          by (metis el not_le sorted_sort_key)
        with False CallRegister Some dist most opened show ?thesis
          by (simp add: registry_rel_def el stable_insert)
      qed
    qed
  qed
qed

text \<open>
  \<^bold>\<open>C18\<close>. Whatever calls of \<open>Register\<close> and \<open>Unregister\<close> are made on a new pipeline, and however
  the runtime grows the slice, each call returns what the plain list of registrations prescribes
  (a nil plugin, a name that is taken, too many plugins and an unknown name are refused), and the
  plugins of the pipeline are that list sorted by priority, plugins of the same priority staying
  in the order of their registration.
\<close>

theorem registry_is_stable_sort:
  fixes P :: "PluginRef \<Rightarrow> ('x, 'q, 'r, 'k, 'e) Plugin"
  shows
  "let (p, arrs) = NewPipeline config arrs0;
       (outs, w) = run_calls (reg_exec P grow) calls \<lparr>arrays = arrs, pipeline = p, clock = t, user = x\<rparr>;
       (outs', l) = run_calls (reg_spec P (if MaxPlugins config = 0 then 100 else MaxPlugins config)) calls []
   in outs = outs' \<and> Plugins w = sort_key (\<lambda>q. Priority (P q)) l \<and> PluginCount w = int (length l)"
proof -
  define most where "most = (if MaxPlugins config = 0 then 100 else MaxPlugins config)"
  let ?w = "\<lparr>arrays = snd (NewPipeline config arrs0), pipeline = fst (NewPipeline config arrs0), clock = t, user = x\<rparr>"
  have "registry_rel P most ?w []"
    by (simp add: registry_rel_def NewPipeline_def pl_inv_def elems_def most_def Let_def)
  from run_calls_sim [where R = "registry_rel P most" and f = "reg_exec P grow" and g = "reg_spec P most" and cs = calls,
      OF registry_step this]
  have "fst (run_calls (reg_exec P grow) calls ?w) = fst (run_calls (reg_spec P most) calls [])"
    "elems (snd (run_calls (reg_exec P grow) calls ?w)) =
     sort_key (\<lambda>q. Priority (P q)) (snd (run_calls (reg_spec P most) calls []))"
    by (simp_all add: registry_rel_def)
  moreover from this(2)
  have "sl_len (pl_plugins (pipeline (snd (run_calls (reg_exec P grow) calls ?w)))) =
    length (snd (run_calls (reg_spec P most) calls []))"
    by (metis length_elems length_sort)
  ultimately show ?thesis by (simp add: split_beta Let_def Plugins_def PluginCount_def flip: most_def)
qed

section \<open>Contexts are clean\<close>

text \<open>\<open>blank_pool\<close> says that the contexts of the pool carry nothing.\<close>

definition blank_pool :: "'x World \<Rightarrow> bool" where
  "blank_pool w \<longleftrightarrow> (\<forall>c\<in>set (pl_ctxPool (pipeline w)). c = NewContext None [] zero_time)"

lemma fold_delete: "fold (\<lambda>k m. m(k := None)) ks m = (\<lambda>k. if k \<in> set ks then None else m k)"
  by (induction ks arbitrary: m) (auto simp: fun_eq_iff)

lemma pc_Reset_blank:
  assumes "set keys = dom (pc_values c)"
  shows "pc_Reset keys c = NewContext None [] zero_time"
proof -
  have "fold (\<lambda>k m. m(k := None)) keys (pc_values c) = Map.empty"
    unfolding fold_delete using assms by (auto simp: fun_eq_iff dom_def)
  then show ?thesis by (simp add: pc_Reset_def NewContext_def)
qed

lemma PutContext_blank:
  "blank_pool w \<Longrightarrow> set keys = dom (pc_values c) \<Longrightarrow> blank_pool (PutContext keys (c, w))"
  by (auto simp: blank_pool_def PutContext_def pc_Reset_blank)

lemma GetContext_new:
  assumes "blank_pool w"
  shows "fst (GetContext choice ctx requestID w) = NewContext ctx requestID (clock w)"
    and "blank_pool (snd (GetContext choice ctx requestID w))"
proof -
  have "pl_ctxPool (pipeline w) ! i = NewContext None [] zero_time" if "i < length (pl_ctxPool (pipeline w))" for i
    using assms that by (simp add: blank_pool_def)
  then show "fst (GetContext choice ctx requestID w) = NewContext ctx requestID (clock w)"
    by (simp add: GetContext_def NewContext_def Let_def split: option.split)
  show "blank_pool (snd (GetContext choice ctx requestID w))"
    using assms by (auto simp: blank_pool_def GetContext_def Let_def dest: in_set_takeD in_set_dropD split: option.split)
qed

section \<open>Hooks nest\<close>

text \<open>
  Plugins whose hooks are observed: \<open>hooks_run\<close> reads from the world which hooks have run so far, and
  the hooks leave the registry alone.
\<close>

datatype hook_event = PreRan PluginRef | PostRan PluginRef

definition same_registry :: "'x World \<Rightarrow> 'x World \<Rightarrow> bool" where
  "same_registry w w' \<longleftrightarrow> arrays w' = arrays w \<and> pipeline w' = pipeline w"

definition observed ::
  "('x World \<Rightarrow> hook_event list) \<Rightarrow> (PluginRef \<Rightarrow> ('x, 'q, 'r, 'k, 'e) Plugin) \<Rightarrow> PluginRef set \<Rightarrow> bool" where
  "observed hooks_run P R \<longleftrightarrow>
     (\<forall>r\<in>R. \<forall>req c w. case PreHook (P r) req (c, w) of
        (_, _, w') \<Rightarrow> hooks_run w' = hooks_run w @ [PreRan r] \<and> same_registry w w') \<and>
     (\<forall>r\<in>R. \<forall>resp err c w. case PostHook (P r) resp err (c, w) of
        (_, _, w') \<Rightarrow> hooks_run w' = hooks_run w @ [PostRan r] \<and> same_registry w w')"

lemma same_registryD: "same_registry w w' \<Longrightarrow> cell w' = cell w \<and> elems w' = elems w \<and> pipeline w' = pipeline w"
  by (simp add: same_registry_def cell_def elems_def fun_eq_iff)

lemma observedD:
  assumes "observed hooks_run P R" and "r \<in> R"
  shows "case PreHook (P r) req (c, w) of (_, _, w') \<Rightarrow> hooks_run w' = hooks_run w @ [PreRan r] \<and> same_registry w w'"
    and "case PostHook (P r) resp err (c, w) of (_, _, w') \<Rightarrow> hooks_run w' = hooks_run w @ [PostRan r] \<and> same_registry w w'"
  by (rule assms(1) [unfolded observed_def, THEN conjunct1, THEN bspec, OF assms(2), THEN spec, THEN spec, THEN spec])
    (rule assms(1) [unfolded observed_def, THEN conjunct2, THEN bspec, OF assms(2), THEN spec, THEN spec, THEN spec, THEN spec])

lemma timed_pre:
  assumes "observed hooks_run P R" and "r \<in> R" and "timed t (PreHook (P r) req) (c, w) = (res, c', w')"
  shows "hooks_run w' = hooks_run w @ [PreRan r] \<and> same_registry w w' \<and> pc_Context c' = pc_Context c"
proof -
  let ?c = "c\<lparr>pc_Context := WithTimeout (pc_Context c) (clock w) t\<rparr>"
  obtain res0 c0 w0 where hook: "PreHook (P r) req (?c, w) = (res0, c0, w0)" by (metis surj_pair)
  have "case PreHook (P r) req (?c, w) of
      (_, _, w') \<Rightarrow> hooks_run w' = hooks_run w @ [PreRan r] \<and> same_registry w w'"
    by (rule observedD [OF assms(1,2)])
  with hook assms(3) show ?thesis by (auto simp: timed_def)
qed

lemma timed_post:
  assumes "observed hooks_run P R" and "r \<in> R" and "timed t (PostHook (P r) resp err) (c, w) = (res, c', w')"
  shows "hooks_run w' = hooks_run w @ [PostRan r] \<and> same_registry w w' \<and> pc_Context c' = pc_Context c"
proof -
  let ?c = "c\<lparr>pc_Context := WithTimeout (pc_Context c) (clock w) t\<rparr>"
  obtain res0 c0 w0 where hook: "PostHook (P r) resp err (?c, w) = (res0, c0, w0)" by (metis surj_pair)
  have "case PostHook (P r) resp err (?c, w) of
      (_, _, w') \<Rightarrow> hooks_run w' = hooks_run w @ [PostRan r] \<and> same_registry w w'"
    by (rule observedD [OF assms(1,2)])
  with hook assms(3) show ?thesis by (auto simp: timed_def)
qed

lemma pre_loop_observed:
  assumes obs: "observed hooks_run P R"
  shows "cell w s ` {i..<i + n} \<subseteq> R \<Longrightarrow> pre_loop P t s i n req (c, w) = ((req', sc, m), c', w') \<Longrightarrow>
    \<exists>k\<le>n. m = int (i + k) \<and> (sc = None \<longrightarrow> k = n) \<and> hooks_run w' = hooks_run w @ map PreRan (map (cell w s) [i..<i + k]) \<and>
      same_registry w w' \<and> pc_Context c' = pc_Context c"
proof (induction n arbitrary: i req c w)
  case 0
  then show ?case by (auto simp: same_registry_def)
next
  case (Suc n)
  obtain req1 sc1 err1 c1 w1 where hook: "timed t (PreHook (P (cell w s i)) req) (c, w) = ((req1, sc1, err1), c1, w1)"
    by (metis surj_pair)
  have "cell w s i \<in> R" using Suc.prems(1) by auto
  note step = timed_pre [OF obs this hook]
  have same: "cell w1 = cell w" using step same_registryD by blast
  show ?case
  proof (cases sc1)
    case (Some a)
    with Suc.prems(2) hook have "m = int (i + 1)" "sc = Some a" "c' = c1" "w' = w1" by auto
    with step show ?thesis by (intro exI [of _ 1]) simp
  next
    case None
    with Suc.prems(2) hook have pre: "pre_loop P t s (i + 1) n req1 (c1, w1) = ((req', sc, m), c', w')" by simp
    have sub: "cell w1 s ` {i + 1..<i + 1 + n} \<subseteq> R" using Suc.prems(1) same by auto
    from Suc.IH [OF sub pre] obtain k where k: "k \<le> n" "m = int (i + 1 + k)" "sc = None \<longrightarrow> k = n"
      "hooks_run w' = hooks_run w1 @ map PreRan (map (cell w1 s) [i + 1..<i + 1 + k])" "same_registry w1 w'"
      "pc_Context c' = pc_Context c1" by (elim exE conjE)
    have "hooks_run w' = hooks_run w @ map PreRan (map (cell w s) [i..<i + Suc k])"
      using k(4) step by (simp add: upt_rec [of i] same)
    moreover have "same_registry w w'" using k(5) step by (simp add: same_registry_def)
    ultimately show ?thesis using k(1-3,6) step by (intro exI [of _ "Suc k"]) simp
  qed
qed

lemma pre_loop_all:
  assumes "observed hooks_run P R" and "cell w s ` {i..<i + n} \<subseteq> R"
    and "pre_loop P t s i n req (c, w) = ((req', None, m), c', w')"
  shows "hooks_run w' = hooks_run w @ map PreRan (map (cell w s) [i..<i + n]) \<and> same_registry w w'"
  using pre_loop_observed [OF assms] by (elim exE conjE) simp

lemma post_loop_observed:
  assumes obs: "observed hooks_run P R"
  shows "cell w s ` {0..<n} \<subseteq> R \<Longrightarrow> post_loop P t s n resp err (c, w) = (res, c', w') \<Longrightarrow>
    hooks_run w' = hooks_run w @ map PostRan (rev (map (cell w s) [0..<n])) \<and> same_registry w w' \<and> pc_Context c' = pc_Context c"
proof (induction n arbitrary: resp err c w)
  case 0
  then show ?case by (auto simp: same_registry_def)
next
  case (Suc n)
  obtain resp1 err1 perr c1 w1 where
    hook: "timed t (PostHook (P (cell w s n)) resp err) (c, w) = ((resp1, err1, perr), c1, w1)"
    by (metis surj_pair)
  have "cell w s n \<in> R" using Suc.prems(1) by auto
  note step = timed_post [OF obs this hook]
  have same: "cell w1 = cell w" using step same_registryD by blast
  from Suc.prems(2) hook have "post_loop P t s n resp1 err1 (c1, w1) = (res, c', w')" by simp
  moreover have "cell w1 s ` {0..<n} \<subseteq> R" using Suc.prems(1) same by auto
  ultimately have ih: "hooks_run w' = hooks_run w1 @ map PostRan (rev (map (cell w1 s) [0..<n])) \<and>
    same_registry w1 w' \<and> pc_Context c' = pc_Context c1" by (intro Suc.IH)
  with same step show ?case by (simp add: same_registry_def)
qed

lemma take_elems: "k \<le> length (elems w) \<Longrightarrow> map (cell w (pl_plugins (pipeline w))) [0..<k] = take k (elems w)"
  by (rule nth_equalityI) (simp_all add: elems_nth)

lemma RunPreHooks_observed:
  assumes "observed hooks_run P R" and "set (elems w) \<subseteq> R" and "RunPreHooks P req (c, w) = ((req', sc, m), c', w')"
  obtains k where "m = int k" and "k \<le> length (elems w)" and "sc = None \<longrightarrow> k = length (elems w)"
    and "hooks_run w' = hooks_run w @ map PreRan (take k (elems w))" and "same_registry w w'" and "pc_Context c' = pc_Context c"
proof (cases "sl_len (pl_plugins (pipeline w)) = 0")
  case True
  with assms(3) that [of 0] show ?thesis by (simp add: RunPreHooks_def same_registry_def)
next
  case False
  with assms(3) have pre: "pre_loop P (PreHookTimeout (pl_config (pipeline w))) (pl_plugins (pipeline w)) 0
      (length (elems w)) req (c, w) = ((req', sc, m), c', w')" by (simp add: RunPreHooks_def Let_def)
  have sub: "cell w (pl_plugins (pipeline w)) ` {0..<0 + length (elems w)} \<subseteq> R" using assms(2) by (simp add: elems_def)
  from pre_loop_observed [OF assms(1) sub pre] obtain k where "k \<le> length (elems w)" "m = int k"
    "sc = None \<longrightarrow> k = length (elems w)" "same_registry w w'" "pc_Context c' = pc_Context c"
    "hooks_run w' = hooks_run w @ map PreRan (map (cell w (pl_plugins (pipeline w))) [0..<k])"
    by auto
  then show ?thesis using take_elems [of k w] that [of k] by (simp only:)
qed

lemma clamp_within [simp]: "k \<le> n \<Longrightarrow> clamp_run_from (int k) n = k"
  by (simp add: clamp_run_from_def)

lemma RunPostHooks_observed:
  assumes "observed hooks_run P R" and "set (elems w) \<subseteq> R" and "RunPostHooks P resp err (int k) (c, w) = (res, c', w')" and "k \<le> length (elems w)"
  shows "hooks_run w' = hooks_run w @ map PostRan (rev (take k (elems w))) \<and> same_registry w w' \<and> pc_Context c' = pc_Context c"
proof (cases "sl_len (pl_plugins (pipeline w)) = 0")
  case True
  with assms(3,4) show ?thesis by (simp add: RunPostHooks_def same_registry_def)
next
  case False
  with assms(3,4) have "post_loop P (PostHookTimeout (pl_config (pipeline w))) (pl_plugins (pipeline w)) k
      resp err (c, w) = (res, c', w')" by (simp add: RunPostHooks_def Let_def)
  moreover have "cell w (pl_plugins (pipeline w)) ` {0..<k} \<subseteq> R" using assms(2,4) by (auto simp: elems_def)
  ultimately have "hooks_run w' = hooks_run w @ map PostRan (rev (map (cell w (pl_plugins (pipeline w))) [0..<k])) \<and>
    same_registry w w' \<and> pc_Context c' = pc_Context c" by (intro post_loop_observed [OF assms(1)])
  then show ?thesis using take_elems [OF assms(4)] by (simp only:)
qed


text \<open>Plugins that only note that they ran, and a pipeline with two of them.\<close>

definition noting_plugin :: "PluginRef \<Rightarrow> (hook_event list, nat, nat, nat, nat) Plugin" where
  "noting_plugin r =
     \<lparr>Name = (if r = 0 then ''auth'' else if r = 1 then ''audit'' else ''cache''),
      Priority = (if r = 0 then 20 else if r = 1 then 10 else 30),
      PreHook = (\<lambda>req (c, w). ((req, None, None), c, w\<lparr>user := user w @ [PreRan r]\<rparr>)),
      PostHook = (\<lambda>resp err (c, w). ((resp, err, None), c, w\<lparr>user := user w @ [PostRan r]\<rparr>)),
      Cleanup = (\<lambda>w. (None, w)), asStream = None\<rparr>"

definition two_plugins :: "hook_event list World" where
  "two_plugins =
     snd (run_calls (reg_exec noting_plugin (\<lambda>n. 2 * n)) [CallRegister (Some 0), CallRegister (Some 1)]
       \<lparr>arrays = [[]], pipeline = fst (NewPipeline DefaultPipelineConfig []), clock = 0, user = []\<rparr>)"

lemma two_plugins_elems: "elems two_plugins = [1, 0]" and two_plugins_user: "user two_plugins = []"
  by code_simp+

lemma noting_plugin_observed: "observed user noting_plugin R"
  by (simp add: observed_def noting_plugin_def same_registry_def)


section \<open>The registry changes while a request runs\<close>

lemma Unregister_shift:
  fixes P :: "PluginRef \<Rightarrow> ('x, 'q, 'r, 'k, 'e) Plugin"
  assumes inv: "pl_inv w" and "\<not> pl_closed (pipeline w)" and el: "elems w = a # ps"
  shows "map (cell (snd (Unregister P (Name (P a)) w)) (pl_plugins (pipeline w))) [0..<length (elems w)] =
    ps @ [last (a # ps)]"
proof -
  let ?s = "pl_plugins (pipeline w)"
  obtain rest where cells: "arrays w ! sl_array ?s = map Some (a # ps) @ rest" using pl_inv_rest [OF inv] el by metis
  have len: "sl_len ?s = Suc (length ps)" using el length_elems [of w] by simp
  have "cell w ?s 0 = a" using cells by (simp add: cell_def)
  then have "find (\<lambda>i. Name (P (cell w ?s i)) = Name (P a)) [0..<sl_len ?s] = Some 0"
    by (simp add: len upt_rec [of 0])
  then have "arrays (snd (Unregister P (Name (P a)) w)) ! sl_array ?s =
      copy_cells 0 (0 + 1) (length (a # ps) - (0 + 1)) (map Some (a # ps) @ rest)"
    using assms(2) inv by (simp add: Unregister_def cells len pl_inv_def Let_def)
  also have "\<dots> = map Some (ps @ [last (a # ps)]) @ rest" by (subst delete_cells) simp_all
  finally show ?thesis by (intro nth_equalityI) (auto simp: cell_def len nth_append)
qed


text \<open>A third plugin, and the second one replaced by one that unregisters itself.\<close>

definition three_plugins :: "hook_event list World" where
  "three_plugins = snd (Register noting_plugin (\<lambda>n. 2 * n) (Some 2) two_plugins)"

definition leaving_plugin :: "PluginRef \<Rightarrow> (hook_event list, nat, nat, nat, nat) Plugin" where
  "leaving_plugin r =
     (if r = 1
      then (noting_plugin 1)\<lparr>PreHook := (\<lambda>req (c, w).
             ((req, None, None), c, (snd (Unregister noting_plugin ''audit'' w))\<lparr>user := user w @ [PreRan 1]\<rparr>))\<rparr>
      else noting_plugin r)"

lemma leaving_Name: "Name (leaving_plugin r) = Name (noting_plugin r)"
  by (simp add: leaving_plugin_def)

lemma Unregister_names:
  "(\<And>r. Name (P r) = Name (Q r)) \<Longrightarrow> Unregister P nm w = Unregister Q nm w"
  by (simp add: Unregister_def Let_def)

lemma three_plugins_registry:
  "elems three_plugins = [1, 0, 2]" "pl_closed (pipeline three_plugins) = False" "user three_plugins = []"
  "arrays three_plugins = [[], [Some 1, Some 0], [Some 1, Some 0, Some 2, None, None, None]]"
  "sl_array (pl_plugins (pipeline three_plugins)) = 2" "sl_len (pl_plugins (pipeline three_plugins)) = 3"
  by code_simp+

end
