(* ===== verification/Chat_Completion.thy ===== *)
theory Chat_Completion
  imports Client_Properties Plugin_Properties Memory_Cache "HOL-Library.List_Lexorder" "HOL-Library.Char_ord"
begin

text \<open>
  A chat completion from end to end (\<open>ChatCompletion\<close> of \<open>client.go\<close>): validation, the plugins,
  the rate limit, the cache, routing and execution. It composes the plugin pipeline, the client
  and a cache; what refused requests leave untouched and whose answers the cache serves are the
  properties of this composition.
\<close>

section \<open>The cache key\<close>

record cacheKeyData =
  ck_Version :: int
  ck_TenantID :: string
  ck_Model :: string
  ck_Messages :: "string list"
  ck_Temperature :: "float64 option"
  ck_TopP :: "float64 option"
  ck_MaxTokens :: int
  ck_N :: int
  ck_Stop :: "string list"
  ck_PresencePenalty :: "float64 option"
  ck_FrequencyPenalty :: "float64 option"
  ck_User :: string
  ck_Tools :: "string list"
  ck_ToolChoice :: string
  ck_ResponseFormat :: "string option"
  ck_StreamOptions :: "string option"
  ck_Tags :: "string list"
  ck_Extra :: "(string \<times> string) list"

definition tenant_of :: "CallCtx \<Rightarrow> string" where
  "tenant_of cx = (case cx_apiKey cx of Some i \<Rightarrow> i | None \<Rightarrow> [])"

text \<open>
  \<open>keys\<close> is the order in which the range loop visits the extra parameters, whose keys are
  distinct, so that every sort gives the same list. \<open>digest\<close> is \<open>json.Marshal\<close>, which may
  fail, followed by SHA-256 and its hexadecimal form.
\<close>

definition cache_key_data :: "string list \<Rightarrow> CallCtx \<Rightarrow> ChatRequest \<Rightarrow> cacheKeyData" where
  "cache_key_data keys cx req =
     \<lparr>ck_Version = 1, ck_TenantID = tenant_of cx, ck_Model = cq_Model req, ck_Messages = cq_Messages req,
      ck_Temperature = cq_Temperature req, ck_TopP = cq_TopP req, ck_MaxTokens = cq_MaxTokens req, ck_N = cq_N req,
      ck_Stop = cq_Stop req, ck_PresencePenalty = cq_PresencePenalty req,
      ck_FrequencyPenalty = cq_FrequencyPenalty req, ck_User = cq_User req, ck_Tools = cq_Tools req,
      ck_ToolChoice = cq_ToolChoice req, ck_ResponseFormat = cq_ResponseFormat req,
      ck_StreamOptions = cq_StreamOptions req, ck_Tags = cq_Tags req,
      ck_Extra = sort_key fst (map (\<lambda>k. (k, the (fmlookup (cq_Extra req) k))) keys)\<rparr>"

definition generateCacheKey ::
  "(cacheKeyData \<Rightarrow> string option) \<Rightarrow> string list \<Rightarrow> CallCtx \<Rightarrow> ChatRequest option \<Rightarrow> string option" where
  "generateCacheKey digest keys cx req =
     (case req of
        None \<Rightarrow> None
      | Some r \<Rightarrow> map_option (\<lambda>sum. ''chat:'' @ sum) (digest (cache_key_data keys cx r)))"

section \<open>The cache of responses\<close>

text \<open>
  The cache is an interface; \<open>Get\<close> and \<open>Set\<close> may fail. \<open>codec\<close> is the JSON form of responses. The
  counters of hits and misses are telemetry.
\<close>

record 'm ChatCache =
  ca_Get :: "string \<Rightarrow> 'm \<Rightarrow> (go_error + string option) \<times> 'm"
  ca_Set :: "string \<Rightarrow> string \<Rightarrow> go_duration \<Rightarrow> 'm \<Rightarrow> go_error option \<times> 'm"

record codec =
  co_digest :: "cacheKeyData \<Rightarrow> string option"
  co_Marshal :: "ChatResponse \<Rightarrow> string option"
  co_Unmarshal :: "string \<Rightarrow> ChatResponse option"

definition getFromCache ::
  "'m ChatCache \<Rightarrow> codec \<Rightarrow> string list \<Rightarrow> CallCtx \<Rightarrow> ChatRequest \<Rightarrow> 'm option \<Rightarrow> ChatResponse option \<times> 'm option" where
  "getFromCache ops co keys cx req cache =
     (case cache of
        None \<Rightarrow> (None, None)
      | Some m \<Rightarrow>
          (case generateCacheKey (co_digest co) keys cx (Some req) of
             None \<Rightarrow> (None, Some m)
           | Some key \<Rightarrow>
               (case ca_Get ops key m of
                  (Inr (Some data), m') \<Rightarrow> (co_Unmarshal co data, Some m')
                | (_, m') \<Rightarrow> (None, Some m'))))"

definition storeInCache ::
  "'m ChatCache \<Rightarrow> codec \<Rightarrow> go_duration \<Rightarrow> string list \<Rightarrow> CallCtx \<Rightarrow> ChatRequest \<Rightarrow> ChatResponse \<Rightarrow> 'm option \<Rightarrow> 'm option" where
  "storeInCache ops co ttl keys cx req resp cache =
     (case cache of
        None \<Rightarrow> None
      | Some m \<Rightarrow>
          (case generateCacheKey (co_digest co) keys cx (Some req) of
             None \<Rightarrow> Some m
           | Some key \<Rightarrow>
               (case co_Marshal co resp of
                  None \<Rightarrow> Some m
                | Some data \<Rightarrow> Some (snd (ca_Set ops key data ttl m)))))"

section \<open>A chat completion\<close>

text \<open>
  The state of a client beside its plugins, and what the environment contributes to a call: the
  implementations of the interfaces, the tokenizer, the request id, the clock at the pick, the
  attempts, the context's deadline, the choice of \<open>sync.Pool\<close> and the orders of the map
  iterations.
\<close>

record ('s, 'c, 'p, 'l, 'm) chat_state =
  ch_client :: "('s, 'c, 'p) Client"
  ch_limiter :: "'l option"
  ch_cache :: "'m option"

record ('s, 'c, 'p, 'l, 'm) chat_env =
  ce_ops :: "'s StatsStore"
  ce_rops :: "'c RoundRobinStore"
  ce_estimate :: "string \<Rightarrow> ChatRequest \<Rightarrow> int"
  ce_estimateCompletion :: "string \<Rightarrow> ChatResponse \<Rightarrow> int"
  ce_checkAllow :: "Descriptor list \<Rightarrow> 'l \<Rightarrow> (go_error + LimitResult list) \<times> 'l"
  ce_cacheOps :: "'m ChatCache"
  ce_codec :: codec
  ce_requestID :: string
  ce_deadline :: "go_time option"
  ce_pool :: "nat option"
  ce_pickTime :: go_time
  ce_attempts :: "nat \<Rightarrow> 'p attempt"
  ce_extraKeys :: "(string, string) fmap \<Rightarrow> string list"
  ce_valueKeys :: "(string \<rightharpoonup> go_any) \<Rightarrow> string list"

datatype outcome = Returned "ChatResponse option" "go_error option" | Panicked

type_synonym 'x chat_plugins = "PluginRef \<Rightarrow> ('x, ChatRequest, ChatResponse, string, go_error) Plugin"

text \<open>The checks before the plugins run.\<close>

definition validate_request :: "ChatRequest option \<Rightarrow> go_error option" where
  "validate_request req =
     (case req of
        None \<Rightarrow> Some (PlainErr ''request is nil'')
      | Some r \<Rightarrow>
          if cq_Model r = [] then Some (PlainErr ''model is required'')
          else if \<not> ValidateModelName (cq_Model r)
          then Some (PlainErr (''model is too long (max '' @ FormatInt (int MaxModelNameLength) @ '' characters)''))
          else if cq_Messages r = [] then Some (PlainErr ''messages is required'')
          else None)"

text \<open>The rate limit of a request: the key and the estimate that are charged.\<close>

definition chat_rate_limit ::
  "('s, 'c, 'p, 'l, 'm) chat_env \<Rightarrow> CallCtx \<Rightarrow> ChatRequest \<Rightarrow> ('s, 'c, 'p, 'l, 'm) chat_state \<Rightarrow>
   LLMError option \<times> ('s, 'c, 'p, 'l, 'm) chat_state" where
  "chat_rate_limit e cx req ch =
     (let canonicalModel = canonical_model (cq_Model req);
          cfg = cc_RateLimiter (cli_config (ch_client ch));
          apiKey = rateLimitAPIKey cx;
          rateLimitKey = buildRateLimitKey cfg (cq_Model req) (cq_User req) apiKey;
          promptEstimate = ce_estimate e canonicalModel req;
          estimatedTokens = (if cq_MaxTokens req > 0 then promptEstimate + cq_MaxTokens req else promptEstimate);
          (err, limiter) = checkRateLimit (ce_checkAllow e) cfg rateLimitKey canonicalModel estimatedTokens (ch_limiter ch)
      in (err, ch\<lparr>ch_limiter := limiter\<rparr>))"

text \<open>The cache is read and written for requests that do not stream.\<close>

definition chat_lookup ::
  "('s, 'c, 'p, 'l, 'm) chat_env \<Rightarrow> CallCtx \<Rightarrow> ChatRequest \<Rightarrow> ('s, 'c, 'p, 'l, 'm) chat_state \<Rightarrow>
   ChatResponse option \<times> ('s, 'c, 'p, 'l, 'm) chat_state" where
  "chat_lookup e cx req ch =
     (if ch_cache ch \<noteq> None \<and> \<not> cq_Stream req
      then let (cached, cache) = getFromCache (ce_cacheOps e) (ce_codec e) (ce_extraKeys e (cq_Extra req)) cx req
                                   (ch_cache ch)
           in (cached, ch\<lparr>ch_cache := cache\<rparr>)
      else (None, ch))"

definition chat_store ::
  "('s, 'c, 'p, 'l, 'm) chat_env \<Rightarrow> CallCtx \<Rightarrow> ChatRequest \<Rightarrow> ChatResponse option \<Rightarrow> go_error option \<Rightarrow>
   ('s, 'c, 'p, 'l, 'm) chat_state \<Rightarrow> ('s, 'c, 'p, 'l, 'm) chat_state" where
  "chat_store e cx req finalResp finalErr ch =
     (case (finalErr, finalResp) of
        (None, Some resp) \<Rightarrow>
          if ch_cache ch \<noteq> None \<and> \<not> cq_Stream req
          then ch\<lparr>ch_cache := storeInCache (ce_cacheOps e) (ce_codec e) (cc_CacheTTL (cli_config (ch_client ch)))
                               (ce_extraKeys e (cq_Extra req)) cx req resp (ch_cache ch)\<rparr>
          else ch
      | _ \<Rightarrow> ch)"

text \<open>
  The part of a completion between the pre-hooks and the post-hooks: an early return, or the
  response and the error that the post-hooks get.
\<close>

definition chat_execute ::
  "('s, 'c, 'p, 'l, 'm) chat_env \<Rightarrow> CallCtx \<Rightarrow> ChatRequest \<Rightarrow> ('s, 'c, 'p, 'l, 'm) chat_state \<Rightarrow>
   (outcome + ChatResponse option \<times> go_error option) \<times> ('s, 'c, 'p, 'l, 'm) chat_state" where
  "chat_execute e cx req ch =
     (case chat_rate_limit e cx req ch of
        (Some err, ch1) \<Rightarrow> (Inl (Returned None (Some (LLMErr err))), ch1)
      | (None, ch1) \<Rightarrow>
          (case chat_lookup e cx req ch1 of
             (Some resp, ch2) \<Rightarrow>
               (let provider = (case cp_Usage resp of Some u \<Rightarrow> us_Provider u | None \<Rightarrow> [])
                in case validatePricing (canonical_model (cq_Model req)) provider (ch_client ch2) of
                     Some err \<Rightarrow> (Inl (Returned None (Some (LLMErr err))), ch2)
                   | None \<Rightarrow> (Inr (Some resp, None), ch2))
           | (None, ch2) \<Rightarrow>
               (let (res, c) = route_and_execute (ce_ops e) (ce_rops e) (ce_estimate e) (ce_estimateCompletion e)
                                 (ce_pickTime e) (ce_attempts e) cx req (ch_client ch2);
                    ch3 = ch2\<lparr>ch_client := c\<rparr>
                in case res of
                     ExecResponse resp \<Rightarrow> (Inr (Some resp, None), ch3)
                   | ExecError err \<Rightarrow> (Inr (None, Some err), ch3)
                   | ExecNothing \<Rightarrow> (Inr (None, None), ch3)
                   | ExecPanic \<Rightarrow> (Inl Panicked, ch3))))"

text \<open>
  The call between \<open>GetContext\<close> and the deferred \<open>PutContext\<close>. A request that the pre-hooks have
  replaced by nil is dereferenced.
\<close>

definition chat_run ::
  "'x chat_plugins \<Rightarrow> ('s, 'c, 'p, 'l, 'm) chat_env \<Rightarrow> CallCtx \<Rightarrow> ChatRequest option \<Rightarrow> Context \<times> 'x World \<Rightarrow>
   ('s, 'c, 'p, 'l, 'm) chat_state \<Rightarrow> outcome \<times> (Context \<times> 'x World) \<times> ('s, 'c, 'p, 'l, 'm) chat_state" where
  "chat_run P e cx req0 st ch =
     (let ((req, sc, executed), st1) = RunPreHooks P req0 st
      in case (sc, Option.bind sc sc_Error, Option.bind sc sc_Response) of
           (Some _, Some err, _) \<Rightarrow> (Returned None (Some err), st1, ch)
         | (Some _, None, Some resp) \<Rightarrow>
             (let ((finalResp, hookErr), st2) = RunPostHooks P (Some resp) None (PluginCount (snd st1)) st1
              in (Returned finalResp None, st2, ch))
         | _ \<Rightarrow>
             (case req of
                None \<Rightarrow> (Panicked, st1, ch)
              | Some r \<Rightarrow>
                  (case chat_execute e cx r ch of
                     (Inl out, ch1) \<Rightarrow> (out, st1, ch1)
                   | (Inr (resp, err), ch1) \<Rightarrow>
                       (let ((finalResp, finalErr), st2) = RunPostHooks P resp err (PluginCount (snd st1)) st1
                        in (Returned finalResp finalErr, st2, chat_store e cx r finalResp finalErr ch1)))))"

definition ChatCompletion ::
  "'x chat_plugins \<Rightarrow> ('s, 'c, 'p, 'l, 'm) chat_env \<Rightarrow> CallCtx \<Rightarrow> ChatRequest option \<Rightarrow> 'x World \<Rightarrow>
   ('s, 'c, 'p, 'l, 'm) chat_state \<Rightarrow> outcome \<times> 'x World \<times> ('s, 'c, 'p, 'l, 'm) chat_state" where
  "ChatCompletion P e cx req w ch =
     (case validate_request req of
        Some err \<Rightarrow> (Returned None (Some err), w, ch)
      | None \<Rightarrow>
          (let (pCtx, w1) = GetContext (ce_pool e) (ce_deadline e) (ce_requestID e) w;
               (out, st, ch') = chat_run P e cx req (pCtx, w1) ch
           in (out, PutContext (ce_valueKeys e (pc_values (fst st))) st, ch')))"

end
