(* ===== verification/Chat_Properties.thy ===== *)
theory Chat_Properties
  imports Chat_Completion
begin

text \<open>
  Properties of a chat completion from end to end: what a refused request leaves untouched, whose
  answers the cache serves, and which post-hooks run.
\<close>

section \<open>The cache key determines the request\<close>

definition valid_order :: "(string, string) fmap \<Rightarrow> string list \<Rightarrow> bool" where
  "valid_order m keys \<longleftrightarrow> distinct keys \<and> set keys = fset (fmdom m)"

definition same_question :: "CallCtx \<Rightarrow> ChatRequest \<Rightarrow> CallCtx \<Rightarrow> ChatRequest \<Rightarrow> bool" where
  "same_question cx req cx' req' \<longleftrightarrow>
     tenant_of cx = tenant_of cx' \<and> req\<lparr>cq_Stream := False\<rparr> = req'\<lparr>cq_Stream := False\<rparr>"

lemma extra_pairs:
  assumes "valid_order m keys"
  shows "set (sort_key fst (map (\<lambda>k. (k, the (fmlookup m k))) keys)) = {(k, v). fmlookup m k = Some v}"
  using assms by (auto simp: valid_order_def fmlookup_dom_iff image_iff)

lemma extra_determined:
  assumes "valid_order m keys" and "valid_order m' keys'"
  shows "sort_key fst (map (\<lambda>k. (k, the (fmlookup m k))) keys) = sort_key fst (map (\<lambda>k. (k, the (fmlookup m' k))) keys')
    \<longleftrightarrow> m = m'" (is "?l = ?r \<longleftrightarrow> _")
proof
  assume "?l = ?r"
  then have "{(k, v). fmlookup m k = Some v} = {(k, v). fmlookup m' k = Some v}"
    using extra_pairs [OF assms(1)] extra_pairs [OF assms(2)] by simp
  then have "fmlookup m k = Some v \<longleftrightarrow> fmlookup m' k = Some v" for k v by blast
  then have "fmlookup m k = fmlookup m' k" for k by (metis not_None_eq)
  then show "m = m'" by (rule fmap_ext)
next
  assume eq: "m = m'"
  let ?f = "\<lambda>k. (k, the (fmlookup m k))"
  have "mset keys = mset keys'"
    using assms eq set_eq_iff_mset_eq_distinct [of keys keys'] by (simp add: valid_order_def)
  then have "mset (map ?f keys) = mset (map ?f keys')" by simp
  moreover have "inj_on fst (set (map ?f keys))" by (auto simp: inj_on_def)
  ultimately show "?l = ?r"
    using eq by (intro sort_key_inj_key_eq) (simp_all only: mset_sort sorted_sort_key)
qed

lemma cache_key_data_eq:
  assumes "valid_order (cq_Extra req) keys" and "valid_order (cq_Extra req') keys'"
  shows "cache_key_data keys cx req = cache_key_data keys' cx' req' \<longleftrightarrow> same_question cx req cx' req'"
  using extra_determined [OF assms]
  by (cases req; cases req') (auto simp: cache_key_data_def same_question_def)

text \<open>
  What the codec is relied upon for: the JSON forms of different key data differ and SHA-256 does
  not collide on them, and decoding undoes encoding.
\<close>

definition faithful_codec :: "codec \<Rightarrow> bool" where
  "faithful_codec co \<longleftrightarrow>
     (\<forall>a b sum. co_digest co a = Some sum \<longrightarrow> co_digest co b = Some sum \<longrightarrow> a = b) \<and>
     (\<forall>resp data. co_Marshal co resp = Some data \<longrightarrow> co_Unmarshal co data = Some resp)"

lemma generateCacheKey_same:
  assumes "faithful_codec co" and "valid_order (cq_Extra req) keys" and "valid_order (cq_Extra req') keys'"
    and "generateCacheKey (co_digest co) keys cx (Some req) = Some k"
    and "generateCacheKey (co_digest co) keys' cx' (Some req') = Some k"
  shows "same_question cx req cx' req'"
proof -
  from assms(4,5) obtain sum where "co_digest co (cache_key_data keys cx req) = Some sum"
    "co_digest co (cache_key_data keys' cx' req') = Some sum" by (auto simp: generateCacheKey_def)
  with assms(1) have "cache_key_data keys cx req = cache_key_data keys' cx' req'"
    unfolding faithful_codec_def by blast
  with cache_key_data_eq [OF assms(2,3)] show ?thesis by simp
qed

section \<open>What a cache promises\<close>

text \<open>
  \<open>holds m k v\<close>: the cache may answer \<open>v\<close> for \<open>k\<close>. A reading adds nothing to it, a writing at most
  what is written; entries may be lost at any time.
\<close>

locale response_cache =
  fixes ops :: "'m ChatCache" and cinv :: "'m \<Rightarrow> bool" and holds :: "'m \<Rightarrow> string \<Rightarrow> string \<Rightarrow> bool"
  assumes get_held: "cinv m \<Longrightarrow> ca_Get ops k m = (Inr (Some v), m') \<Longrightarrow> holds m k v"
    and get_keeps: "cinv m \<Longrightarrow> ca_Get ops k m = (r, m') \<Longrightarrow> cinv m' \<and> (holds m' k' v' \<longrightarrow> holds m k' v')"
    and set_keeps: "cinv m \<Longrightarrow> cinv (snd (ca_Set ops k v ttl m)) \<and>
      (holds (snd (ca_Set ops k v ttl m)) k' v' \<longrightarrow> k' = k \<and> v' = v \<or> holds m k' v')"

text \<open>Every value of the cache is the encoding of one of the answers \<open>H\<close>, under the key of its request.\<close>

definition held_answer ::
  "codec \<Rightarrow> (CallCtx \<times> ChatRequest \<times> ChatResponse) set \<Rightarrow> string \<Rightarrow> string \<Rightarrow> bool" where
  "held_answer co H k v \<longleftrightarrow>
     (\<exists>keys cx req resp. (cx, req, resp) \<in> H \<and> valid_order (cq_Extra req) keys \<and>
        generateCacheKey (co_digest co) keys cx (Some req) = Some k \<and> co_Marshal co resp = Some v)"

definition stored_from ::
  "('m \<Rightarrow> bool) \<Rightarrow> ('m \<Rightarrow> string \<Rightarrow> string \<Rightarrow> bool) \<Rightarrow> codec \<Rightarrow> (CallCtx \<times> ChatRequest \<times> ChatResponse) set \<Rightarrow>
   'm option \<Rightarrow> bool" where
  "stored_from cinv holds co H cache \<longleftrightarrow>
     (\<forall>m. cache = Some m \<longrightarrow> cinv m \<and> (\<forall>k v. holds m k v \<longrightarrow> held_answer co H k v))"

lemma stored_fromI:
  "cinv m \<Longrightarrow> (\<And>k v. holds m k v \<Longrightarrow> held_answer co H k v) \<Longrightarrow> stored_from cinv holds co H (Some m)"
  by (simp add: stored_from_def)

lemma stored_from_mono: "stored_from cinv holds co H cache \<Longrightarrow> H \<subseteq> H' \<Longrightarrow> stored_from cinv holds co H' cache"
  unfolding stored_from_def held_answer_def by blast

text \<open>The request after the pre-hooks, and the answer that a call has returned for it.\<close>

definition effective_request ::
  "'x chat_plugins \<Rightarrow> ('s, 'c, 'p, 'l, 'm) chat_env \<Rightarrow> ChatRequest option \<Rightarrow> 'x World \<Rightarrow> ChatRequest option" where
  "effective_request P e req w =
     fst (fst (RunPreHooks P req (GetContext (ce_pool e) (ce_deadline e) (ce_requestID e) w)))"

definition served ::
  "CallCtx \<Rightarrow> ChatRequest option \<Rightarrow> outcome \<Rightarrow> (CallCtx \<times> ChatRequest \<times> ChatResponse) set" where
  "served cx req out =
     (case (req, out) of (Some r, Returned (Some resp) None) \<Rightarrow> {(cx, r, resp)} | _ \<Rightarrow> {})"

section \<open>The paths of a completion\<close>

text \<open>
  What a short circuit decides: an error or a response. One that has neither decides nothing and
  the request goes on.
\<close>

definition decides :: "('r, 'e) ShortCircuit option \<Rightarrow> ('e + 'r) option" where
  "decides sc =
     (case sc of
        None \<Rightarrow> None
      | Some s \<Rightarrow> (case sc_Error s of Some err \<Rightarrow> Some (Inl err) | None \<Rightarrow> map_option Inr (sc_Response s)))"

lemma chat_run_early:
  assumes "RunPreHooks P req0 s = ((req, sc, n), st1)" and "decides sc = Some d"
  shows "chat_run P e cx req0 s ch =
    (case d of
       Inl err \<Rightarrow> (Returned None (Some err), st1, ch)
     | Inr resp \<Rightarrow> (Returned (fst (fst (RunPostHooks P (Some resp) None (PluginCount (snd st1)) st1))) None,
                   snd (RunPostHooks P (Some resp) None (PluginCount (snd st1)) st1), ch))"
  using assms(2) by (auto simp: chat_run_def assms(1) decides_def split_beta Let_def split: option.splits)

lemma chat_run_nil:
  assumes "RunPreHooks P req0 s = ((req, sc, n), st1)" and "decides sc = None" and "req = None"
  shows "chat_run P e cx req0 s ch = (Panicked, st1, ch)"
  using assms(2,3) by (auto simp: chat_run_def assms(1) decides_def split: option.splits)

lemma chat_run_goes:
  assumes "RunPreHooks P req0 s = ((req, sc, n), st1)" and "decides sc = None" and "req = Some r"
  shows "chat_run P e cx req0 s ch =
    (case chat_execute e cx r ch of
       (Inl out, ch1) \<Rightarrow> (out, st1, ch1)
     | (Inr (resp, err), ch1) \<Rightarrow>
         (let ((finalResp, finalErr), st2) = RunPostHooks P resp err (PluginCount (snd st1)) st1
          in (Returned finalResp finalErr, st2, chat_store e cx r finalResp finalErr ch1)))"
  using assms(2,3) by (auto simp: chat_run_def assms(1) decides_def split: option.splits)

context response_cache
begin

lemma getFromCache_hit:
  assumes st: "stored_from cinv holds co H cache" and co: "faithful_codec co"
    and keys: "valid_order (cq_Extra req) keys" and get: "getFromCache ops co keys cx req cache = (Some resp, cache')"
  shows "\<exists>cx0 req0. (cx0, req0, resp) \<in> H \<and> same_question cx0 req0 cx req"
proof -
  obtain m where m: "cache = Some m" using get by (cases cache) (simp_all add: getFromCache_def)
  obtain k where k: "generateCacheKey (co_digest co) keys cx (Some req) = Some k"
    using get m by (cases "generateCacheKey (co_digest co) keys cx (Some req)") (simp_all add: getFromCache_def)
  obtain v m' where v: "ca_Get ops k m = (Inr (Some v), m')" "co_Unmarshal co v = Some resp"
    using get m k by (auto simp: getFromCache_def split: prod.splits sum.splits option.splits)
  have "cinv m" using st m by (simp add: stored_from_def)
  with v(1) have "holds m k v" by (rule get_held [rotated])
  with st m obtain keys0 cx0 req0 resp0 where h: "(cx0, req0, resp0) \<in> H" "valid_order (cq_Extra req0) keys0"
    "generateCacheKey (co_digest co) keys0 cx0 (Some req0) = Some k" "co_Marshal co resp0 = Some v"
    unfolding stored_from_def held_answer_def by blast
  have "resp0 = resp" using co h(4) v(2) by (simp add: faithful_codec_def)
  with h(1) generateCacheKey_same [OF co h(2) keys h(3) k] show ?thesis by blast
qed

lemma getFromCache_keeps:
  assumes st: "stored_from cinv holds co H cache" and "getFromCache ops co keys cx req cache = (r, cache')"
  shows "stored_from cinv holds co H cache'"
proof (cases cache)
  case None
  with assms show ?thesis by (simp add: getFromCache_def)
next
  case (Some m)
  then have ok: "cinv m" using st by (simp add: stored_from_def)
  consider "cache' = Some m" | k a m' where "ca_Get ops k m = (a, m')" "cache' = Some m'"
    using assms(2) Some by (auto simp: getFromCache_def split: option.splits prod.splits sum.splits)
  then show ?thesis
  proof cases
    case 2
    from get_keeps [OF ok 2(1)] st Some 2(2) show ?thesis unfolding stored_from_def by blast
  qed (use st Some in simp)
qed

lemma storeInCache_keeps:
  assumes st: "stored_from cinv holds co H cache" and keys: "valid_order (cq_Extra req) keys"
  shows "stored_from cinv holds co (insert (cx, req, resp) H) (storeInCache ops co ttl keys cx req resp cache)"
proof -
  have mono: "stored_from cinv holds co (insert (cx, req, resp) H) cache" using stored_from_mono [OF st] by blast
  consider "storeInCache ops co ttl keys cx req resp cache = cache"
    | m k v where "cache = Some m" "generateCacheKey (co_digest co) keys cx (Some req) = Some k"
      "co_Marshal co resp = Some v" "storeInCache ops co ttl keys cx req resp cache = Some (snd (ca_Set ops k v ttl m))"
    by (cases cache; cases "generateCacheKey (co_digest co) keys cx (Some req)"; cases "co_Marshal co resp")
      (simp_all add: storeInCache_def)
  then show ?thesis
  proof cases
    case 2
    have "cinv m" using st 2(1) by (simp add: stored_from_def)
    note set = set_keeps [OF this, of k v ttl]
    show ?thesis unfolding 2(4)
    proof (rule stored_fromI)
      show "cinv (snd (ca_Set ops k v ttl m))" using set by blast
      fix k' v'
      assume "holds (snd (ca_Set ops k v ttl m)) k' v'"
      with set have "k' = k \<and> v' = v \<or> holds m k' v'" by blast
      then show "held_answer co (insert (cx, req, resp) H) k' v'"
        using mono keys 2(1-3) unfolding stored_from_def held_answer_def by blast
    qed
  qed (use mono in simp)
qed

lemma chat_lookup_keeps:
  assumes "stored_from cinv holds (ce_codec e) H (ch_cache ch)" and "ce_cacheOps e = ops"
  shows "stored_from cinv holds (ce_codec e) H (ch_cache (snd (chat_lookup e cx req ch)))"
  using getFromCache_keeps [OF assms(1)] assms by (auto simp: chat_lookup_def split: prod.split)

lemma chat_store_keeps:
  assumes "stored_from cinv holds (ce_codec e) H (ch_cache ch)" and "ce_cacheOps e = ops"
    and "valid_order (cq_Extra req) (ce_extraKeys e (cq_Extra req))"
  shows "stored_from cinv holds (ce_codec e) (H \<union> served cx (Some req) (Returned resp err))
    (ch_cache (chat_store e cx req resp err ch))"
  using storeInCache_keeps [OF assms(1,3), of cx] stored_from_mono [OF assms(1) subset_insertI, of "(cx, req, the resp)"]
    assms(1,2)
  by (cases resp; cases err) (auto simp: chat_store_def served_def)

lemma chat_execute_keeps:
  assumes "stored_from cinv holds (ce_codec e) H (ch_cache ch)" and "ce_cacheOps e = ops"
  shows "stored_from cinv holds (ce_codec e) H (ch_cache (snd (chat_execute e cx req ch)))"
proof -
  obtain err ch1 where rl: "chat_rate_limit e cx req ch = (err, ch1)" by fastforce
  then have cache1: "ch_cache ch1 = ch_cache ch" by (auto simp: chat_rate_limit_def Let_def split: prod.splits)
  obtain cached ch2 where look: "chat_lookup e cx req ch1 = (cached, ch2)" by fastforce
  with chat_lookup_keeps [of e H ch1 cx req] assms cache1 have "stored_from cinv holds (ce_codec e) H (ch_cache ch2)"
    by simp
  then show ?thesis
    using assms(1) cache1
    by (cases err; cases cached) (simp_all add: chat_execute_def rl look Let_def split: option.split prod.split exec_result.split)
qed

lemma chat_run_keeps:
  assumes st: "stored_from cinv holds (ce_codec e) H (ch_cache ch)" and ops: "ce_cacheOps e = ops"
    and keys: "\<And>m. valid_order m (ce_extraKeys e m)"
  shows "stored_from cinv holds (ce_codec e)
    (H \<union> served cx (fst (fst (RunPreHooks P req0 s))) (fst (chat_run P e cx req0 s ch)))
    (ch_cache (snd (snd (chat_run P e cx req0 s ch))))"
proof -
  obtain req sc n st1 where pre: "RunPreHooks P req0 s = ((req, sc, n), st1)" by (metis surj_pair)
  have mono: "stored_from cinv holds (ce_codec e) (H \<union> X) c" if "stored_from cinv holds (ce_codec e) H c" for X c
    using stored_from_mono [OF that] by blast
  note execute = chat_execute_keeps [OF st ops]
  consider "snd (snd (chat_run P e cx req0 s ch)) = ch" | r where "decides sc = None" "req = Some r"
    using chat_run_early [OF pre, of _ e cx ch] chat_run_nil [OF pre, of e cx ch]
    by (cases "decides sc"; cases req) (auto split: sum.splits)
  then show ?thesis
  proof cases
    case 1
    then show ?thesis using mono [OF st] by simp
  next
    case (2 r)
    obtain res ch1 where ex: "chat_execute e cx r ch = (res, ch1)" by fastforce
    with execute [of cx r] have ok: "stored_from cinv holds (ce_codec e) H (ch_cache ch1)" by simp
    show ?thesis
    proof (cases res)
      case (Inl out)
      then show ?thesis using mono [OF ok] chat_run_goes [OF pre 2(1), of r e cx ch] 2(2) ex by simp
    next
      case (Inr a)
      then show ?thesis
        using chat_store_keeps [OF ok ops keys] chat_run_goes [OF pre 2(1), of r e cx ch] 2(2) ex pre
        by (cases a) (simp add: split_beta)
    qed
  qed
qed

lemma ChatCompletion_keeps:
  assumes st: "stored_from cinv holds (ce_codec e) H (ch_cache ch)" and ops: "ce_cacheOps e = ops"
    and keys: "\<And>m. valid_order m (ce_extraKeys e m)"
    and call: "ChatCompletion P e cx req w ch = (out, w', ch')"
  shows "stored_from cinv holds (ce_codec e) (H \<union> served cx (effective_request P e req w) out) (ch_cache ch')"
proof (cases "validate_request req")
  case None
  let ?s = "GetContext (ce_pool e) (ce_deadline e) (ce_requestID e) w"
  have "out = fst (chat_run P e cx req ?s ch)" "ch' = snd (snd (chat_run P e cx req ?s ch))"
    using call None by (auto simp: ChatCompletion_def split_beta Let_def)
  with chat_run_keeps [OF st ops keys, of cx P req ?s] show ?thesis by (simp add: effective_request_def)
next
  case (Some err)
  then have "ch' = ch" using call by (simp add: ChatCompletion_def)
  then show ?thesis using stored_from_mono [OF st] by blast
qed

end

section \<open>The memory cache as a cache of responses\<close>

text \<open>The operations of the memory cache at the times \<open>t1\<close> of a reading and \<open>t2\<close>, \<open>t3\<close> of a writing.\<close>

definition memory_cache_ops :: "go_time \<Rightarrow> go_time \<Rightarrow> go_time \<Rightarrow> MemCache ChatCache" where
  "memory_cache_ops t1 t2 t3 =
     \<lparr>ca_Get = (\<lambda>k m. map_prod Inr id (mc_Get t1 k m)), ca_Set = (\<lambda>k v ttl m. (None, mc_Set t2 t3 k v ttl m))\<rparr>"

definition mc_holds :: "MemCache \<Rightarrow> string \<Rightarrow> string \<Rightarrow> bool" where
  "mc_holds m k v \<longleftrightarrow> map_option ce_value (fmlookup (mc_data m) k) = Some v"

lemma mc_Set_holds:
  assumes "mc_inv m" and "mc_holds (mc_Set t2 t3 k v ttl m) k' v'"
  shows "k' = k \<and> v' = v \<or> mc_holds m k' v'"
proof (cases "int (length v) \<le> mc_maxItemSize m")
  case True
  show ?thesis
    by (rule mc_Set_cases [OF assms(1) True, of t2 t3 k ttl])
      (use assms(2) in \<open>auto simp: mc_holds_def split: if_splits\<close>)
next
  case False
  with assms(2) show ?thesis by (simp add: mc_Set_def)
qed

interpretation mem_responses: response_cache "memory_cache_ops t1 t2 t3" mc_inv mc_holds for t1 t2 t3
proof (unfold_locales, goal_cases)
  case (1 m k v m')
  then show ?case by (auto simp: memory_cache_ops_def mc_Get_eq mc_holds_def split: option.splits if_splits)
next
  case (2 m k r m' k' v')
  then have "m' = snd (mc_Get t1 k m)" by (cases "mc_Get t1 k m") (simp add: memory_cache_ops_def)
  with 2 show ?case using mc_Get_state [of m t1 k] by (auto simp: mc_holds_def mc_shrinks_def) (metis option.distinct(1))
next
  case (3 m k v ttl k' v')
  then show ?case using mc_Set_inv mc_Set_holds by (simp add: memory_cache_ops_def)
qed

section \<open>Whose answers the cache serves\<close>

text \<open>A session of calls, with the answers that they have returned.\<close>

primrec chat_session ::
  "'x chat_plugins \<Rightarrow> (('s, 'c, 'p, 'l, 'm) chat_env \<times> CallCtx \<times> ChatRequest option) list \<Rightarrow>
   'x World \<times> ('s, 'c, 'p, 'l, 'm) chat_state \<times> (CallCtx \<times> ChatRequest \<times> ChatResponse) set \<Rightarrow>
   'x World \<times> ('s, 'c, 'p, 'l, 'm) chat_state \<times> (CallCtx \<times> ChatRequest \<times> ChatResponse) set" where
  "chat_session P [] s = s"
| "chat_session P (call # calls) s =
     (let (e, cx, req) = call;
          (w, ch, H) = s;
          (out, w', ch') = ChatCompletion P e cx req w ch
      in chat_session P calls (w', ch', H \<union> served cx (effective_request P e req w) out))"

text \<open>The environments of a session on a memory cache: only times and orders vary.\<close>

definition memory_cache_env :: "codec \<Rightarrow> ('s, 'c, 'p, 'l, MemCache) chat_env \<Rightarrow> bool" where
  "memory_cache_env co e \<longleftrightarrow>
     (\<exists>t1 t2 t3. ce_cacheOps e = memory_cache_ops t1 t2 t3) \<and> ce_codec e = co \<and>
     (\<forall>m. valid_order m (ce_extraKeys e m))"

lemma chat_session_keeps:
  assumes "\<forall>(e, cx, req)\<in>set calls. memory_cache_env co e" and "stored_from mc_inv mc_holds co H (ch_cache ch)"
    and "chat_session P calls (w, ch, H) = (w', ch', H')"
  shows "stored_from mc_inv mc_holds co H' (ch_cache ch')"
  using assms
proof (induction calls arbitrary: w ch H)
  case (Cons call calls)
  obtain e cx req where call: "call = (e, cx, req)" by (metis surj_pair)
  obtain out w1 ch1 where cc: "ChatCompletion P e cx req w ch = (out, w1, ch1)" by (metis surj_pair)
  from Cons.prems(1) call have env: "memory_cache_env co e" and rest: "\<forall>(e, cx, req)\<in>set calls. memory_cache_env co e" by auto
  then obtain t1 t2 t3 where "ce_cacheOps e = memory_cache_ops t1 t2 t3" "ce_codec e = co"
    "\<And>m. valid_order m (ce_extraKeys e m)" by (auto simp: memory_cache_env_def)
  with mem_responses.ChatCompletion_keeps [of e H ch t1 t2 t3, OF _ _ _ cc] Cons.prems(2)
  have "stored_from mc_inv mc_holds co (H \<union> served cx (effective_request P e req w) out) (ch_cache ch1)" by simp
  from Cons.IH [OF rest this] Cons.prems(3) call cc show ?case by simp
qed simp

text \<open>
  \<^bold>\<open>C5\<close>. The response cache keeps tenants and questions apart: after any chat completions by any
  tenants on a fresh memory cache, with any plugins, an answer that is found in the cache was
  returned before to the same tenant, for a request that agrees in every field except whether it
  streams. The order in which the extra parameters are visited makes no difference.
\<close>

theorem cache_serves_own_answers:
  assumes "faithful_codec co" and "\<forall>(e, cx, req)\<in>set calls. memory_cache_env co e"
    and "ch_cache ch = Some (mc_New cfg)" and "chat_session P calls (w, ch, {}) = (w', ch', H)"
    and "valid_order (cq_Extra req) keys"
    and "getFromCache (memory_cache_ops t1 t2 t3) co keys cx req (ch_cache ch') = (Some resp, cache)"
  shows "\<exists>cx0 req0. (cx0, req0, resp) \<in> H \<and> tenant_of cx0 = tenant_of cx \<and>
    req0\<lparr>cq_Stream := False\<rparr> = req\<lparr>cq_Stream := False\<rparr>"
proof -
  have "mc_data (mc_New cfg) = fmempty" by (simp add: mc_New_def)
  then have "stored_from mc_inv mc_holds co {} (ch_cache ch)"
    using assms(3) by (simp add: stored_from_def mc_New_inv mc_holds_def)
  from chat_session_keeps [OF assms(2) this assms(4)] have "stored_from mc_inv mc_holds co H (ch_cache ch')" .
  from mem_responses.getFromCache_hit [OF this assms(1,5,6)] show ?thesis by (simp add: same_question_def)
qed

text \<open>
  A session of one call: no deployment is configured, and a plugin recovers with an answer of its
  own, which is stored. The codec knows the demonstration request only, for every tenant.
\<close>

definition demo_answer :: ChatResponse where
  "demo_answer = \<lparr>cp_Model = ''gpt'', cp_Usage = None, cp_Body = ''hello''\<rparr>"

definition recovering_plugin :: "unit chat_plugins" where
  "recovering_plugin r =
     \<lparr>Name = ''recover'', Priority = 1, PreHook = (\<lambda>req st. ((req, None, None), st)),
      PostHook = (\<lambda>resp err st. ((Some demo_answer, None, None), st)), Cleanup = (\<lambda>w. (None, w)), asStream = None\<rparr>"

definition demo_world :: "unit World" where
  "demo_world =
     snd (Register recovering_plugin (\<lambda>n. n) (Some 0)
       \<lparr>arrays = [[]], pipeline = fst (NewPipeline DefaultPipelineConfig []), clock = 0, user = ()\<rparr>)"

definition tenant_ctx :: "string \<Rightarrow> CallCtx" where
  "tenant_ctx t = \<lparr>cx_scope = [], cx_apiKey = Some t, cx_rateKey = []\<rparr>"

definition demo_codec :: codec where
  "demo_codec =
     \<lparr>co_digest = (\<lambda>a. if a = cache_key_data [] (tenant_ctx (ck_TenantID a)) demo_request then Some (ck_TenantID a) else None),
      co_Marshal = (\<lambda>r. if r = demo_answer then Some ''answer'' else None),
      co_Unmarshal = (\<lambda>s. if s = ''answer'' then Some demo_answer else None)\<rparr>"

definition demo_env :: "(MemoryStatsStore, MemoryRoundRobinStore, unit, unit, MemCache) chat_env" where
  "demo_env =
     \<lparr>ce_ops = memory_ops, ce_rops = memory_rr_ops, ce_estimate = (\<lambda>_ _. 1), ce_estimateCompletion = (\<lambda>_ _. 1),
      ce_checkAllow = (\<lambda>_ l. (Inr [], l)), ce_cacheOps = memory_cache_ops 5 6 7, ce_codec = demo_codec,
      ce_requestID = ''r1'', ce_deadline = None, ce_pool = None, ce_pickTime = 5, ce_attempts = busy_provider,
      ce_extraKeys = (\<lambda>m. sorted_list_of_fset (fmdom m)), ce_valueKeys = (\<lambda>_. [])\<rparr>"

definition demo_chat :: "(MemoryStatsStore, MemoryRoundRobinStore, unit, unit, MemCache) chat_state" where
  "demo_chat =
     \<lparr>ch_client = demo_client\<lparr>cli_router := ShuffleRouter (NewBaseRouter no_draws DefaultConfig)\<rparr>, ch_limiter = None, ch_cache = Some (mc_New mc_DefaultConfig)\<rparr>"

lemma demo_hit:
  "fst (getFromCache (memory_cache_ops 8 9 10) demo_codec [] (tenant_ctx ''a'') demo_request
     (ch_cache (fst (snd (chat_session recovering_plugin [(demo_env, tenant_ctx ''a'', Some demo_request)]
        (demo_world, demo_chat, {})))))) = Some demo_answer"
  by code_simp

lemma demo_codec_faithful: "faithful_codec demo_codec"
proof -
  have "a = b" if "a = cache_key_data [] (tenant_ctx (ck_TenantID a)) demo_request"
    "b = cache_key_data [] (tenant_ctx (ck_TenantID b)) demo_request" "ck_TenantID a = ck_TenantID b" for a b
    using that by metis
  then show ?thesis by (auto simp: faithful_codec_def demo_codec_def split: if_splits)
qed

lemma demo_env_on_memory: "memory_cache_env demo_codec demo_env"
  by (auto simp: memory_cache_env_def demo_env_def valid_order_def sorted_list_of_fset.rep_eq)

theorem cache_serves_own_answers_witness:
  "\<exists>cx0 req0. (cx0, req0, demo_answer) \<in> snd (snd (chat_session recovering_plugin
     [(demo_env, tenant_ctx ''a'', Some demo_request)] (demo_world, demo_chat, {}))) \<and>
     tenant_of cx0 = ''a'' \<and> req0\<lparr>cq_Stream := False\<rparr> = demo_request"
proof -
  obtain w' ch' H where run: "chat_session recovering_plugin [(demo_env, tenant_ctx ''a'', Some demo_request)]
    (demo_world, demo_chat, {}) = (w', ch', H)" by (metis surj_pair)
  obtain cache where hit: "getFromCache (memory_cache_ops 8 9 10) demo_codec [] (tenant_ctx ''a'') demo_request (ch_cache ch') =
    (Some demo_answer, cache)" using demo_hit run by (metis fst_conv snd_conv prod.collapse)
  have "\<exists>cx0 req0. (cx0, req0, demo_answer) \<in> H \<and> tenant_of cx0 = tenant_of (tenant_ctx ''a'') \<and>
      req0\<lparr>cq_Stream := False\<rparr> = demo_request\<lparr>cq_Stream := False\<rparr>"
    by (rule cache_serves_own_answers [OF demo_codec_faithful _ _ run _ hit])
      (simp_all add: demo_env_on_memory demo_chat_def valid_order_def demo_request_def)
  then show ?thesis using run by (simp add: tenant_of_def tenant_ctx_def demo_request_def)
qed

section \<open>Refused requests\<close>

lemma chat_rate_limit_frame:
  "ch_client (snd (chat_rate_limit e cx req ch)) = ch_client ch"
  "ch_cache (snd (chat_rate_limit e cx req ch)) = ch_cache ch"
  by (simp_all add: chat_rate_limit_def split_beta Let_def)

lemma chat_lookup_frame:
  "ch_client (snd (chat_lookup e cx req ch)) = ch_client ch" "ch_limiter (snd (chat_lookup e cx req ch)) = ch_limiter ch"
  by (simp_all add: chat_lookup_def split_beta Let_def)

lemma chat_store_frame [simp]: "ch_client (chat_store e cx req resp err ch) = ch_client ch"
  by (simp add: chat_store_def split: option.split)

lemma chat_execute_hit:
  assumes "chat_rate_limit e cx r ch = (None, ch1)" and "chat_lookup e cx r ch1 = (Some resp, ch2)"
  shows "ch_client (snd (chat_execute e cx r ch)) = ch_client ch"
  using chat_rate_limit_frame(1) [of e cx r ch] chat_lookup_frame(1) [of e cx r ch1]
  by (simp add: chat_execute_def assms Let_def split: option.split)


definition blocking_plugin :: "unit chat_plugins" where
  "blocking_plugin r =
     (recovering_plugin r)\<lparr>PreHook := (\<lambda>req st.
        ((req, Some \<lparr>sc_Response = None, sc_Error = Some (PlainErr ''blocked''), sc_AllowFallback = False,
                     sc_Metadata = Map.empty\<rparr>, None), st))\<rparr>"

lemma blocking_decides:
  "decides (fst (snd (fst (RunPreHooks blocking_plugin (Some demo_request)
     (GetContext (ce_pool demo_env) (ce_deadline demo_env) (ce_requestID demo_env) demo_world))))) =
   Some (Inl (PlainErr ''blocked''))"
  by code_simp


section \<open>Which post-hooks run\<close>

lemma GetContext_frame [simp]:
  "user (snd (GetContext choice ctx rid w)) = user w" "elems (snd (GetContext choice ctx rid w)) = elems w"
  by (simp_all add: GetContext_def elems_def cell_def Let_def split: prod.split)

lemma PutContext_user [simp]: "user (PutContext keys st) = user (snd st)"
  by (simp add: PutContext_def split_beta)

lemma PluginCount_elems: "PluginCount w = int (length (elems w))"
  by (simp add: PluginCount_def)

text \<open>
  \<^bold>\<open>C33\<close>. Early returns break the nesting of hooks. When a pre-hook short-circuits with a response,
  the post-hooks of all plugins run, also of those whose pre-hook has not run; when it
  short-circuits with an error, or when the request is refused after the pre-hooks, by the rate
  limit or for want of a price, no post-hook runs, although pre-hooks have.
\<close>

theorem early_returns_break_nesting:
  fixes f :: "'x \<Rightarrow> hook_event list"
  assumes obs: "observed (\<lambda>w. f (user w)) P (set (elems w))" and valid: "validate_request req = None"
    and call: "ChatCompletion P e cx req w ch = (out, w', ch')"
    and pre: "RunPreHooks P req (GetContext (ce_pool e) (ce_deadline e) (ce_requestID e) w) = ((req1, sc, n), st1)"
  shows "\<exists>k\<le>length (elems w). n = int k \<and>
    (case decides sc of
       Some (Inr resp) \<Rightarrow>
         f (user w') = f (user w) @ map PreRan (take k (elems w)) @ map PostRan (rev (elems w))
     | Some (Inl err) \<Rightarrow> f (user w') = f (user w) @ map PreRan (take k (elems w))
     | None \<Rightarrow> (\<forall>r out ch1. req1 = Some r \<longrightarrow> chat_execute e cx r ch = (Inl out, ch1) \<longrightarrow>
                  f (user w') = f (user w) @ map PreRan (take k (elems w))))"
proof -
  obtain pCtx w0 where ctx: "GetContext (ce_pool e) (ce_deadline e) (ce_requestID e) w = (pCtx, w0)" by fastforce
  obtain c1 w1 where st1: "st1 = (c1, w1)" by fastforce
  have w0: "user w0 = user w" "elems w0 = elems w"
    using GetContext_frame [of "ce_pool e" "ce_deadline e" "ce_requestID e" w] ctx by simp_all
  have obs0: "observed (\<lambda>w. f (user w)) P (set (elems w0))" using obs w0(2) by simp
  from RunPreHooks_observed [OF obs0 subset_refl pre [unfolded ctx st1]]
  obtain k where k: "n = int k" "k \<le> length (elems w0)" "f (user w1) = f (user w0) @ map PreRan (take k (elems w0))"
    "same_registry w0 w1" by metis
  have el: "elems w1 = elems w0" using same_registryD [OF k(4)] by blast
  have w': "user w' = user (snd (fst (snd (chat_run P e cx req (pCtx, w0) ch))))"
    using call valid ctx by (auto simp: ChatCompletion_def split_beta Let_def)
  note pre' = pre [unfolded ctx]
  have "f (user w') = f (user w) @ map PreRan (take k (elems w)) @ map PostRan (rev (elems w))"
    if dec: "decides sc = Some (Inr resp)" for resp
  proof -
    obtain res c2 w2 where post: "RunPostHooks P (Some resp) None (int (length (elems w1))) (c1, w1) = (res, c2, w2)"
      by (metis surj_pair)
    then have "user w' = user w2" using w' chat_run_early [OF pre' dec, of e cx ch] by (simp add: st1 PluginCount_def)
    moreover have "f (user w2) = f (user w1) @ map PostRan (rev (take (length (elems w1)) (elems w1)))"
      using RunPostHooks_observed [OF obs0 _ post] el by (simp del: length_elems)
    ultimately show ?thesis using k(3) w0 el by simp
  qed
  moreover have "f (user w') = f (user w) @ map PreRan (take k (elems w))" if dec: "decides sc = Some (Inl err)" for err
    using w' chat_run_early [OF pre' dec, of e cx ch] k(3) w0 st1 by simp
  moreover have "f (user w') = f (user w) @ map PreRan (take k (elems w))"
    if "decides sc = None" "req1 = Some r" "chat_execute e cx r ch = (Inl out, ch1)" for r out ch1
    using w' chat_run_goes [OF pre' that(1,2), of e cx ch] that(3) k(3) w0 st1 by simp
  ultimately show ?thesis using k(1,2) w0(2) by (intro exI [of _ k]) (auto split: option.split sum.split)
qed

text \<open>The first of two plugins has the answer.\<close>

definition answering_plugin :: "hook_event list chat_plugins" where
  "answering_plugin r =
     \<lparr>Name = (if r = 0 then ''auth'' else ''cache''), Priority = (if r = 0 then 20 else 10),
      PreHook = (\<lambda>req (c, w).
        ((req, if r = 0 then None
               else Some \<lparr>sc_Response = Some demo_answer, sc_Error = None, sc_AllowFallback = False,
                          sc_Metadata = Map.empty\<rparr>, None),
         c, w\<lparr>user := user w @ [PreRan r]\<rparr>)),
      PostHook = (\<lambda>resp err (c, w). ((resp, err, None), c, w\<lparr>user := user w @ [PostRan r]\<rparr>)),
      Cleanup = (\<lambda>w. (None, w)), asStream = None\<rparr>"

definition answering_world :: "hook_event list World" where
  "answering_world =
     snd (run_calls (reg_exec answering_plugin (\<lambda>n. 2 * n)) [CallRegister (Some 0), CallRegister (Some 1)]
       \<lparr>arrays = [[]], pipeline = fst (NewPipeline DefaultPipelineConfig []), clock = 0, user = []\<rparr>)"

lemma answering_facts:
  "elems answering_world = [1, 0]" "user answering_world = []"
  "(case fst (RunPreHooks answering_plugin (Some demo_request)
      (GetContext (ce_pool demo_env) (ce_deadline demo_env) (ce_requestID demo_env) answering_world)) of
    (_, sc, n) \<Rightarrow> decides sc = Some (Inr demo_answer) \<and> n = 1)"
  "validate_request (Some demo_request) = None"
  by code_simp+

theorem early_returns_break_nesting_witness:
  "user (fst (snd (ChatCompletion answering_plugin demo_env (tenant_ctx ''a'') (Some demo_request) answering_world
     demo_chat))) = [PreRan 1, PostRan 0, PostRan 1]"
proof -
  obtain out w ch where call: "ChatCompletion answering_plugin demo_env (tenant_ctx ''a'') (Some demo_request)
    answering_world demo_chat = (out, w, ch)" by (metis surj_pair)
  obtain req sc n st where pre: "RunPreHooks answering_plugin (Some demo_request)
    (GetContext (ce_pool demo_env) (ce_deadline demo_env) (ce_requestID demo_env) answering_world) = ((req, sc, n), st)"
    by (metis surj_pair)
  have obs: "observed (\<lambda>w. id (user w)) answering_plugin (set (elems answering_world))"
    by (simp add: observed_def answering_plugin_def same_registry_def)
  from early_returns_break_nesting [OF obs answering_facts(4) call pre] answering_facts(3) pre
  show ?thesis by (auto simp: call answering_facts(1,2))
qed

end
