(* ===== verification/Builtin_Plugins.thy ===== *)
theory Builtin_Plugins
  imports Chat_Properties
begin

text \<open>
  The plugins that come with the gateway and keep a state that decides about requests
  (\<open>internal/plugin/builtin\<close>): the rate limiter with its token buckets, and the response cache with
  its backend in memory. Hooks are functions on the plugin's state; the requests that reach them
  are not nil.
\<close>

section \<open>Token buckets\<close>

record tokenBucket =
  tb_rate :: float64
  tb_burst :: int
  tb_tokens :: float64
  tb_lastTime :: go_time

definition newTokenBucket :: "float64 \<Rightarrow> int \<Rightarrow> go_time \<Rightarrow> tokenBucket" where
  "newTokenBucket rate burst now = \<lparr>tb_rate = rate, tb_burst = burst, tb_tokens = of_int burst, tb_lastTime = now\<rparr>"

definition tb_allow :: "go_time \<Rightarrow> tokenBucket \<Rightarrow> bool \<times> tokenBucket" where
  "tb_allow now tb =
     (let elapsed = Seconds (now - tb_lastTime tb);
          refilled = tb_tokens tb + elapsed * tb_rate tb;
          tokens = (if refilled > of_int (tb_burst tb) then of_int (tb_burst tb) else refilled);
          tb' = tb\<lparr>tb_lastTime := now, tb_tokens := tokens\<rparr>
      in if tokens \<ge> 1 then (True, tb'\<lparr>tb_tokens := tokens - 1\<rparr>) else (False, tb'))"

section \<open>The rate limiter\<close>

record RateLimitPlugin =
  rp_limiter :: tokenBucket
  rp_priority :: int
  rp_KeyFunc :: "Context \<Rightarrow> string"
  rp_perKeyLimiters :: "string \<rightharpoonup> tokenBucket"
  rp_rate :: float64
  rp_burst :: int

definition defaultRateKey :: "Context \<Rightarrow> string" where
  "defaultRateKey ctx =
     (case Option.bind (pc_Auth ctx) ac_APIKey of
        Some k \<Rightarrow> if ak_ID k \<noteq> [] then ak_ID k else ''global''
      | None \<Rightarrow> ''global'')"

definition NewRateLimitPlugin ::
  "float64 \<Rightarrow> int \<Rightarrow> (RateLimitPlugin \<Rightarrow> RateLimitPlugin) list \<Rightarrow> go_time \<Rightarrow> RateLimitPlugin" where
  "NewRateLimitPlugin rate burst opts now =
     fold (\<lambda>opt. opt) opts
       \<lparr>rp_limiter = newTokenBucket rate burst now, rp_priority = 5, rp_KeyFunc = defaultRateKey,
        rp_perKeyLimiters = Map.empty, rp_rate = rate, rp_burst = burst\<rparr>"

definition WithRateLimitPriority :: "int \<Rightarrow> RateLimitPlugin \<Rightarrow> RateLimitPlugin" where
  "WithRateLimitPriority priority p = p\<lparr>rp_priority := priority\<rparr>"

definition WithRateLimitKeyFunc :: "(Context \<Rightarrow> string) \<Rightarrow> RateLimitPlugin \<Rightarrow> RateLimitPlugin" where
  "WithRateLimitKeyFunc fn p = p\<lparr>rp_KeyFunc := fn\<rparr>"

definition WithPerKeyLimiting :: "RateLimitPlugin \<Rightarrow> RateLimitPlugin" where
  "WithPerKeyLimiting p = p"

text \<open>
  \<open>getLimiter\<close> returns a pointer to the bucket of a key, which \<open>allow\<close> changes: \<open>rp_putLimiter\<close>
  writes the changed bucket back to where it was found. \<open>now\<close> is the clock when a bucket is made.
\<close>

definition rp_getLimiter :: "go_time \<Rightarrow> string \<Rightarrow> RateLimitPlugin \<Rightarrow> tokenBucket \<times> RateLimitPlugin" where
  "rp_getLimiter now key p =
     (if key = ''global'' then (rp_limiter p, p)
      else case rp_perKeyLimiters p key of
             Some limiter \<Rightarrow> (limiter, p)
           | None \<Rightarrow>
               (let newLimiter = newTokenBucket (rp_rate p) (rp_burst p) now
                in (newLimiter, p\<lparr>rp_perKeyLimiters := (rp_perKeyLimiters p)(key \<mapsto> newLimiter)\<rparr>)))"

definition rp_putLimiter :: "string \<Rightarrow> tokenBucket \<Rightarrow> RateLimitPlugin \<Rightarrow> RateLimitPlugin" where
  "rp_putLimiter key tb p =
     (if key = ''global'' then p\<lparr>rp_limiter := tb\<rparr>
      else p\<lparr>rp_perKeyLimiters := (rp_perKeyLimiters p)(key \<mapsto> tb)\<rparr>)"

text \<open>The error of a refusal has the fixed message; \<open>Error()\<close> returns it.\<close>

definition rateLimitError :: go_error where
  "rateLimitError = PlainErr ''rate limit exceeded''"

definition rp_PreHook ::
  "go_time \<Rightarrow> go_time \<Rightarrow> Context \<Rightarrow> ChatRequest \<Rightarrow> RateLimitPlugin \<Rightarrow>
   (ChatRequest \<times> (ChatResponse, go_error) ShortCircuit option \<times> go_error option) \<times> RateLimitPlugin" where
  "rp_PreHook now now2 ctx req p =
     (let key = rp_KeyFunc p ctx;
          (limiter, p1) = rp_getLimiter now key p;
          (ok, limiter') = tb_allow now2 limiter;
          p2 = rp_putLimiter key limiter' p1
      in if \<not> ok
         then ((req, Some \<lparr>sc_Response = None, sc_Error = Some rateLimitError, sc_AllowFallback = False,
                           sc_Metadata = [''rate_limited'' \<mapsto> AnyBool True, ''limit_key'' \<mapsto> AnyString key]\<rparr>, None), p2)
         else ((req, None, None), p2))"

section \<open>The cache plugin\<close>

text \<open>The backend is an interface.\<close>

record 'b CacheBackend =
  cb_Get :: "string \<Rightarrow> 'b \<Rightarrow> (go_error + ChatResponse option) \<times> 'b"
  cb_Set :: "string \<Rightarrow> ChatResponse \<Rightarrow> go_duration \<Rightarrow> 'b \<Rightarrow> go_error option \<times> 'b"

text \<open>
  \<open>hash\<close> is \<open>json.Marshal\<close>, which may fail, followed by SHA-256 and its hexadecimal form, on the
  model, the messages and the tools.
\<close>

definition defaultKeyFunc :: "(string \<times> string list \<times> string list \<Rightarrow> string option) \<Rightarrow> ChatRequest \<Rightarrow> string option" where
  "defaultKeyFunc hash req = hash (cq_Model req, cq_Messages req, cq_Tools req)"

record CachePlugin =
  cpl_priority :: int
  cpl_ttl :: go_duration
  cpl_KeyFunc :: "ChatRequest \<Rightarrow> string option"

definition NewCachePlugin ::
  "(string \<times> string list \<times> string list \<Rightarrow> string option) \<Rightarrow> (CachePlugin \<Rightarrow> CachePlugin) list \<Rightarrow> CachePlugin" where
  "NewCachePlugin hash opts =
     fold (\<lambda>opt. opt) opts \<lparr>cpl_priority = 10, cpl_ttl = hour, cpl_KeyFunc = defaultKeyFunc hash\<rparr>"

definition cpl_PreHook ::
  "'b CacheBackend \<Rightarrow> CachePlugin \<Rightarrow> ChatRequest \<Rightarrow> Context \<times> 'b \<Rightarrow>
   (ChatRequest \<times> (ChatResponse, go_error) ShortCircuit option \<times> go_error option) \<times> Context \<times> 'b" where
  "cpl_PreHook ops p req st =
     (let (ctx, b) = st
      in if cq_Stream req then ((req, None, None), st)
         else case cpl_KeyFunc p req of
                None \<Rightarrow> ((req, None, None), st)
              | Some key \<Rightarrow>
                  (case cb_Get ops key b of
                     (Inl err, b') \<Rightarrow> ((req, None, None), ctx, b')
                   | (Inr (Some resp), b') \<Rightarrow>
                       ((req, Some \<lparr>sc_Response = Some resp, sc_Error = None, sc_AllowFallback = False,
                                    sc_Metadata = [''cache_hit'' \<mapsto> AnyBool True, ''cache_key'' \<mapsto> AnyString key]\<rparr>, None),
                        pc_Set ''cache_key'' (AnyString key) (pc_Set ''cache_hit'' (AnyBool True) ctx), b')
                   | (Inr None, b') \<Rightarrow> ((req, None, None), pc_Set ''cache_key'' (AnyString key) ctx, b')))"

text \<open>
  The response is stored by a goroutine; the third component is the key and the response that it
  will store.
\<close>

definition cpl_PostHook ::
  "ChatResponse option \<Rightarrow> go_error option \<Rightarrow> Context \<Rightarrow>
   (ChatResponse option \<times> go_error option \<times> go_error option) \<times> (string \<times> ChatResponse) option" where
  "cpl_PostHook resp err ctx =
     (case (err, resp) of
        (None, Some r) \<Rightarrow>
          (if pc_Get ''cache_hit'' ctx = Some (AnyBool True) then ((resp, err, None), None)
           else case pc_Get ''cache_key'' ctx of
                  Some (AnyString key) \<Rightarrow> ((resp, err, None), Some (key, r))
                | _ \<Rightarrow> ((resp, err, None), None))
      | _ \<Rightarrow> ((resp, err, None), None))"

definition cpl_store :: "'b CacheBackend \<Rightarrow> CachePlugin \<Rightarrow> (string \<times> ChatResponse) option \<Rightarrow> 'b \<Rightarrow> 'b" where
  "cpl_store ops p job b = (case job of None \<Rightarrow> b | Some (key, resp) \<Rightarrow> snd (cb_Set ops key resp (cpl_ttl p) b))"

section \<open>The backend in memory\<close>

record memoryCacheItem =
  mi_response :: ChatResponse
  mi_expiresAt :: go_time

record MemoryCacheBackend =
  mb_items :: "(string, memoryCacheItem) fmap"
  mb_maxSize :: int

definition mb_Get :: "go_time \<Rightarrow> string \<Rightarrow> MemoryCacheBackend \<Rightarrow> ChatResponse option \<times> MemoryCacheBackend" where
  "mb_Get now key c =
     (case fmlookup (mb_items c) key of
        None \<Rightarrow> (None, c)
      | Some item \<Rightarrow>
          if now > mi_expiresAt item then (None, c\<lparr>mb_items := fmdrop key (mb_items c)\<rparr>)
          else (Some (mi_response item), c))"

definition mb_count :: "MemoryCacheBackend \<Rightarrow> int" where
  "mb_count c = int (card (fset (fmdom (mb_items c))))"

text \<open>\<open>victim\<close> is the first key that \<open>sync.Map.Range\<close> visits, if there is any.\<close>

definition mb_Set ::
  "go_time \<Rightarrow> string option \<Rightarrow> string \<Rightarrow> ChatResponse \<Rightarrow> go_duration \<Rightarrow> MemoryCacheBackend \<Rightarrow> MemoryCacheBackend" where
  "mb_Set now victim key resp ttl c =
     (let items = (if mb_count c \<ge> mb_maxSize c
                   then (case victim of Some k \<Rightarrow> fmdrop k (mb_items c) | None \<Rightarrow> mb_items c)
                   else mb_items c)
      in c\<lparr>mb_items := fmupd key \<lparr>mi_response = resp, mi_expiresAt = now + ttl\<rparr> items\<rparr>)"

definition mb_Delete :: "string \<Rightarrow> MemoryCacheBackend \<Rightarrow> MemoryCacheBackend" where
  "mb_Delete key c = c\<lparr>mb_items := fmdrop key (mb_items c)\<rparr>"

definition mb_Clear :: "MemoryCacheBackend \<Rightarrow> MemoryCacheBackend" where
  "mb_Clear c = c\<lparr>mb_items := fmempty\<rparr>"

text \<open>One round of \<open>cleanupLoop\<close>.\<close>

definition mb_cleanup :: "go_time \<Rightarrow> MemoryCacheBackend \<Rightarrow> MemoryCacheBackend" where
  "mb_cleanup now c =
     c\<lparr>mb_items := fmfilter (\<lambda>k. \<not> (case fmlookup (mb_items c) k of Some i \<Rightarrow> now > mi_expiresAt i | None \<Rightarrow> False))
                    (mb_items c)\<rparr>"

definition NewMemoryCacheBackend :: "(MemoryCacheBackend \<Rightarrow> MemoryCacheBackend) list \<Rightarrow> MemoryCacheBackend" where
  "NewMemoryCacheBackend opts = fold (\<lambda>opt. opt) opts \<lparr>mb_items = fmempty, mb_maxSize = 10000\<rparr>"

definition memory_backend_ops :: "go_time \<Rightarrow> go_time \<Rightarrow> string option \<Rightarrow> MemoryCacheBackend CacheBackend" where
  "memory_backend_ops t1 t2 victim =
     \<lparr>cb_Get = (\<lambda>key c. map_prod Inr id (mb_Get t1 key c)),
      cb_Set = (\<lambda>key resp ttl c. (None, mb_Set t2 victim key resp ttl c))\<rparr>"

section \<open>Properties\<close>

lemma fold_no_options [simp]: "fold (\<lambda>opt. opt) [] x = x"
  by simp

text \<open>The requests that a bucket admits at the given times.\<close>

primrec tb_run :: "go_time list \<Rightarrow> tokenBucket \<Rightarrow> nat \<times> tokenBucket" where
  "tb_run [] tb = (0, tb)"
| "tb_run (t # ts) tb =
     (let (ok, tb') = tb_allow t tb; (n, tb'') = tb_run ts tb' in (if ok then Suc n else n, tb''))"

lemma tb_allow_props:
  fixes tb :: tokenBucket
  assumes "0 \<le> tb_rate tb" and "tb_lastTime tb \<le> now" and "tb_allow now tb = (ok, tb')"
  shows "(if ok then 1 else 0) + tb_tokens tb' \<le> tb_tokens tb + Seconds (now - tb_lastTime tb) * tb_rate tb"
    and "tb_lastTime tb' = now" and "tb_rate tb' = tb_rate tb"
    and "0 \<le> tb_tokens tb \<Longrightarrow> 0 \<le> tb_burst tb \<Longrightarrow> 0 \<le> tb_tokens tb'" and "tb_burst tb' = tb_burst tb"
  using assms by (auto simp: tb_allow_def Let_def split: if_splits)

text \<open>
  A bucket admits, at any times that do not decrease, no more requests than its tokens and what the
  time between refills.
\<close>

lemma tb_run_bound:
  assumes "0 \<le> tb_rate tb" and "0 \<le> tb_burst tb" and "0 \<le> tb_tokens tb" and "sorted (tb_lastTime tb # ts)"
  shows "real (fst (tb_run ts tb)) \<le> tb_tokens tb + Seconds (last (tb_lastTime tb # ts) - tb_lastTime tb) * tb_rate tb"
  using assms
proof (induction ts arbitrary: tb)
  case (Cons t ts)
  obtain ok tb' where step: "tb_allow t tb = (ok, tb')" by fastforce
  have le: "tb_lastTime tb \<le> t" using Cons.prems(4) by simp
  note props = tb_allow_props [OF Cons.prems(1) le step]
  have "real (fst (tb_run ts tb')) \<le> tb_tokens tb' + Seconds (last (t # ts) - t) * tb_rate tb"
    using Cons.IH [of tb'] Cons.prems props by simp
  moreover have "Seconds (t - tb_lastTime tb) * tb_rate tb + Seconds (last (t # ts) - t) * tb_rate tb =
      Seconds (last (t # ts) - tb_lastTime tb) * tb_rate tb"
    by (simp only: Seconds_diff_add distrib_right [symmetric])
  moreover have "Seconds 0 = 0" by (simp add: Seconds_def)
  ultimately show ?case using props(1) step by (simp add: split_beta split: if_splits)
qed (simp add: Seconds_def)

text \<open>
  The client never sets the authentication of a plugin context, so that the default key of the
  rate limiter is \<open>global\<close> for every request and all tenants drain one bucket.
\<close>

lemma rate_limit_key_is_global:
  fixes w :: "'x World"
  assumes "blank_pool w"
  shows "defaultRateKey (fst (GetContext choice ctx requestID w)) = ''global''"
  by (simp add: GetContext_new [OF assms] NewContext_def defaultRateKey_def)


text \<open>A second caller, with another temperature, gets the first one's answer.\<close>

definition other_request :: ChatRequest where
  "other_request = demo_request\<lparr>cq_User := ''eve'', cq_Temperature := Some 2\<rparr>"


end
