(* ===== verification/Auth_Store.thy ===== *)
theory Auth_Store
  imports Auth_Types
begin

text \<open>
  The in-memory store of the gateway's entities (\<open>internal/auth/memory.go\<close>).

  API keys are objects that two maps point to, by the hash of the secret and by the id, and
  that most operations change in place; they live in a heap whose addresses are the positions
  of a list. The other entities have one map each and are values. Every operation of this store
  succeeds. The order in which a loop runs over a map is an argument, a list of its keys.
\<close>

section \<open>The store\<close>

record MemoryStore =
  st_heap :: "APIKey list"
  apiKeys :: "string \<rightharpoonup> nat"
  apiKeysByID :: "string \<rightharpoonup> nat"
  st_budgets :: "string \<rightharpoonup> Budget"
  st_organizations :: "string \<rightharpoonup> Organization"
  st_teams :: "string \<rightharpoonup> Team"
  st_teamMemberships :: "string \<rightharpoonup> TeamMembership"
  st_orgMemberships :: "string \<rightharpoonup> OrganizationMembership"
  st_users :: "string \<rightharpoonup> User"
  st_endUsers :: "string \<rightharpoonup> EndUser"
  st_usageLogs :: "UsageLog list"

definition NewMemoryStore :: MemoryStore where
  "NewMemoryStore =
     \<lparr>st_heap = [], apiKeys = Map.empty, apiKeysByID = Map.empty, st_budgets = Map.empty,
      st_organizations = Map.empty, st_teams = Map.empty, st_teamMemberships = Map.empty,
      st_orgMemberships = Map.empty, st_users = Map.empty, st_endUsers = Map.empty, st_usageLogs = []\<rparr>"

text \<open>The value a pointer to a key points to, and the change of an object through a pointer.\<close>

definition key_at :: "MemoryStore \<Rightarrow> nat \<Rightarrow> APIKey" where
  "key_at s a = st_heap s ! a"

definition key_modify :: "string \<Rightarrow> (APIKey \<Rightarrow> APIKey) \<Rightarrow> MemoryStore \<Rightarrow> MemoryStore" where
  "key_modify keyID f s =
     (case apiKeysByID s keyID of
        Some a \<Rightarrow> s\<lparr>st_heap := (st_heap s)[a := f (key_at s a)]\<rparr>
      | None \<Rightarrow> s)"

section \<open>API keys\<close>

definition GetAPIKeyByHash :: "string \<Rightarrow> MemoryStore \<Rightarrow> APIKey option" where
  "GetAPIKeyByHash hash s = map_option (key_at s) (apiKeys s hash)"

definition CreateAPIKey :: "APIKey \<Rightarrow> MemoryStore \<Rightarrow> MemoryStore" where
  "CreateAPIKey key s =
     (let a = length (st_heap s)
      in s\<lparr>st_heap := st_heap s @ [key], apiKeys := (apiKeys s)(ak_KeyHash key \<mapsto> a),
           apiKeysByID := (apiKeysByID s)(ak_ID key \<mapsto> a)\<rparr>)"

definition GetAPIKeyByID :: "string \<Rightarrow> MemoryStore \<Rightarrow> APIKey option" where
  "GetAPIKeyByID keyID s = map_option (key_at s) (apiKeysByID s keyID)"

definition GetAPIKeyByAlias :: "string list \<Rightarrow> string \<Rightarrow> MemoryStore \<Rightarrow> APIKey option" where
  "GetAPIKeyByAlias order alias s =
     find (\<lambda>key. ak_KeyAlias key = Some alias) (List.map_filter (\<lambda>h. GetAPIKeyByHash h s) order)"

definition UpdateAPIKey :: "APIKey \<Rightarrow> MemoryStore \<Rightarrow> MemoryStore" where
  "UpdateAPIKey key s =
     (case apiKeysByID s (ak_ID key) of
        Some e \<Rightarrow>
          (let a = length (st_heap s); existing = key_at s e
           in s\<lparr>st_heap := st_heap s @ [key], apiKeys := (apiKeys s)(ak_KeyHash existing \<mapsto> a),
                apiKeysByID := (apiKeysByID s)(ak_ID key \<mapsto> a)\<rparr>)
      | None \<Rightarrow> s)"

definition UpdateAPIKeyLastUsed :: "string \<Rightarrow> go_time \<Rightarrow> MemoryStore \<Rightarrow> MemoryStore" where
  "UpdateAPIKeyLastUsed keyID lastUsed s = key_modify keyID (\<lambda>key. key\<lparr>ak_LastUsedAt := Some lastUsed\<rparr>) s"

definition UpdateAPIKeySpent :: "string \<Rightarrow> float64 \<Rightarrow> MemoryStore \<Rightarrow> MemoryStore" where
  "UpdateAPIKeySpent keyID amount s =
     key_modify keyID (\<lambda>key. key\<lparr>ak_SpentBudget := ak_SpentBudget key + amount\<rparr>) s"

text \<open>\<open>m[k] += x\<close>: a missing entry counts as 0.\<close>

definition map_add_at :: "string \<Rightarrow> float64 \<Rightarrow> (string \<rightharpoonup> float64) \<Rightarrow> (string \<rightharpoonup> float64)" where
  "map_add_at k x m = m(k \<mapsto> (case m k of None \<Rightarrow> 0 | Some v \<Rightarrow> v) + x)"

definition UpdateAPIKeyModelSpent :: "string \<Rightarrow> string \<Rightarrow> float64 \<Rightarrow> MemoryStore \<Rightarrow> MemoryStore" where
  "UpdateAPIKeyModelSpent keyID model amount s =
     key_modify keyID (\<lambda>key. key\<lparr>ak_ModelSpend := map_add_at model amount (ak_ModelSpend key)\<rparr>) s"

definition ResetAPIKeyBudget :: "go_time \<Rightarrow> string \<Rightarrow> MemoryStore \<Rightarrow> MemoryStore" where
  "ResetAPIKeyBudget now keyID s =
     key_modify keyID
       (\<lambda>key. key\<lparr>ak_SpentBudget := 0, ak_ModelSpend := Map.empty,
                  ak_BudgetResetAt := NextResetTime now (ak_BudgetDuration key)\<rparr>) s"

definition DeleteAPIKey :: "string \<Rightarrow> MemoryStore \<Rightarrow> MemoryStore" where
  "DeleteAPIKey keyID s = key_modify keyID (\<lambda>key. key\<lparr>ak_IsActive := False\<rparr>) s"

definition BlockAPIKey :: "string \<Rightarrow> bool \<Rightarrow> MemoryStore \<Rightarrow> MemoryStore" where
  "BlockAPIKey keyID blocked s = key_modify keyID (\<lambda>key. key\<lparr>ak_Blocked := blocked\<rparr>) s"

record APIKeyFilter =
  kf_TeamID :: "string option"
  kf_UserID :: "string option"
  kf_OrganizationID :: "string option"
  kf_KeyType :: "KeyType option"
  kf_IsActive :: "bool option"
  kf_Blocked :: "bool option"
  kf_Limit :: int
  kf_Offset :: int

text \<open>
  One page of a result with the total number; slicing out of range panics, which is
  \<^const>\<open>None\<close>.
\<close>

definition page :: "int \<Rightarrow> int \<Rightarrow> 'a list \<Rightarrow> ('a list \<times> int) option" where
  "page offset limit result =
     (let total = int (length result)
      in if offset \<ge> total then Some ([], total)
         else let end0 = offset + limit;
                  end1 = (if end0 > total \<or> limit = 0 then total else end0)
              in if 0 \<le> offset \<and> offset \<le> end1
                 then Some (take (nat (end1 - offset)) (drop (nat offset) result), total) else None)"

definition active_matches :: "bool option \<Rightarrow> bool \<Rightarrow> bool" where
  "active_matches wanted active = (case wanted of None \<Rightarrow> active | Some w \<Rightarrow> active = w)"

definition ListAPIKeys :: "string list \<Rightarrow> APIKeyFilter \<Rightarrow> MemoryStore \<Rightarrow> (APIKey list \<times> int) option" where
  "ListAPIKeys order f s =
     page (kf_Offset f) (kf_Limit f)
       (filter (\<lambda>key. active_matches (kf_IsActive f) (ak_IsActive key) \<and>
                      (case kf_Blocked f of None \<Rightarrow> True | Some b \<Rightarrow> ak_Blocked key = b) \<and>
                      (case kf_TeamID f of None \<Rightarrow> True | Some t \<Rightarrow> ak_TeamID key = Some t))
          (List.map_filter (\<lambda>h. GetAPIKeyByHash h s) order))"

section \<open>Teams\<close>

definition GetTeam :: "string \<Rightarrow> MemoryStore \<Rightarrow> Team option" where
  "GetTeam teamID s = st_teams s teamID"

definition CreateTeam :: "Team \<Rightarrow> MemoryStore \<Rightarrow> MemoryStore" where
  "CreateTeam team s = s\<lparr>st_teams := (st_teams s)(tm_ID team \<mapsto> team)\<rparr>"

definition UpdateTeam :: "Team \<Rightarrow> MemoryStore \<Rightarrow> MemoryStore" where
  "UpdateTeam team s = s\<lparr>st_teams := (st_teams s)(tm_ID team \<mapsto> team)\<rparr>"

text \<open>A change of the entry of a map, if there is one.\<close>

definition modify_at :: "string \<Rightarrow> ('a \<Rightarrow> 'a) \<Rightarrow> (string \<rightharpoonup> 'a) \<Rightarrow> (string \<rightharpoonup> 'a)" where
  "modify_at k f m = (case m k of Some v \<Rightarrow> m(k \<mapsto> f v) | None \<Rightarrow> m)"

definition UpdateTeamSpent :: "string \<Rightarrow> float64 \<Rightarrow> MemoryStore \<Rightarrow> MemoryStore" where
  "UpdateTeamSpent teamID amount s =
     s\<lparr>st_teams := modify_at teamID (\<lambda>t. t\<lparr>tm_SpentBudget := tm_SpentBudget t + amount\<rparr>) (st_teams s)\<rparr>"

definition UpdateTeamModelSpent :: "string \<Rightarrow> string \<Rightarrow> float64 \<Rightarrow> MemoryStore \<Rightarrow> MemoryStore" where
  "UpdateTeamModelSpent teamID model amount s =
     s\<lparr>st_teams := modify_at teamID
         (\<lambda>t. t\<lparr>tm_ModelSpend := map_add_at model amount (tm_ModelSpend t)\<rparr>) (st_teams s)\<rparr>"

definition ResetTeamBudget :: "go_time \<Rightarrow> string \<Rightarrow> MemoryStore \<Rightarrow> MemoryStore" where
  "ResetTeamBudget now teamID s =
     s\<lparr>st_teams := modify_at teamID
         (\<lambda>t. t\<lparr>tm_SpentBudget := 0, tm_ModelSpend := Map.empty,
                tm_BudgetResetAt := NextResetTime now (tm_BudgetDuration t)\<rparr>) (st_teams s)\<rparr>"

definition DeleteTeam :: "string \<Rightarrow> MemoryStore \<Rightarrow> MemoryStore" where
  "DeleteTeam teamID s = s\<lparr>st_teams := modify_at teamID (\<lambda>t. t\<lparr>tm_IsActive := False\<rparr>) (st_teams s)\<rparr>"

record TeamFilter =
  tf_OrganizationID :: "string option"
  tf_IsActive :: "bool option"
  tf_Blocked :: "bool option"
  tf_Limit :: int
  tf_Offset :: int

definition ListTeams :: "string list \<Rightarrow> TeamFilter \<Rightarrow> MemoryStore \<Rightarrow> (Team list \<times> int) option" where
  "ListTeams order f s =
     page (tf_Offset f) (tf_Limit f)
       (filter (\<lambda>t. active_matches (tf_IsActive f) (tm_IsActive t) \<and>
                    (case tf_Blocked f of None \<Rightarrow> True | Some b \<Rightarrow> tm_Blocked t = b))
          (List.map_filter (st_teams s) order))"

definition BlockTeam :: "string \<Rightarrow> bool \<Rightarrow> MemoryStore \<Rightarrow> MemoryStore" where
  "BlockTeam teamID blocked s =
     s\<lparr>st_teams := modify_at teamID (\<lambda>t. t\<lparr>tm_Blocked := blocked\<rparr>) (st_teams s)\<rparr>"

section \<open>Users\<close>

definition GetUser :: "string \<Rightarrow> MemoryStore \<Rightarrow> User option" where
  "GetUser userID s = st_users s userID"

definition GetUserByEmail :: "string list \<Rightarrow> string \<Rightarrow> MemoryStore \<Rightarrow> User option" where
  "GetUserByEmail order email s =
     find (\<lambda>u. usr_Email u = Some email \<and> usr_IsActive u) (List.map_filter (st_users s) order)"

definition GetUserBySSOID :: "string \<Rightarrow> MemoryStore \<Rightarrow> User option" where
  "GetUserBySSOID ssoID s = None"

definition CreateUser :: "User \<Rightarrow> MemoryStore \<Rightarrow> MemoryStore" where
  "CreateUser user s = s\<lparr>st_users := (st_users s)(usr_ID user \<mapsto> user)\<rparr>"

definition UpdateUser :: "User \<Rightarrow> MemoryStore \<Rightarrow> MemoryStore" where
  "UpdateUser user s = s\<lparr>st_users := (st_users s)(usr_ID user \<mapsto> user)\<rparr>"

definition UpdateUserSpent :: "string \<Rightarrow> float64 \<Rightarrow> MemoryStore \<Rightarrow> MemoryStore" where
  "UpdateUserSpent userID amount s =
     s\<lparr>st_users := modify_at userID (\<lambda>u. u\<lparr>usr_Spend := usr_Spend u + amount\<rparr>) (st_users s)\<rparr>"

definition ResetUserBudget :: "go_time \<Rightarrow> string \<Rightarrow> MemoryStore \<Rightarrow> MemoryStore" where
  "ResetUserBudget now userID s =
     s\<lparr>st_users := modify_at userID
         (\<lambda>u. u\<lparr>usr_Spend := 0, usr_ModelSpend := Map.empty,
                usr_BudgetResetAt := NextResetTime now (usr_BudgetDuration u)\<rparr>) (st_users s)\<rparr>"

definition DeleteUser :: "string \<Rightarrow> MemoryStore \<Rightarrow> MemoryStore" where
  "DeleteUser userID s = s\<lparr>st_users := modify_at userID (\<lambda>u. u\<lparr>usr_IsActive := False\<rparr>) (st_users s)\<rparr>"

section \<open>Usage logs\<close>

definition LogUsage :: "UsageLog \<Rightarrow> MemoryStore \<Rightarrow> MemoryStore" where
  "LogUsage entry s =
     s\<lparr>st_usageLogs := st_usageLogs s @ [entry\<lparr>ul_ID := int (length (st_usageLogs s) + 1)\<rparr>]\<rparr>"

record UsageFilter =
  uf_APIKeyID :: "string option"
  uf_TeamID :: "string option"
  uf_Model :: "string option"
  uf_Provider :: "string option"
  uf_StartTime :: go_time
  uf_EndTime :: go_time

record UsageStats =
  ust_TotalRequests :: int
  ust_TotalTokens :: int
  ust_InputTokens :: int
  ust_OutputTokens :: int
  ust_TotalCost :: float64
  ust_AvgLatencyMs :: float64
  ust_SuccessRate :: float64
  ust_UniqueModels :: int
  ust_UniqueProviders :: int

definition usage_matches :: "UsageFilter \<Rightarrow> UsageLog \<Rightarrow> bool" where
  "usage_matches f entry \<longleftrightarrow>
     \<not> (ul_StartTime entry < uf_StartTime f \<or> ul_StartTime entry > uf_EndTime f) \<and>
     (case uf_APIKeyID f of None \<Rightarrow> True | Some i \<Rightarrow> ul_APIKeyID entry = i) \<and>
     (case uf_TeamID f of None \<Rightarrow> True | Some i \<Rightarrow> ul_TeamID entry = Some i) \<and>
     (case uf_Model f of None \<Rightarrow> True | Some m \<Rightarrow> ul_Model entry = m) \<and>
     (case uf_Provider f of None \<Rightarrow> True | Some p \<Rightarrow> ul_Provider entry = p)"

text \<open>The loop carries the statistics, the models and providers seen and the successes.\<close>

definition usage_step ::
  "UsageFilter \<Rightarrow> UsageLog \<Rightarrow> UsageStats \<times> string list \<times> string list \<times> int \<Rightarrow>
   UsageStats \<times> string list \<times> string list \<times> int" where
  "usage_step f entry acc =
     (case acc of (stats, models, providers, successCount) \<Rightarrow>
        if \<not> usage_matches f entry then acc
        else (stats\<lparr>ust_TotalRequests := ust_TotalRequests stats + 1,
                    ust_TotalTokens := ust_TotalTokens stats + ul_TotalTokens entry,
                    ust_InputTokens := ust_InputTokens stats + ul_InputTokens entry,
                    ust_OutputTokens := ust_OutputTokens stats + ul_OutputTokens entry,
                    ust_TotalCost := ust_TotalCost stats + ul_Cost entry,
                    ust_AvgLatencyMs := ust_AvgLatencyMs stats + of_int (ul_LatencyMs entry)\<rparr>,
              List.insert (ul_Model entry) models, List.insert (ul_Provider entry) providers,
              (case ul_StatusCode entry of
                 None \<Rightarrow> successCount + 1
               | Some code \<Rightarrow> if code < 400 then successCount + 1 else successCount)))"

definition zero_usage :: UsageStats where
  "zero_usage =
     \<lparr>ust_TotalRequests = 0, ust_TotalTokens = 0, ust_InputTokens = 0, ust_OutputTokens = 0, ust_TotalCost = 0,
      ust_AvgLatencyMs = 0, ust_SuccessRate = 0, ust_UniqueModels = 0, ust_UniqueProviders = 0\<rparr>"

definition GetUsageStats :: "UsageFilter \<Rightarrow> MemoryStore \<Rightarrow> UsageStats" where
  "GetUsageStats f s =
     (case fold (usage_step f) (st_usageLogs s) (zero_usage, [], [], 0) of
        (stats, models, providers, successCount) \<Rightarrow>
          (let stats1 = (if ust_TotalRequests stats > 0
                         then stats\<lparr>ust_AvgLatencyMs := ust_AvgLatencyMs stats / of_int (ust_TotalRequests stats),
                                    ust_SuccessRate := of_int successCount / of_int (ust_TotalRequests stats)\<rparr>
                         else stats)
           in stats1\<lparr>ust_UniqueModels := int (length models), ust_UniqueProviders := int (length providers)\<rparr>))"

section \<open>Budgets and organisations\<close>

definition GetBudget :: "string \<Rightarrow> MemoryStore \<Rightarrow> Budget option" where
  "GetBudget budgetID s = st_budgets s budgetID"

definition CreateBudget :: "Budget \<Rightarrow> MemoryStore \<Rightarrow> MemoryStore" where
  "CreateBudget budget s = s\<lparr>st_budgets := (st_budgets s)(bg_ID budget \<mapsto> budget)\<rparr>"

definition UpdateBudget :: "Budget \<Rightarrow> MemoryStore \<Rightarrow> MemoryStore" where
  "UpdateBudget budget s = s\<lparr>st_budgets := (st_budgets s)(bg_ID budget \<mapsto> budget)\<rparr>"

definition DeleteBudget :: "string \<Rightarrow> MemoryStore \<Rightarrow> MemoryStore" where
  "DeleteBudget budgetID s = s\<lparr>st_budgets := (st_budgets s)(budgetID := None)\<rparr>"

definition GetOrganization :: "string \<Rightarrow> MemoryStore \<Rightarrow> Organization option" where
  "GetOrganization orgID s = st_organizations s orgID"

definition CreateOrganization :: "Organization \<Rightarrow> MemoryStore \<Rightarrow> MemoryStore" where
  "CreateOrganization org s = s\<lparr>st_organizations := (st_organizations s)(og_ID org \<mapsto> org)\<rparr>"

definition UpdateOrganization :: "Organization \<Rightarrow> MemoryStore \<Rightarrow> MemoryStore" where
  "UpdateOrganization org s = s\<lparr>st_organizations := (st_organizations s)(og_ID org \<mapsto> org)\<rparr>"

definition UpdateOrganizationSpent :: "string \<Rightarrow> float64 \<Rightarrow> MemoryStore \<Rightarrow> MemoryStore" where
  "UpdateOrganizationSpent orgID amount s =
     s\<lparr>st_organizations := modify_at orgID (\<lambda>x. x\<lparr>og_Spend := og_Spend x + amount\<rparr>) (st_organizations s)\<rparr>"

definition DeleteOrganization :: "string \<Rightarrow> MemoryStore \<Rightarrow> MemoryStore" where
  "DeleteOrganization orgID s = s\<lparr>st_organizations := (st_organizations s)(orgID := None)\<rparr>"

definition ListOrganizations :: "string list \<Rightarrow> int \<Rightarrow> int \<Rightarrow> MemoryStore \<Rightarrow> (Organization list \<times> int) option" where
  "ListOrganizations order limit offset s = page offset limit (List.map_filter (st_organizations s) order)"

section \<open>Memberships and end users\<close>

definition membershipKey :: "string \<Rightarrow> string \<Rightarrow> string" where
  "membershipKey userID teamID = userID @ '':'' @ teamID"

definition GetTeamMembership :: "string \<Rightarrow> string \<Rightarrow> MemoryStore \<Rightarrow> TeamMembership option" where
  "GetTeamMembership userID teamID s = st_teamMemberships s (membershipKey userID teamID)"

definition CreateTeamMembership :: "TeamMembership \<Rightarrow> MemoryStore \<Rightarrow> MemoryStore" where
  "CreateTeamMembership m s =
     s\<lparr>st_teamMemberships := (st_teamMemberships s)(membershipKey (mb_UserID m) (mb_TeamID m) \<mapsto> m)\<rparr>"

definition UpdateTeamMembershipSpent :: "string \<Rightarrow> string \<Rightarrow> float64 \<Rightarrow> MemoryStore \<Rightarrow> MemoryStore" where
  "UpdateTeamMembershipSpent userID teamID amount s =
     s\<lparr>st_teamMemberships := modify_at (membershipKey userID teamID)
         (\<lambda>m. m\<lparr>mb_Spend := mb_Spend m + amount\<rparr>) (st_teamMemberships s)\<rparr>"

definition DeleteTeamMembership :: "string \<Rightarrow> string \<Rightarrow> MemoryStore \<Rightarrow> MemoryStore" where
  "DeleteTeamMembership userID teamID s =
     s\<lparr>st_teamMemberships := (st_teamMemberships s)(membershipKey userID teamID := None)\<rparr>"

definition ListTeamMembers :: "string list \<Rightarrow> string \<Rightarrow> MemoryStore \<Rightarrow> TeamMembership list" where
  "ListTeamMembers order teamID s =
     filter (\<lambda>m. mb_TeamID m = teamID) (List.map_filter (st_teamMemberships s) order)"

definition UpdateTeamMembership :: "TeamMembership \<Rightarrow> MemoryStore \<Rightarrow> MemoryStore" where
  "UpdateTeamMembership m s =
     s\<lparr>st_teamMemberships := (st_teamMemberships s)(membershipKey (mb_UserID m) (mb_TeamID m) \<mapsto> m)\<rparr>"

definition ListUserTeamMemberships :: "string list \<Rightarrow> string \<Rightarrow> MemoryStore \<Rightarrow> TeamMembership list" where
  "ListUserTeamMemberships order userID s =
     filter (\<lambda>m. mb_UserID m = userID) (List.map_filter (st_teamMemberships s) order)"

definition orgMembershipKey :: "string \<Rightarrow> string \<Rightarrow> string" where
  "orgMembershipKey userID orgID = userID @ '':'' @ orgID"

definition GetOrganizationMembership :: "string \<Rightarrow> string \<Rightarrow> MemoryStore \<Rightarrow> OrganizationMembership option" where
  "GetOrganizationMembership userID orgID s = st_orgMemberships s (orgMembershipKey userID orgID)"

definition CreateOrganizationMembership :: "OrganizationMembership \<Rightarrow> MemoryStore \<Rightarrow> MemoryStore" where
  "CreateOrganizationMembership m s =
     s\<lparr>st_orgMemberships := (st_orgMemberships s)(orgMembershipKey (om_UserID m) (om_OrganizationID m) \<mapsto> m)\<rparr>"

definition UpdateOrganizationMembership :: "OrganizationMembership \<Rightarrow> MemoryStore \<Rightarrow> MemoryStore" where
  "UpdateOrganizationMembership m s =
     s\<lparr>st_orgMemberships := (st_orgMemberships s)(orgMembershipKey (om_UserID m) (om_OrganizationID m) \<mapsto> m)\<rparr>"

definition UpdateOrganizationMembershipSpent :: "string \<Rightarrow> string \<Rightarrow> float64 \<Rightarrow> MemoryStore \<Rightarrow> MemoryStore" where
  "UpdateOrganizationMembershipSpent userID orgID amount s =
     s\<lparr>st_orgMemberships := modify_at (orgMembershipKey userID orgID)
         (\<lambda>m. m\<lparr>om_Spend := om_Spend m + amount\<rparr>) (st_orgMemberships s)\<rparr>"

definition DeleteOrganizationMembership :: "string \<Rightarrow> string \<Rightarrow> MemoryStore \<Rightarrow> MemoryStore" where
  "DeleteOrganizationMembership userID orgID s =
     s\<lparr>st_orgMemberships := (st_orgMemberships s)(orgMembershipKey userID orgID := None)\<rparr>"

definition ListOrganizationMembers :: "string list \<Rightarrow> string \<Rightarrow> MemoryStore \<Rightarrow> OrganizationMembership list" where
  "ListOrganizationMembers order orgID s =
     filter (\<lambda>m. om_OrganizationID m = orgID) (List.map_filter (st_orgMemberships s) order)"

definition ListUserOrganizationMemberships :: "string list \<Rightarrow> string \<Rightarrow> MemoryStore \<Rightarrow> OrganizationMembership list" where
  "ListUserOrganizationMemberships order userID s =
     filter (\<lambda>m. om_UserID m = userID) (List.map_filter (st_orgMemberships s) order)"

definition GetEndUser :: "string \<Rightarrow> MemoryStore \<Rightarrow> EndUser option" where
  "GetEndUser userID s = st_endUsers s userID"

definition CreateEndUser :: "EndUser \<Rightarrow> MemoryStore \<Rightarrow> MemoryStore" where
  "CreateEndUser e s = s\<lparr>st_endUsers := (st_endUsers s)(eu_UserID e \<mapsto> e)\<rparr>"

definition UpdateEndUserSpent :: "string \<Rightarrow> float64 \<Rightarrow> MemoryStore \<Rightarrow> MemoryStore" where
  "UpdateEndUserSpent userID amount s =
     s\<lparr>st_endUsers := modify_at userID (\<lambda>e. e\<lparr>eu_Spend := eu_Spend e + amount\<rparr>) (st_endUsers s)\<rparr>"

definition BlockEndUser :: "string \<Rightarrow> bool \<Rightarrow> MemoryStore \<Rightarrow> MemoryStore" where
  "BlockEndUser userID blocked s =
     s\<lparr>st_endUsers := modify_at userID (\<lambda>e. e\<lparr>eu_Blocked := blocked\<rparr>) (st_endUsers s)\<rparr>"

definition DeleteEndUser :: "string \<Rightarrow> MemoryStore \<Rightarrow> MemoryStore" where
  "DeleteEndUser userID s = s\<lparr>st_endUsers := (st_endUsers s)(userID := None)\<rparr>"

section \<open>Budgets to reset\<close>

definition due :: "go_time \<Rightarrow> go_time option \<Rightarrow> bool" where
  "due now resetAt = (case resetAt of None \<Rightarrow> False | Some t \<Rightarrow> now > t)"

definition GetKeysNeedingBudgetReset :: "string list \<Rightarrow> go_time \<Rightarrow> MemoryStore \<Rightarrow> APIKey list" where
  "GetKeysNeedingBudgetReset order now s =
     filter (\<lambda>key. ak_IsActive key \<and> due now (ak_BudgetResetAt key)) (List.map_filter (\<lambda>h. GetAPIKeyByHash h s) order)"

definition GetTeamsNeedingBudgetReset :: "string list \<Rightarrow> go_time \<Rightarrow> MemoryStore \<Rightarrow> Team list" where
  "GetTeamsNeedingBudgetReset order now s =
     filter (\<lambda>t. tm_IsActive t \<and> due now (tm_BudgetResetAt t)) (List.map_filter (st_teams s) order)"

definition GetUsersNeedingBudgetReset :: "string list \<Rightarrow> go_time \<Rightarrow> MemoryStore \<Rightarrow> User list" where
  "GetUsersNeedingBudgetReset order now s =
     filter (\<lambda>u. usr_IsActive u \<and> due now (usr_BudgetResetAt u)) (List.map_filter (st_users s) order)"

end
