(* ===== verification/Auth_Store_Properties.thy ===== *)
theory Auth_Store_Properties
  imports Auth_Store
begin

text \<open>
  Properties of the in-memory store: the two indexes of the keys behave like one map as long as
  ids and hashes are not reused and updates keep the hash; the usage statistics are sums over
  the matching logs; and reading page after page yields the whole list.
\<close>

section \<open>The indexes of the keys\<close>

text \<open>
  Well-formed indexes: every pointer points into the heap, each key is found under its own hash
  and its own id, and both pointers are the same.
\<close>

definition key_wf :: "MemoryStore \<Rightarrow> bool" where
  "key_wf s \<longleftrightarrow>
     (\<forall>h a. apiKeys s h = Some a \<longrightarrow>
        a < length (st_heap s) \<and> ak_KeyHash (key_at s a) = h \<and> apiKeysByID s (ak_ID (key_at s a)) = Some a) \<and>
     (\<forall>i a. apiKeysByID s i = Some a \<longrightarrow>
        a < length (st_heap s) \<and> ak_ID (key_at s a) = i \<and> apiKeys s (ak_KeyHash (key_at s a)) = Some a)"

lemma key_wf_new [simp]: "key_wf NewMemoryStore"
  by (simp add: key_wf_def NewMemoryStore_def)

lemma key_wf_hash:
  "key_wf s \<Longrightarrow> apiKeys s h = Some a \<Longrightarrow>
   a < length (st_heap s) \<and> ak_KeyHash (key_at s a) = h \<and> apiKeysByID s (ak_ID (key_at s a)) = Some a"
  by (simp add: key_wf_def)

lemma key_wf_id:
  "key_wf s \<Longrightarrow> apiKeysByID s i = Some a \<Longrightarrow>
   a < length (st_heap s) \<and> ak_ID (key_at s a) = i \<and> apiKeys s (ak_KeyHash (key_at s a)) = Some a"
  by (simp add: key_wf_def)

text \<open>What a lookup by hash finds is the key with that hash.\<close>

lemma GetAPIKeyByHash_iff:
  assumes "key_wf s"
  shows "GetAPIKeyByHash h s = Some k \<longleftrightarrow> GetAPIKeyByID (ak_ID k) s = Some k \<and> ak_KeyHash k = h"
proof
  assume "GetAPIKeyByHash h s = Some k"
  then obtain a where a: "apiKeys s h = Some a" "key_at s a = k" by (auto simp: GetAPIKeyByHash_def)
  then show "GetAPIKeyByID (ak_ID k) s = Some k \<and> ak_KeyHash k = h"
    using key_wf_hash [OF assms a(1)] by (simp add: GetAPIKeyByID_def)
next
  assume r: "GetAPIKeyByID (ak_ID k) s = Some k \<and> ak_KeyHash k = h"
  then obtain a where a: "apiKeysByID s (ak_ID k) = Some a" "key_at s a = k"
    by (auto simp: GetAPIKeyByID_def)
  then show "GetAPIKeyByHash h s = Some k" using key_wf_id [OF assms a(1)] r by (simp add: GetAPIKeyByHash_def)
qed

text \<open>In-place changes of a key keep its id and hash.\<close>

definition keeps_index :: "(APIKey \<Rightarrow> APIKey) \<Rightarrow> bool" where
  "keeps_index f \<longleftrightarrow> (\<forall>k. ak_ID (f k) = ak_ID k \<and> ak_KeyHash (f k) = ak_KeyHash k)"

lemma key_at_modify:
  assumes "key_wf s" and "apiKeysByID s i = Some a"
  shows "key_at (key_modify i f s) b = (if b = a then f (key_at s a) else key_at s b)"
  using key_wf_id [OF assms] assms(2) by (simp add: key_modify_def key_at_def nth_list_update)

lemma key_modify_frame [simp]:
  "apiKeys (key_modify i f s) = apiKeys s" "apiKeysByID (key_modify i f s) = apiKeysByID s"
  "length (st_heap (key_modify i f s)) = length (st_heap s)" "st_teams (key_modify i f s) = st_teams s"
  "st_users (key_modify i f s) = st_users s" "st_organizations (key_modify i f s) = st_organizations s"
  "st_endUsers (key_modify i f s) = st_endUsers s" "st_usageLogs (key_modify i f s) = st_usageLogs s"
  "st_teamMemberships (key_modify i f s) = st_teamMemberships s"
  "st_orgMemberships (key_modify i f s) = st_orgMemberships s" "st_budgets (key_modify i f s) = st_budgets s"
  by (simp_all add: key_modify_def split: option.split)

lemma key_modify_wf:
  assumes "key_wf s" and "keeps_index f"
  shows "key_wf (key_modify i f s)"
proof (cases "apiKeysByID s i")
  case None
  then show ?thesis using assms(1) by (simp add: key_modify_def)
next
  case (Some a)
  have "ak_ID (key_at (key_modify i f s) b) = ak_ID (key_at s b) \<and>
      ak_KeyHash (key_at (key_modify i f s) b) = ak_KeyHash (key_at s b)" for b
    using key_at_modify [OF assms(1) Some] assms(2) by (simp add: keeps_index_def)
  then show ?thesis using assms(1) by (simp add: key_wf_def)
qed

lemma GetAPIKeyByID_modify:
  assumes "key_wf s"
  shows "GetAPIKeyByID j (key_modify i f s) =
    (if j = i then map_option f (GetAPIKeyByID j s) else GetAPIKeyByID j s)"
proof (cases "apiKeysByID s i")
  case None
  then show ?thesis by (simp add: key_modify_def GetAPIKeyByID_def)
next
  case (Some a)
  have "b \<noteq> a" if "apiKeysByID s j = Some b" "j \<noteq> i" for b
    using that Some key_wf_id [OF assms] by blast
  then show ?thesis
    using key_at_modify [OF assms Some, of f] Some
    by (cases "apiKeysByID s j") (auto simp: GetAPIKeyByID_def)
qed

section \<open>The store as a map of keys\<close>

datatype key_op =
    OpCreate APIKey
  | OpUpdate APIKey
  | OpTouch string go_time
  | OpSpend string float64
  | OpModelSpend string string float64
  | OpReset go_time string
  | OpDelete string
  | OpBlock string bool

fun key_step :: "key_op \<Rightarrow> MemoryStore \<Rightarrow> MemoryStore" where
  "key_step (OpCreate k) = CreateAPIKey k"
| "key_step (OpUpdate k) = UpdateAPIKey k"
| "key_step (OpTouch i t) = UpdateAPIKeyLastUsed i t"
| "key_step (OpSpend i x) = UpdateAPIKeySpent i x"
| "key_step (OpModelSpend i m x) = UpdateAPIKeyModelSpent i m x"
| "key_step (OpReset t i) = ResetAPIKeyBudget t i"
| "key_step (OpDelete i) = DeleteAPIKey i"
| "key_step (OpBlock i b) = BlockAPIKey i b"

text \<open>The change that an operation makes to one key.\<close>

fun op_change :: "key_op \<Rightarrow> APIKey \<Rightarrow> APIKey" where
  "op_change (OpCreate k) = id"
| "op_change (OpUpdate k) = (\<lambda>_. k)"
| "op_change (OpTouch i t) = (\<lambda>key. key\<lparr>ak_LastUsedAt := Some t\<rparr>)"
| "op_change (OpSpend i x) = (\<lambda>key. key\<lparr>ak_SpentBudget := ak_SpentBudget key + x\<rparr>)"
| "op_change (OpModelSpend i m x) = (\<lambda>key. key\<lparr>ak_ModelSpend := map_add_at m x (ak_ModelSpend key)\<rparr>)"
| "op_change (OpReset t i) =
     (\<lambda>key. key\<lparr>ak_SpentBudget := 0, ak_ModelSpend := Map.empty,
                ak_BudgetResetAt := NextResetTime t (ak_BudgetDuration key)\<rparr>)"
| "op_change (OpDelete i) = (\<lambda>key. key\<lparr>ak_IsActive := False\<rparr>)"
| "op_change (OpBlock i b) = (\<lambda>key. key\<lparr>ak_Blocked := b\<rparr>)"

fun op_target :: "key_op \<Rightarrow> string" where
  "op_target (OpCreate k) = ak_ID k"
| "op_target (OpUpdate k) = ak_ID k"
| "op_target (OpTouch i t) = i"
| "op_target (OpSpend i x) = i"
| "op_target (OpModelSpend i m x) = i"
| "op_target (OpReset t i) = i"
| "op_target (OpDelete i) = i"
| "op_target (OpBlock i b) = i"

text \<open>The specification: a map from ids to keys.\<close>

definition spec_step :: "key_op \<Rightarrow> (string \<rightharpoonup> APIKey) \<Rightarrow> (string \<rightharpoonup> APIKey)" where
  "spec_step x K =
     (case x of OpCreate k \<Rightarrow> K(ak_ID k \<mapsto> k) | _ \<Rightarrow> modify_at (op_target x) (op_change x) K)"

text \<open>Creation takes a new id and a new hash, an update keeps the hash.\<close>

definition legal_op :: "key_op \<Rightarrow> (string \<rightharpoonup> APIKey) \<Rightarrow> bool" where
  "legal_op x K \<longleftrightarrow>
     (case x of
        OpCreate k \<Rightarrow> K (ak_ID k) = None \<and> (\<forall>k'\<in>ran K. ak_KeyHash k' \<noteq> ak_KeyHash k)
      | OpUpdate k \<Rightarrow> (\<forall>k'. K (ak_ID k) = Some k' \<longrightarrow> ak_KeyHash k' = ak_KeyHash k)
      | _ \<Rightarrow> True)"

fun legal_ops :: "key_op list \<Rightarrow> (string \<rightharpoonup> APIKey) \<Rightarrow> bool" where
  "legal_ops [] K = True"
| "legal_ops (x # xs) K = (legal_op x K \<and> legal_ops xs (spec_step x K))"

lemma key_step_modify:
  assumes "\<forall>k. x \<noteq> OpCreate k \<and> x \<noteq> OpUpdate k"
  shows "key_step x s = key_modify (op_target x) (op_change x) s" and "keeps_index (op_change x)"
  using assms
  by (cases x; simp add: UpdateAPIKeyLastUsed_def UpdateAPIKeySpent_def UpdateAPIKeyModelSpent_def
      ResetAPIKeyBudget_def DeleteAPIKey_def BlockAPIKey_def keeps_index_def)+

definition keys_of :: "MemoryStore \<Rightarrow> string \<rightharpoonup> APIKey" where
  "keys_of s = (\<lambda>i. GetAPIKeyByID i s)"

text \<open>
  Storing a key under its hash and its id is sound if both are free or both belong to the same
  key.
\<close>

lemma CreateAPIKey_put:
  assumes wf: "key_wf s" and same: "apiKeys s (ak_KeyHash k) = apiKeysByID s (ak_ID k)"
  shows "key_wf (CreateAPIKey k s)" and "keys_of (CreateAPIKey k s) = (keys_of s)(ak_ID k \<mapsto> k)"
proof -
  let ?s = "CreateAPIKey k s" and ?n = "length (st_heap s)"
  have old: "key_at ?s a = key_at s a" if "a < ?n" for a
    using that by (simp add: CreateAPIKey_def key_at_def nth_append Let_def)
  have new: "key_at ?s ?n = k" "length (st_heap ?s) = Suc ?n"
    by (simp_all add: CreateAPIKey_def key_at_def Let_def)
  have maps: "apiKeys ?s = (apiKeys s)(ak_KeyHash k \<mapsto> ?n)" "apiKeysByID ?s = (apiKeysByID s)(ak_ID k \<mapsto> ?n)"
    by (simp_all add: CreateAPIKey_def Let_def)
  have "a < Suc ?n \<and> ak_KeyHash (key_at ?s a) = h \<and> apiKeysByID ?s (ak_ID (key_at ?s a)) = Some a"
    if "apiKeys ?s h = Some a" for h a
  proof (cases "h = ak_KeyHash k")
    case True
    then show ?thesis using that new maps by simp
  next
    case False
    then have h: "apiKeys s h = Some a" using that maps by simp
    note wh = key_wf_hash [OF wf h]
    have "ak_ID (key_at s a) \<noteq> ak_ID k" using wh same False key_wf_hash [OF wf, of "ak_KeyHash k" a] by auto
    then show ?thesis using wh old maps by simp
  qed
  moreover have "a < Suc ?n \<and> ak_ID (key_at ?s a) = i \<and> apiKeys ?s (ak_KeyHash (key_at ?s a)) = Some a"
    if "apiKeysByID ?s i = Some a" for i a
  proof (cases "i = ak_ID k")
    case True
    then show ?thesis using that new maps by simp
  next
    case False
    then have i: "apiKeysByID s i = Some a" using that maps by simp
    note wi = key_wf_id [OF wf i]
    have "ak_KeyHash (key_at s a) \<noteq> ak_KeyHash k" using wi same False key_wf_id [OF wf, of "ak_ID k" a] by auto
    then show ?thesis using wi old maps by simp
  qed
  ultimately show "key_wf ?s" using new(2) unfolding key_wf_def by simp
  show "keys_of ?s = (keys_of s)(ak_ID k \<mapsto> k)"
  proof
    fix i show "keys_of ?s i = ((keys_of s)(ak_ID k \<mapsto> k)) i"
      using key_wf_id [OF wf, of i] old new(1) maps(2)
      by (cases "apiKeysByID s i") (simp_all add: keys_of_def GetAPIKeyByID_def)
  qed
qed

lemma CreateAPIKey_fresh:
  assumes wf: "key_wf s" and fresh: "keys_of s (ak_ID k) = None"
    and hash: "\<forall>k'\<in>ran (keys_of s). ak_KeyHash k' \<noteq> ak_KeyHash k"
  shows "apiKeys s (ak_KeyHash k) = apiKeysByID s (ak_ID k)"
proof -
  have "GetAPIKeyByHash (ak_KeyHash k) s = None"
  proof (rule ccontr)
    assume "GetAPIKeyByHash (ak_KeyHash k) s \<noteq> None"
    then obtain k' where "GetAPIKeyByHash (ak_KeyHash k) s = Some k'" by auto
    then show False using hash unfolding GetAPIKeyByHash_iff [OF wf] keys_of_def ran_def by blast
  qed
  then show ?thesis using fresh by (simp add: keys_of_def GetAPIKeyByID_def GetAPIKeyByHash_def)
qed

lemma UpdateAPIKey_as_create:
  assumes wf: "key_wf s" and e: "apiKeysByID s (ak_ID k) = Some e" and h: "ak_KeyHash (key_at s e) = ak_KeyHash k"
  shows "UpdateAPIKey k s = CreateAPIKey k s" and "apiKeys s (ak_KeyHash k) = apiKeysByID s (ak_ID k)"
  using e h key_wf_id [OF wf e] by (simp_all add: UpdateAPIKey_def CreateAPIKey_def Let_def)

text \<open>One legal operation keeps the indexes well-formed and acts like the map.\<close>

lemma key_step_refines:
  assumes wf: "key_wf s" and legal: "legal_op x (keys_of s)"
  shows "key_wf (key_step x s) \<and> keys_of (key_step x s) = spec_step x (keys_of s)"
proof (cases x)
  case (OpCreate k)
  then show ?thesis
    using CreateAPIKey_put [OF wf CreateAPIKey_fresh [OF wf]] legal by (simp add: legal_op_def spec_step_def)
next
  case (OpUpdate k)
  show ?thesis
  proof (cases "apiKeysByID s (ak_ID k)")
    case None
    then show ?thesis
      using wf OpUpdate by (simp add: UpdateAPIKey_def spec_step_def modify_at_def keys_of_def GetAPIKeyByID_def)
  next
    case (Some e)
    then have "ak_KeyHash (key_at s e) = ak_KeyHash k"
      using legal OpUpdate by (simp add: legal_op_def keys_of_def GetAPIKeyByID_def)
    note up = UpdateAPIKey_as_create [OF wf Some this]
    show ?thesis
      using CreateAPIKey_put [OF wf up(2)] up(1) OpUpdate Some
      by (simp add: spec_step_def modify_at_def keys_of_def GetAPIKeyByID_def)
  qed
qed (use wf key_step_modify [of x] key_modify_wf [OF wf] GetAPIKeyByID_modify [OF wf] in
    \<open>auto simp: spec_step_def keys_of_def modify_at_def fun_eq_iff split: option.split\<close>)

lemma key_steps_refine:
  "key_wf s \<Longrightarrow> legal_ops xs (keys_of s) \<Longrightarrow>
   key_wf (fold key_step xs s) \<and> keys_of (fold key_step xs s) = fold spec_step xs (keys_of s)"
  by (induction xs arbitrary: s) (auto simp: key_step_refines)

lemma keys_of_new [simp]: "keys_of NewMemoryStore = Map.empty"
  by (simp add: keys_of_def GetAPIKeyByID_def NewMemoryStore_def fun_eq_iff)

text \<open>
  \<^bold>\<open>C20\<close>. The two indexes of the key store act like one map from ids to keys: after any sequence
  of operations in which creations take new ids and hashes and updates keep the hash, a lookup
  by id finds what the map has, and a lookup by hash finds exactly the key of the map with that
  hash.
\<close>

theorem key_store_refines_map:
  assumes "legal_ops xs Map.empty"
  shows "let s = fold key_step xs NewMemoryStore; K = fold spec_step xs Map.empty
     in (\<forall>i. GetAPIKeyByID i s = K i) \<and>
        (\<forall>h k. GetAPIKeyByHash h s = Some k \<longleftrightarrow> K (ak_ID k) = Some k \<and> ak_KeyHash k = h)"
proof -
  let ?s = "fold key_step xs NewMemoryStore"
  have s: "key_wf ?s" "keys_of ?s = fold spec_step xs Map.empty"
    using key_steps_refine [of NewMemoryStore xs] assms by simp_all
  show ?thesis
    using GetAPIKeyByHash_iff [OF s(1)] unfolding s(2) [symmetric] keys_of_def Let_def by simp
qed

definition demo_key :: "string \<Rightarrow> string \<Rightarrow> APIKey" where
  "demo_key i h =
     \<lparr>ak_ID = i, ak_KeyHash = h, ak_KeyPrefix = [], ak_Name = [], ak_KeyAlias = None, ak_TeamID = None,
      ak_UserID = None, ak_OrganizationID = None, ak_AllowedModels = [], ak_KeyType = KeyTypeDefault,
      ak_TPMLimit = None, ak_RPMLimit = None, ak_MaxParallelRequests = None, ak_ModelTPMLimit = Map.empty,
      ak_ModelRPMLimit = Map.empty, ak_MaxBudget = 10, ak_SoftBudget = None, ak_SpentBudget = 0,
      ak_ModelMaxBudget = Map.empty, ak_ModelSpend = Map.empty, ak_BudgetDuration = BudgetDurationDaily,
      ak_BudgetResetAt = None, ak_Metadata = Map.empty, ak_IsActive = True, ak_Blocked = False,
      ak_CreatedAt = 0, ak_UpdatedAt = 0, ak_ExpiresAt = None, ak_LastUsedAt = None\<rparr>"

lemma demo_key_fields [simp]:
  "ak_ID (demo_key i h) = i" "ak_KeyHash (demo_key i h) = h" "ak_IsActive (demo_key i h)" "\<not> ak_Blocked (demo_key i h)"
  "ak_TeamID (demo_key i h) = None" "ak_ExpiresAt (demo_key i h) = None" "ak_UserID (demo_key i h) = None"
  "ak_OrganizationID (demo_key i h) = None" "ak_KeyType (demo_key i h) = KeyTypeDefault"
  "ak_MaxBudget (demo_key i h) = 10" "ak_SpentBudget (demo_key i h) = 0" "ak_AllowedModels (demo_key i h) = []"
  by (simp_all add: demo_key_def)

theorem key_store_refines_map_witness:
  "GetAPIKeyByHash ''h2'' (fold key_step [OpCreate (demo_key ''a'' ''h1''), OpCreate (demo_key ''b'' ''h2''),
     OpSpend ''b'' 3, OpDelete ''a''] NewMemoryStore) = Some ((demo_key ''b'' ''h2'')\<lparr>ak_SpentBudget := 3\<rparr>)"
proof -
  let ?xs = "[OpCreate (demo_key ''a'' ''h1''), OpCreate (demo_key ''b'' ''h2''), OpSpend ''b'' 3, OpDelete ''a'']"
  let ?k = "(demo_key ''b'' ''h2'')\<lparr>ak_SpentBudget := 3\<rparr>"
  have "legal_ops ?xs Map.empty"
    by (simp add: legal_op_def spec_step_def modify_at_def)
  from key_store_refines_map [OF this]
  have "GetAPIKeyByHash ''h2'' (fold key_step ?xs NewMemoryStore) = Some ?k \<longleftrightarrow>
      fold spec_step ?xs Map.empty (ak_ID ?k) = Some ?k \<and> ak_KeyHash ?k = ''h2''"
    unfolding Let_def by blast
  then show ?thesis by (simp add: spec_step_def modify_at_def)
qed

section \<open>Usage statistics\<close>

definition succeeded :: "UsageLog \<Rightarrow> bool" where
  "succeeded l = (case ul_StatusCode l of None \<Rightarrow> True | Some code \<Rightarrow> code < 400)"

lemma usage_fold:
  "fold (usage_step f) ls (st, ms, ps, n) =
     (let L = filter (usage_matches f) ls
      in (st\<lparr>ust_TotalRequests := ust_TotalRequests st + int (length L),
             ust_TotalTokens := ust_TotalTokens st + sum_list (map ul_TotalTokens L),
             ust_InputTokens := ust_InputTokens st + sum_list (map ul_InputTokens L),
             ust_OutputTokens := ust_OutputTokens st + sum_list (map ul_OutputTokens L),
             ust_TotalCost := ust_TotalCost st + sum_list (map ul_Cost L),
             ust_AvgLatencyMs := ust_AvgLatencyMs st + sum_list (map (\<lambda>l. of_int (ul_LatencyMs l)) L)\<rparr>,
          fold List.insert (map ul_Model L) ms, fold List.insert (map ul_Provider L) ps,
          n + int (length (filter succeeded L))))"
proof (induction ls arbitrary: st ms ps n)
  case (Cons l ls)
  have "usage_step f l (st, ms, ps, n) =
      (if usage_matches f l
       then (st\<lparr>ust_TotalRequests := ust_TotalRequests st + 1,
                ust_TotalTokens := ust_TotalTokens st + ul_TotalTokens l,
                ust_InputTokens := ust_InputTokens st + ul_InputTokens l,
                ust_OutputTokens := ust_OutputTokens st + ul_OutputTokens l,
                ust_TotalCost := ust_TotalCost st + ul_Cost l,
                ust_AvgLatencyMs := ust_AvgLatencyMs st + of_int (ul_LatencyMs l)\<rparr>,
             List.insert (ul_Model l) ms, List.insert (ul_Provider l) ps, n + (if succeeded l then 1 else 0))
       else (st, ms, ps, n))"
    by (simp add: usage_step_def succeeded_def split: option.split)
  then show ?case using Cons.IH by (simp add: Let_def)
qed (simp add: Let_def)

lemma length_fold_insert: "length (fold List.insert xs ys) = card (set xs \<union> set ys)" if "distinct ys"
proof -
  have "distinct (fold List.insert xs ys) \<and> set (fold List.insert xs ys) = set xs \<union> set ys"
    using that by (induction xs arbitrary: ys) (auto simp: distinct_insert)
  then show ?thesis by (metis distinct_card)
qed

text \<open>
  The usage statistics are what they are called: over the logs that match the filter,
  the number of requests, the sums of the tokens and of the cost, the mean latency, the share of
  requests that did not fail, and the numbers of different models and providers.
\<close>

theorem usage_stats_exact:
  "let L = filter (usage_matches f) (st_usageLogs s); n = length L; u = GetUsageStats f s
   in ust_TotalRequests u = int n \<and> ust_TotalTokens u = sum_list (map ul_TotalTokens L) \<and>
      ust_InputTokens u = sum_list (map ul_InputTokens L) \<and> ust_OutputTokens u = sum_list (map ul_OutputTokens L) \<and>
      ust_TotalCost u = sum_list (map ul_Cost L) \<and>
      ust_AvgLatencyMs u * real n = sum_list (map (\<lambda>l. of_int (ul_LatencyMs l)) L) \<and>
      ust_SuccessRate u * real n = real (length (filter succeeded L)) \<and>
      ust_UniqueModels u = int (card (ul_Model ` set L)) \<and> ust_UniqueProviders u = int (card (ul_Provider ` set L))"
proof (cases "filter (usage_matches f) (st_usageLogs s)")
  case Nil
  then show ?thesis by (simp add: GetUsageStats_def usage_fold zero_usage_def Let_def)
next
  case (Cons l ls)
  then have "0 < length (filter (usage_matches f) (st_usageLogs s))" by simp
  then show ?thesis
    unfolding GetUsageStats_def usage_fold Let_def
    by (simp add: zero_usage_def length_fold_insert)
qed

section \<open>Pages\<close>

lemma page_at:
  assumes "0 < limit"
  shows "fst (the (page (int o') (int limit) xs)) = take limit (drop o' xs)"
proof (cases "length xs < o' + limit")
  case True
  then show ?thesis using assms by (simp add: page_def Let_def nat_diff_distrib)
next
  case False
  then show ?thesis using assms by (simp add: page_def Let_def)
qed

text \<open>
  Reading page after page misses nothing and repeats nothing: with a positive page size,
  the pages at the offsets \<open>0\<close>, \<open>limit\<close>, \<open>2 * limit\<close>, and so on together are the list, in its order.
\<close>

theorem pages_cover_list:
  assumes "0 < limit" and "length xs \<le> n * limit"
  shows "concat (map (\<lambda>j. fst (the (page (int j * int limit) (int limit) xs))) [0..<n]) = xs"
proof -
  have "concat (map (\<lambda>j. take limit (drop (j * limit) xs)) [0..<m]) = take (m * limit) xs" for m
    by (induction m) (simp_all add: add.commute flip: take_add)
  then show ?thesis
    using page_at [OF assms(1), of "j * limit" xs for j] assms(2) by (simp flip: of_nat_mult)
qed

theorem pages_cover_list_witness:
  "concat (map (\<lambda>j. fst (the (page (int j * 2) 2 [10, 20, 30 :: int]))) [0..<2]) = [10, 20, 30]"
  using pages_cover_list [of 2 "[10, 20, 30 :: int]" 2] by simp

end
