(* ===== verification/Auth_Keys.thy ===== *)
theory Auth_Keys
  imports Auth_Types
begin

text \<open>
  The secrets of API keys (\<open>internal/auth/hasher.go\<close>) and the durations that the management
  interface accepts (\<open>internal/auth/key_utils.go\<close>). SHA-256 is a parameter; the bytes of the
  random generator are an argument.
\<close>

section \<open>Encodings\<close>

text \<open>\<open>hex.EncodeToString\<close> and \<open>base64.RawURLEncoding.EncodeToString\<close>.\<close>

definition hex_digits :: string where
  "hex_digits = ''0123456789abcdef''"

definition hex_EncodeToString :: "string \<Rightarrow> string" where
  "hex_EncodeToString bs =
     concat (map (\<lambda>c. [hex_digits ! (of_char c div 16), hex_digits ! (of_char c mod 16)]) bs)"

definition base64_alphabet :: string where
  "base64_alphabet = ''ABCDEFGHIJKLMNOPQRSTUVWXYZabcdefghijklmnopqrstuvwxyz0123456789-_''"

fun sextets :: "nat list \<Rightarrow> nat list" where
  "sextets [] = []"
| "sextets [a] = [a div 4, (a mod 4) * 16]"
| "sextets [a, b] = [a div 4, (a mod 4) * 16 + b div 16, (b mod 16) * 4]"
| "sextets (a # b # c # bs) =
     (a div 4) # ((a mod 4) * 16 + b div 16) # ((b mod 16) * 4 + c div 64) # (c mod 64) # sextets bs"

definition base64_EncodeToString :: "string \<Rightarrow> string" where
  "base64_EncodeToString bs = map (\<lambda>i. base64_alphabet ! i) (sextets (map of_char bs))"

section \<open>Secrets\<close>

definition KeyPrefixLength :: nat where
  "KeyPrefixLength = 8"

definition KeyLength :: nat where
  "KeyLength = 32"

definition DefaultKeyPrefix :: string where
  "DefaultKeyPrefix = ''llmux_''"

definition HashKey :: "(string \<Rightarrow> string) \<Rightarrow> string \<Rightarrow> string" where
  "HashKey sha256 key = hex_EncodeToString (sha256 key)"

text \<open>The random generator gives \<open>KeyLength\<close> bytes or an error.\<close>

definition GenerateAPIKey :: "(string \<Rightarrow> string) \<Rightarrow> go_error + string \<Rightarrow> go_error + string \<times> string" where
  "GenerateAPIKey sha256 random =
     (case random of
        Inl err \<Rightarrow> Inl (WrappedErr ''generate random bytes'' err)
      | Inr randomBytes \<Rightarrow>
          (let randomPart = base64_EncodeToString randomBytes;
               fullKey = DefaultKeyPrefix @ randomPart
           in Inr (fullKey, HashKey sha256 fullKey)))"

definition VerifyKey :: "(string \<Rightarrow> string) \<Rightarrow> string \<Rightarrow> string \<Rightarrow> bool" where
  "VerifyKey sha256 key hash \<longleftrightarrow> HashKey sha256 key = hash"

definition ExtractKeyPrefix :: "string \<Rightarrow> string" where
  "ExtractKeyPrefix key = (if length key \<le> KeyPrefixLength then key else take KeyPrefixLength key)"

definition ParseAuthHeader :: "string \<Rightarrow> go_error + string" where
  "ParseAuthHeader header =
     (if header = [] then Inl (PlainErr ''authorization header is empty'')
      else if prefix ''Bearer '' header
      then let key = TrimSpace (drop (length ''Bearer '') header)
           in if key = [] then Inl (PlainErr ''bearer token is empty'') else Inr key
      else Inr (TrimSpace header))"

definition MaskKey :: "string \<Rightarrow> string" where
  "MaskKey key =
     (if length key \<le> 12 then ''***'' else take 8 key @ ''...'' @ drop (length key - 4) key)"

section \<open>Durations\<close>

text \<open>
  The digits at the front as a number, in 64 bits, and the unit behind them. Without a unit the
  loop ends with an empty one.
\<close>

fun scan_duration :: "string \<Rightarrow> int \<Rightarrow> int \<times> string" where
  "scan_duration [] value = (value, [])"
| "scan_duration (c # cs) value =
     (if 48 \<le> (of_char c :: int) \<and> (of_char c :: int) \<le> 57
      then scan_duration cs (wrap64 (wrap64 (value * 10) + (of_char c - 48)))
      else (value, c # cs))"

definition unit_seconds :: "string \<Rightarrow> int option" where
  "unit_seconds unit =
     (if unit \<in> {''s'', ''sec'', ''second'', ''seconds''} then Some 1
      else if unit \<in> {''m'', ''min'', ''minute'', ''minutes''} then Some 60
      else if unit \<in> {''h'', ''hr'', ''hour'', ''hours''} then Some 3600
      else if unit \<in> {''d'', ''day'', ''days''} then Some 86400
      else if unit \<in> {''w'', ''week'', ''weeks''} then Some 604800
      else if unit \<in> {''mo'', ''month'', ''months''} then Some 2592000
      else if unit \<in> {''y'', ''year'', ''years''} then Some 31536000
      else None)"

definition DurationInSeconds :: "string \<Rightarrow> int" where
  "DurationInSeconds duration =
     (if duration = [] then 0
      else let (value, unit) = scan_duration duration 0
           in case unit_seconds unit of None \<Rightarrow> 0 | Some n \<Rightarrow> wrap64 (value * n))"

definition ParseDuration :: "go_time \<Rightarrow> string \<Rightarrow> go_time option" where
  "ParseDuration now duration =
     (if duration = [] \<or> duration = ''-1'' then None
      else let seconds = DurationInSeconds duration
           in if seconds \<le> 0 then None else Some (now + wrap64 (seconds * second)))"

definition CalculateRotationTime :: "go_time \<Rightarrow> string \<Rightarrow> go_time option" where
  "CalculateRotationTime now interval =
     (let seconds = DurationInSeconds interval
      in if seconds \<le> 0 then None else Some (now + wrap64 (seconds * second)))"

section \<open>Lemmas\<close>

fun unsextets :: "nat list \<Rightarrow> nat list" where
  "unsextets [] = []"
| "unsextets [p] = []"
| "unsextets [p, q] = [p * 4 + q div 16]"
| "unsextets [p, q, r] = [p * 4 + q div 16, (q mod 16) * 16 + r div 4]"
| "unsextets (p # q # r # t # ts) =
     (p * 4 + q div 16) # ((q mod 16) * 16 + r div 4) # ((r mod 4) * 64 + t) # unsextets ts"

lemma unsextets_sextets:
  "\<forall>b\<in>set bs. b < 256 \<Longrightarrow> unsextets (sextets bs) = bs"
proof (induction bs rule: sextets.induct)
  case (4 a b c bs)
  then have "b div 16 < 16" "c div 64 < 4" by auto
  with 4 show ?case by simp
next
  case (3 a b)
  then have "b div 16 < 16" by auto
  then show ?case by simp
qed simp_all

lemma sextets_bound: "\<forall>b\<in>set bs. b < 256 \<Longrightarrow> \<forall>i\<in>set (sextets bs). i < 64"
proof (induction bs rule: sextets.induct)
  case (4 a b c bs)
  then have "a div 4 < 64" "b div 16 < 16" "c div 64 < 4" by auto
  with 4 show ?case by auto
next
  case (3 a b)
  then have "a div 4 < 64" "b div 16 < 16" by auto
  then show ?case by auto
qed auto

lemma base64_alphabet_facts:
  "length base64_alphabet = 64" "distinct base64_alphabet"
  "\<forall>c\<in>set base64_alphabet. 32 < (of_char c :: nat) \<and> (of_char c :: nat) < 128"
  by (simp_all add: base64_alphabet_def)

lemma base64_EncodeToString_inject:
  assumes "base64_EncodeToString bs = base64_EncodeToString cs"
  shows "bs = cs"
proof -
  let ?f = "\<lambda>bs :: string. sextets (map of_char bs)"
  have bound: "\<forall>i\<in>set (?f bs). i < 64" for bs
    by (rule sextets_bound) simp
  have "inj_on ((!) base64_alphabet) {..<64}"
    by (rule inj_onI) (metis base64_alphabet_facts(1,2) lessThan_iff nth_eq_iff_index_eq)
  moreover have "set (?f bs) \<union> set (?f cs) \<subseteq> {..<64}" using bound by blast
  ultimately have "inj_on ((!) base64_alphabet) (set (?f bs) \<union> set (?f cs))" by (rule inj_on_subset)
  with assms have "?f bs = ?f cs"
    unfolding base64_EncodeToString_def by (rule map_inj_on)
  moreover have "map char_of (unsextets (?f ds)) = ds" for ds :: string
    by (simp add: unsextets_sextets comp_def)
  ultimately show ?thesis by metis
qed

lemma generated_key_printable:
  assumes "GenerateAPIKey sha256 random = Inr (key, hash)"
  shows "\<forall>c\<in>set key. 32 < (of_char c :: nat) \<and> (of_char c :: nat) < 128" and "key \<noteq> []"
proof -
  from assms obtain bs where key: "key = DefaultKeyPrefix @ base64_EncodeToString bs"
    by (auto simp: GenerateAPIKey_def Let_def split: sum.splits)
  have "\<forall>i\<in>set (sextets (map of_char bs)). i < 64" by (rule sextets_bound) simp
  then have "set (base64_EncodeToString bs) \<subseteq> set base64_alphabet"
    using base64_alphabet_facts(1) by (auto simp: base64_EncodeToString_def)
  then show "\<forall>c\<in>set key. 32 < (of_char c :: nat) \<and> (of_char c :: nat) < 128"
    using base64_alphabet_facts(3) by (auto simp: key DefaultKeyPrefix_def)
  show "key \<noteq> []" by (simp add: key DefaultKeyPrefix_def)
qed

text \<open>
  \<^bold>\<open>C37\<close>. A generated key survives the way to the server: sent as a bearer token, or as the bare
  key, it is read back exactly, and it verifies against the hash that was stored for it; and two
  generated keys are the same only if the random bytes were the same.
\<close>

theorem generated_key_roundtrip:
  assumes "GenerateAPIKey sha256 (Inr random) = Inr (key, hash)"
  shows "ParseAuthHeader (''Bearer '' @ key) = Inr key \<and> ParseAuthHeader key = Inr key \<and>
    VerifyKey sha256 key hash \<and>
    (\<forall>random' key' hash'. GenerateAPIKey sha256 (Inr random') = Inr (key', hash') \<longrightarrow>
       (key' = key \<longleftrightarrow> random' = random))"
proof -
  note p = generated_key_printable [OF assms]
  have key: "key = ''llmux_'' @ base64_EncodeToString random"
    using assms by (auto simp: GenerateAPIKey_def DefaultKeyPrefix_def Let_def)
  have "\<not> prefix ''Bearer '' key" by (simp add: key)
  moreover have "VerifyKey sha256 key hash"
    using assms by (auto simp: GenerateAPIKey_def VerifyKey_def Let_def)
  moreover have "key' = key \<longleftrightarrow> random' = random"
    if "GenerateAPIKey sha256 (Inr random') = Inr (key', hash')" for random' key' hash'
    using that base64_EncodeToString_inject
    by (auto simp: GenerateAPIKey_def DefaultKeyPrefix_def Let_def key)
  ultimately show ?thesis using TrimSpace_printable [OF p(1)] p(2) by (simp add: ParseAuthHeader_def Let_def)
qed

theorem generated_key_roundtrip_witness:
  "ParseAuthHeader ''Bearer llmux_AQID'' = Inr ''llmux_AQID''"
  using generated_key_roundtrip [of id "[CHR 0x01, CHR 0x02, CHR 0x03]" "''llmux_AQID''" "HashKey id ''llmux_AQID''"]
  by (simp add: GenerateAPIKey_def DefaultKeyPrefix_def base64_EncodeToString_def base64_alphabet_def Let_def)

end
