(* ===== verification/Auth_Access.thy ===== *)
theory Auth_Access
  imports Auth_Store_Properties Auth_Keys
begin

text \<open>
  Authentication and model access: the store as an interface (\<open>internal/auth/store.go\<close>), the
  evaluation of model permissions (\<open>model_access.go\<close>), the subjects and objects of the policy
  enforcer (\<open>casbin.go\<close>; the enforcer itself is a library and a parameter) and the HTTP
  middleware (\<open>middleware.go\<close>).
\<close>

section \<open>The store interface\<close>

text \<open>
  The operations that authentication and governance call, over a state of the store. Reading
  returns an error, nothing or the entity; writing returns an error or none.
\<close>

record 's AuthOps =
  ao_GetAPIKeyByHash :: "string \<Rightarrow> 's \<Rightarrow> go_error + APIKey option"
  ao_GetAPIKeyByID :: "string \<Rightarrow> 's \<Rightarrow> go_error + APIKey option"
  ao_UpdateAPIKey :: "APIKey \<Rightarrow> 's \<Rightarrow> go_error option \<times> 's"
  ao_UpdateAPIKeyLastUsed :: "string \<Rightarrow> go_time \<Rightarrow> 's \<Rightarrow> go_error option \<times> 's"
  ao_UpdateAPIKeySpent :: "string \<Rightarrow> float64 \<Rightarrow> 's \<Rightarrow> go_error option \<times> 's"
  ao_UpdateAPIKeyModelSpent :: "string \<Rightarrow> string \<Rightarrow> float64 \<Rightarrow> 's \<Rightarrow> go_error option \<times> 's"
  ao_GetTeam :: "string \<Rightarrow> 's \<Rightarrow> go_error + Team option"
  ao_UpdateTeamSpent :: "string \<Rightarrow> float64 \<Rightarrow> 's \<Rightarrow> go_error option \<times> 's"
  ao_UpdateTeamModelSpent :: "string \<Rightarrow> string \<Rightarrow> float64 \<Rightarrow> 's \<Rightarrow> go_error option \<times> 's"
  ao_GetUser :: "string \<Rightarrow> 's \<Rightarrow> go_error + User option"
  ao_UpdateUserSpent :: "string \<Rightarrow> float64 \<Rightarrow> 's \<Rightarrow> go_error option \<times> 's"
  ao_GetOrganization :: "string \<Rightarrow> 's \<Rightarrow> go_error + Organization option"
  ao_UpdateOrganizationSpent :: "string \<Rightarrow> float64 \<Rightarrow> 's \<Rightarrow> go_error option \<times> 's"
  ao_UpdateTeamMembershipSpent :: "string \<Rightarrow> string \<Rightarrow> float64 \<Rightarrow> 's \<Rightarrow> go_error option \<times> 's"
  ao_UpdateOrganizationMembershipSpent :: "string \<Rightarrow> string \<Rightarrow> float64 \<Rightarrow> 's \<Rightarrow> go_error option \<times> 's"
  ao_GetEndUser :: "string \<Rightarrow> 's \<Rightarrow> go_error + EndUser option"
  ao_UpdateEndUserSpent :: "string \<Rightarrow> float64 \<Rightarrow> 's \<Rightarrow> go_error option \<times> 's"
  ao_LogUsage :: "UsageLog \<Rightarrow> 's \<Rightarrow> go_error option \<times> 's"

definition memory_auth_ops :: "MemoryStore AuthOps" where
  "memory_auth_ops =
     \<lparr>ao_GetAPIKeyByHash = (\<lambda>h s. Inr (GetAPIKeyByHash h s)),
      ao_GetAPIKeyByID = (\<lambda>i s. Inr (GetAPIKeyByID i s)),
      ao_UpdateAPIKey = (\<lambda>k s. (None, UpdateAPIKey k s)),
      ao_UpdateAPIKeyLastUsed = (\<lambda>i t s. (None, UpdateAPIKeyLastUsed i t s)),
      ao_UpdateAPIKeySpent = (\<lambda>i x s. (None, UpdateAPIKeySpent i x s)),
      ao_UpdateAPIKeyModelSpent = (\<lambda>i m x s. (None, UpdateAPIKeyModelSpent i m x s)),
      ao_GetTeam = (\<lambda>i s. Inr (GetTeam i s)),
      ao_UpdateTeamSpent = (\<lambda>i x s. (None, UpdateTeamSpent i x s)),
      ao_UpdateTeamModelSpent = (\<lambda>i m x s. (None, UpdateTeamModelSpent i m x s)),
      ao_GetUser = (\<lambda>i s. Inr (GetUser i s)),
      ao_UpdateUserSpent = (\<lambda>i x s. (None, UpdateUserSpent i x s)),
      ao_GetOrganization = (\<lambda>i s. Inr (GetOrganization i s)),
      ao_UpdateOrganizationSpent = (\<lambda>i x s. (None, UpdateOrganizationSpent i x s)),
      ao_UpdateTeamMembershipSpent = (\<lambda>u t x s. (None, UpdateTeamMembershipSpent u t x s)),
      ao_UpdateOrganizationMembershipSpent = (\<lambda>u i x s. (None, UpdateOrganizationMembershipSpent u i x s)),
      ao_GetEndUser = (\<lambda>i s. Inr (GetEndUser i s)),
      ao_UpdateEndUserSpent = (\<lambda>i x s. (None, UpdateEndUserSpent i x s)),
      ao_LogUsage = (\<lambda>l s. (None, LogUsage l s))\<rparr>"

section \<open>Model access\<close>

record ModelAccess =
  ma_apiKey :: "APIKey option"
  ma_team :: "Team option"
  ma_user :: "User option"
  ma_organization :: "Organization option"

text \<open>The store may be missing; then nothing is loaded.\<close>

definition opt_or_empty :: "string option \<Rightarrow> string" where
  "opt_or_empty x = (case x of None \<Rightarrow> [] | Some v \<Rightarrow> v)"

definition access_user :: "'s AuthOps \<Rightarrow> 's option \<Rightarrow> AuthContext \<Rightarrow> go_error + User option" where
  "access_user ops store authCtx =
     (case (ac_User authCtx, Option.bind (ac_APIKey authCtx) ak_UserID, store) of
        (None, Some userID, Some s) \<Rightarrow> ao_GetUser ops userID s
      | (user, _, _) \<Rightarrow> Inr user)"

definition access_orgID :: "AuthContext \<Rightarrow> User option \<Rightarrow> string" where
  "access_orgID authCtx user =
     (let orgID = opt_or_empty (Option.bind (ac_APIKey authCtx) ak_OrganizationID)
      in if orgID = [] then opt_or_empty (Option.bind user usr_OrganizationID) else orgID)"

definition NewModelAccess ::
  "'s AuthOps \<Rightarrow> 's option \<Rightarrow> AuthContext option \<Rightarrow> go_error + ModelAccess option" where
  "NewModelAccess ops store auth =
     (case auth of
        None \<Rightarrow> Inr None
      | Some authCtx \<Rightarrow>
          (case access_user ops store authCtx of
             Inl err \<Rightarrow> Inl err
           | Inr user \<Rightarrow>
               (let orgID = access_orgID authCtx user;
                    access = \<lparr>ma_apiKey = ac_APIKey authCtx, ma_team = ac_Team authCtx, ma_user = user,
                              ma_organization = None\<rparr>
                in case store of
                     Some s \<Rightarrow>
                       (if orgID = [] then Inr (Some access)
                        else case ao_GetOrganization ops orgID s of
                               Inl err \<Rightarrow> Inl err
                             | Inr org \<Rightarrow> Inr (Some (access\<lparr>ma_organization := org\<rparr>)))
                   | None \<Rightarrow> Inr (Some access))))"

definition ma_Allows :: "ModelAccess option \<Rightarrow> string \<Rightarrow> bool" where
  "ma_Allows access model =
     (case access of
        None \<Rightarrow> True
      | Some a \<Rightarrow>
          if model = [] then True
          else if (case ma_apiKey a of None \<Rightarrow> False | Some k \<Rightarrow> \<not> ak_CanAccessModel k model) then False
          else if (case ma_team a of None \<Rightarrow> False | Some t \<Rightarrow> \<not> tm_CanAccessModel t model) then False
          else if (case ma_user a of None \<Rightarrow> False | Some u \<Rightarrow> \<not> usr_CanAccessModel u model) then False
          else if (case ma_organization a of None \<Rightarrow> False | Some x \<Rightarrow> \<not> og_CanAccessModel x model) then False
          else True)"

section \<open>The policy enforcer\<close>

record 'e Enforcer =
  en_AddGroupingPolicy :: "string \<Rightarrow> string \<Rightarrow> 'e \<Rightarrow> 'e"
  en_AddPolicy :: "string \<Rightarrow> string \<Rightarrow> string \<Rightarrow> 'e \<Rightarrow> 'e"
  en_Enforce :: "string \<Rightarrow> string \<Rightarrow> string \<Rightarrow> 'e \<Rightarrow> go_error + bool"

definition KeySub :: "string \<Rightarrow> string" where
  "KeySub keyID = ''key:'' @ keyID"

definition TeamSub :: "string \<Rightarrow> string" where
  "TeamSub teamID = ''team:'' @ teamID"

definition UserSub :: "string \<Rightarrow> string" where
  "UserSub userID = ''user:'' @ userID"

definition OrgSub :: "string \<Rightarrow> string" where
  "OrgSub orgID = ''org:'' @ orgID"

definition RoleSub :: "string \<Rightarrow> string" where
  "RoleSub role = ''role:'' @ role"

definition ModelObj :: "string \<Rightarrow> string" where
  "ModelObj modelName = ''model:'' @ modelName"

definition PathObj :: "string \<Rightarrow> string" where
  "PathObj path = path"

definition ActionUse :: string where
  "ActionUse = ''use''"

text \<open>Methods of HTTP requests are ASCII.\<close>

definition ActionMethod :: "string \<Rightarrow> string" where
  "ActionMethod method =
     map (\<lambda>c. let n = of_char c :: nat in if 97 \<le> n \<and> n \<le> 122 then char_of (n - 32) else c) method"

definition AddRoleForUser :: "'e Enforcer \<Rightarrow> string \<Rightarrow> string \<Rightarrow> 'e \<Rightarrow> 'e" where
  "AddRoleForUser en user role e = en_AddGroupingPolicy en user role e"

definition AddDefaultPolicies :: "'e Enforcer \<Rightarrow> 'e \<Rightarrow> 'e" where
  "AddDefaultPolicies en e =
     fold (\<lambda>(sub, obj, act). en_AddPolicy en sub obj act)
       [(RoleSub UserRoleProxyAdmin, ''*'', ''*''),
        (RoleSub UserRoleProxyAdminViewer, ''*'', ''GET''),
        (RoleSub UserRoleProxyAdminViewer, ''*'', ''HEAD''),
        (RoleSub KeyTypeManagement, ''*'', ''*''),
        (RoleSub KeyTypeReadOnly, ''/v1/models'', ''GET''),
        (RoleSub KeyTypeLLMAPI, ''/v1/chat/completions'', ''POST''),
        (RoleSub KeyTypeLLMAPI, ''/v1/completions'', ''POST''),
        (RoleSub KeyTypeLLMAPI, ''/v1/embeddings'', ''POST''),
        (RoleSub KeyTypeLLMAPI, ''/embeddings'', ''POST'')] e"

text \<open>
  Before a model is checked, the roles, groups and allowed models of the key are added to the
  enforcer; the middleware and the governance engine have the same code for it.
\<close>

definition sync_policies :: "'e Enforcer \<Rightarrow> APIKey \<Rightarrow> Team option \<Rightarrow> User option \<Rightarrow> 'e \<Rightarrow> 'e" where
  "sync_policies en key team user e =
     (let sub = KeySub (ak_ID key);
          e1 = AddRoleForUser en sub (RoleSub (ak_KeyType key)) e;
          e2 = (case team of Some t \<Rightarrow> en_AddGroupingPolicy en sub (TeamSub (tm_ID t)) e1 | None \<Rightarrow> e1);
          e3 = (case user of Some u \<Rightarrow> en_AddGroupingPolicy en sub (UserSub (usr_ID u)) e2 | None \<Rightarrow> e2)
      in if length (ak_AllowedModels key) > 0
         then fold (\<lambda>am. en_AddPolicy en sub (ModelObj am) ActionUse) (ak_AllowedModels key) e3
         else en_AddPolicy en sub (ModelObj ''*'') ActionUse e3)"

section \<open>The middleware\<close>

record Middleware =
  mw_skipPaths :: "string \<Rightarrow> bool"
  mw_enabled :: bool
  mw_lastUsedUpdateInterval :: go_duration

text \<open>Of a request, what the middleware reads; a missing header is empty.\<close>

record HttpRequest =
  hr_Method :: string
  hr_Path :: string
  hr_Authorization :: string
  hr_Auth :: "AuthContext option"
  hr_Body :: "go_error + string"

text \<open>The request is passed on with a context, answered with a status, or the handler panics.\<close>

datatype auth_result = Served "AuthContext option" | Rejected int string | Panicked

definition shouldUpdateLastUsed :: "Middleware \<Rightarrow> go_time option \<Rightarrow> go_time \<Rightarrow> bool" where
  "shouldUpdateLastUsed m lastUsed now =
     (if mw_lastUsedUpdateInterval m \<le> 0 then True
      else case lastUsed of
             None \<Rightarrow> True
           | Some t \<Rightarrow> if t > now then False else now - t \<ge> mw_lastUsedUpdateInterval m)"

definition key_status :: "go_time \<Rightarrow> APIKey \<Rightarrow> string option" where
  "key_status now key =
     (if \<not> ak_IsActive key then Some ''api key is inactive''
      else if ak_IsExpired now key then Some ''api key has expired''
      else if ak_Blocked key then Some ''api key is blocked''
      else None)"

definition key_team :: "'s AuthOps \<Rightarrow> APIKey \<Rightarrow> 's \<Rightarrow> auth_result + Team option" where
  "key_team ops key s =
     (case ak_TeamID key of
        None \<Rightarrow> Inr None
      | Some teamID \<Rightarrow>
          (case ao_GetTeam ops teamID s of
             Inl _ \<Rightarrow> Inl (Rejected 500 ''internal error'')
           | Inr None \<Rightarrow> Inl (Rejected 401 ''invalid team'')
           | Inr (Some team) \<Rightarrow>
               if tm_IsBlocked team then Inl (Rejected 401 ''team is blocked'') else Inr (Some team)))"

definition route_policy ::
  "'e Enforcer \<Rightarrow> APIKey \<Rightarrow> HttpRequest \<Rightarrow> 'e option \<Rightarrow> auth_result option \<times> 'e option" where
  "route_policy en key r enforcer =
     (case enforcer of
        Some e \<Rightarrow>
          (let sub = KeySub (ak_ID key);
               e1 = AddRoleForUser en sub (RoleSub (ak_KeyType key)) e
           in (case en_Enforce en sub (PathObj (hr_Path r)) (ActionMethod (hr_Method r)) e1 of
                 Inl _ \<Rightarrow> Some (Rejected 500 ''internal error'')
               | Inr allowed \<Rightarrow> if \<not> allowed then Some (Rejected 403 ''access denied by policy'') else None,
               Some e1))
      | None \<Rightarrow>
          (if ak_KeyType key = KeyTypeReadOnly
           then if hr_Method r \<noteq> ''GET'' \<and> hr_Method r \<noteq> ''HEAD'' then Some (Rejected 403 ''read-only key'')
                else if hr_Path r \<noteq> ''/v1/models'' then Some (Rejected 403 ''read-only key'') else None
           else None,
           None))"

definition key_context :: "APIKey \<Rightarrow> Team option \<Rightarrow> AuthContext" where
  "key_context key team =
     \<lparr>ac_APIKey = Some key, ac_Team = team, ac_User = None, ac_RequestID = [], ac_UserRole = [],
      ac_EndUserID = [], ac_SSOUserID = [], ac_JWTTeamIDs = [], ac_JWTOrgID = []\<rparr>"

definition Authenticate ::
  "'s AuthOps \<Rightarrow> 'e Enforcer \<Rightarrow> (string \<Rightarrow> string) \<Rightarrow> go_time \<Rightarrow> go_time \<Rightarrow> Middleware \<Rightarrow> HttpRequest \<Rightarrow>
   's \<Rightarrow> 'e option \<Rightarrow> auth_result \<times> 's \<times> 'e option" where
  "Authenticate ops en sha256 t now m r s enforcer =
     (if \<not> mw_enabled m then (Served (hr_Auth r), s, enforcer)
      else if mw_skipPaths m (hr_Path r) then (Served (hr_Auth r), s, enforcer)
      else if hr_Auth r \<noteq> None then (Served (hr_Auth r), s, enforcer)
      else case ParseAuthHeader (hr_Authorization r) of
        Inl _ \<Rightarrow> (Rejected 401 ''missing or invalid authorization header'', s, enforcer)
      | Inr apiKey \<Rightarrow>
          (case ao_GetAPIKeyByHash ops (HashKey sha256 apiKey) s of
             Inl _ \<Rightarrow> (Rejected 500 ''internal error'', s, enforcer)
           | Inr None \<Rightarrow> (Rejected 401 ''invalid api key'', s, enforcer)
           | Inr (Some key) \<Rightarrow>
               (case key_status t key of
                  Some msg \<Rightarrow> (Rejected 401 msg, s, enforcer)
                | None \<Rightarrow>
                    (case key_team ops key s of
                       Inl rejected \<Rightarrow> (rejected, s, enforcer)
                     | Inr team \<Rightarrow>
                         (case route_policy en key r enforcer of
                            (Some rejected, enforcer1) \<Rightarrow> (rejected, s, enforcer1)
                          | (None, enforcer1) \<Rightarrow>
                              (Served (Some (key_context key team)),
                               (if shouldUpdateLastUsed m (ak_LastUsedAt key) now
                                then snd (ao_UpdateAPIKeyLastUsed ops (ak_ID key) now s) else s),
                               enforcer1))))))"

definition maxModelAccessBodyBytes :: int where
  "maxModelAccessBodyBytes = 10 * 1024 * 1024"

definition isModelAccessRequest :: "HttpRequest \<Rightarrow> bool" where
  "isModelAccessRequest r \<longleftrightarrow>
     hr_Method r = ''POST'' \<and>
     hr_Path r \<in> {''/v1/chat/completions'', ''/v1/completions'', ''/v1/embeddings'', ''/embeddings''}"

text \<open>
  \<open>parse\<close> is the JSON decoding of the field \<open>model\<close>. With an enforcer the key of the context is
  dereferenced, which panics for a context without one.
\<close>

definition ModelAccessMiddleware ::
  "'s AuthOps \<Rightarrow> 'e Enforcer \<Rightarrow> (string \<Rightarrow> go_error + string) \<Rightarrow> Middleware \<Rightarrow> HttpRequest \<Rightarrow>
   's option \<Rightarrow> 'e option \<Rightarrow> auth_result \<times> 'e option" where
  "ModelAccessMiddleware ops en parse m r store enforcer =
     (if \<not> mw_enabled m then (Served (hr_Auth r), enforcer)
      else if mw_skipPaths m (hr_Path r) then (Served (hr_Auth r), enforcer)
      else if \<not> isModelAccessRequest r then (Served (hr_Auth r), enforcer)
      else case hr_Auth r of
        None \<Rightarrow> (Rejected 401 ''authentication required'', enforcer)
      | Some authCtx \<Rightarrow>
          (case hr_Body r of
             Inl _ \<Rightarrow> (Served (hr_Auth r), enforcer)
           | Inr body \<Rightarrow>
               if int (length body) > maxModelAccessBodyBytes
               then (Rejected 413 ''request body too large'', enforcer)
               else case parse body of
                 Inl _ \<Rightarrow> (Served (hr_Auth r), enforcer)
               | Inr model \<Rightarrow>
                   if model = [] then (Served (hr_Auth r), enforcer)
                   else case enforcer of
                     Some e \<Rightarrow>
                       (case ac_APIKey authCtx of
                          None \<Rightarrow> (Panicked, enforcer)
                        | Some key \<Rightarrow>
                            (let e1 = sync_policies en key (ac_Team authCtx) (ac_User authCtx) e
                             in (case en_Enforce en (KeySub (ak_ID key)) (ModelObj model) ActionUse e1 of
                                   Inl _ \<Rightarrow> Rejected 500 ''internal error''
                                 | Inr allowed \<Rightarrow>
                                     if \<not> allowed then Rejected 403 ''model access denied'' else Served (hr_Auth r),
                                 Some e1)))
                   | None \<Rightarrow>
                       (case NewModelAccess ops store (hr_Auth r) of
                          Inl _ \<Rightarrow> Rejected 500 ''internal error''
                        | Inr access \<Rightarrow>
                            if \<not> ma_Allows access model then Rejected 403 ''model access denied''
                            else Served (hr_Auth r),
                        enforcer)))"

end
