(* ===== verification/Auth_Properties.thy ===== *)
theory Auth_Properties
  imports Auth_Access
begin

text \<open>
  What authentication guarantees: which requests pass, that a revoked key stays rejected, which
  models a context may use, and that policies handed to the enforcer outlive a restriction.
\<close>

section \<open>Authentication\<close>

lemma memory_auth_simps [simp]:
  "ao_GetAPIKeyByHash memory_auth_ops h s = Inr (GetAPIKeyByHash h s)"
  "ao_GetAPIKeyByID memory_auth_ops i s = Inr (GetAPIKeyByID i s)"
  "ao_UpdateAPIKey memory_auth_ops k s = (None, UpdateAPIKey k s)"
  "ao_UpdateAPIKeyLastUsed memory_auth_ops i t s = (None, UpdateAPIKeyLastUsed i t s)"
  "ao_UpdateAPIKeySpent memory_auth_ops i x s = (None, UpdateAPIKeySpent i x s)"
  "ao_UpdateAPIKeyModelSpent memory_auth_ops i md x s = (None, UpdateAPIKeyModelSpent i md x s)"
  "ao_GetTeam memory_auth_ops i s = Inr (GetTeam i s)"
  "ao_UpdateTeamSpent memory_auth_ops i x s = (None, UpdateTeamSpent i x s)"
  "ao_UpdateTeamModelSpent memory_auth_ops i md x s = (None, UpdateTeamModelSpent i md x s)"
  "ao_GetUser memory_auth_ops i s = Inr (GetUser i s)"
  "ao_UpdateUserSpent memory_auth_ops i x s = (None, UpdateUserSpent i x s)"
  "ao_GetOrganization memory_auth_ops i s = Inr (GetOrganization i s)"
  "ao_UpdateOrganizationSpent memory_auth_ops i x s = (None, UpdateOrganizationSpent i x s)"
  "ao_UpdateTeamMembershipSpent memory_auth_ops i j x s = (None, UpdateTeamMembershipSpent i j x s)"
  "ao_UpdateOrganizationMembershipSpent memory_auth_ops i j x s = (None, UpdateOrganizationMembershipSpent i j x s)"
  "ao_GetEndUser memory_auth_ops i s = Inr (GetEndUser i s)"
  "ao_UpdateEndUserSpent memory_auth_ops i x s = (None, UpdateEndUserSpent i x s)"
  "ao_LogUsage memory_auth_ops l s = (None, LogUsage l s)"
  by (simp_all add: memory_auth_ops_def)

text \<open>A request that has to be authenticated by a key.\<close>

definition needs_key :: "Middleware \<Rightarrow> HttpRequest \<Rightarrow> bool" where
  "needs_key m r \<longleftrightarrow> mw_enabled m \<and> \<not> mw_skipPaths m (hr_Path r) \<and> hr_Auth r = None"

definition usable_key :: "go_time \<Rightarrow> APIKey \<Rightarrow> bool" where
  "usable_key now k \<longleftrightarrow> ak_IsActive k \<and> \<not> ak_IsExpired now k \<and> \<not> ak_Blocked k"

lemma key_status_None: "key_status now k = None \<longleftrightarrow> usable_key now k"
  by (simp add: key_status_def usable_key_def)

lemma key_team_Inr:
  "key_team memory_auth_ops k s = Inr team \<longleftrightarrow>
     (case ak_TeamID k of
        None \<Rightarrow> team = None
      | Some i \<Rightarrow> (\<exists>t. GetTeam i s = Some t \<and> \<not> tm_IsBlocked t \<and> team = Some t))"
  by (auto simp: key_team_def split: option.splits)

definition read_only_allows :: "APIKey \<Rightarrow> HttpRequest \<Rightarrow> bool" where
  "read_only_allows k r \<longleftrightarrow>
     (ak_KeyType k = KeyTypeReadOnly \<longrightarrow> hr_Method r \<in> {''GET'', ''HEAD''} \<and> hr_Path r = ''/v1/models'')"

lemma route_policy_None: "fst (route_policy en k r None) = None \<longleftrightarrow> read_only_allows k r"
  by (auto simp: route_policy_def read_only_allows_def)

text \<open>
  \<^bold>\<open>C14\<close>. With the in-memory store and no policy enforcer, a request that needs a key is passed on
  exactly if its header carries the secret of a stored key that is active, not expired and not
  blocked, whose team, if it has one, exists and is not blocked, and whose type allows the
  route; the context it is passed on with is that key and that team.
\<close>

theorem authenticate_accepts_iff:
  assumes "needs_key m r"
  shows "fst (Authenticate memory_auth_ops en sha256 t now m r s None) = Served ctx \<longleftrightarrow>
    (\<exists>secret k team. ParseAuthHeader (hr_Authorization r) = Inr secret \<and>
       GetAPIKeyByHash (HashKey sha256 secret) s = Some k \<and> usable_key t k \<and>
       (case ak_TeamID k of
          None \<Rightarrow> team = None
        | Some i \<Rightarrow> (\<exists>x. GetTeam i s = Some x \<and> \<not> tm_IsBlocked x \<and> team = Some x)) \<and>
       read_only_allows k r \<and> ctx = Some (key_context k team))"
proof (cases "ParseAuthHeader (hr_Authorization r)")
  case (Inl e)
  then show ?thesis using assms by (simp add: Authenticate_def needs_key_def)
next
  case (Inr secret)
  show ?thesis
  proof (cases "GetAPIKeyByHash (HashKey sha256 secret) s")
    case None
    then show ?thesis using assms Inr by (simp add: Authenticate_def needs_key_def)
  next
    case (Some k)
    have not_served: "key_team memory_auth_ops k s = Inl x \<Longrightarrow> x \<noteq> Served ctx" for x
      by (auto simp: key_team_def split: option.splits if_splits)
    have not_served': "route_policy en k r None = (Some x, e) \<Longrightarrow> x \<noteq> Served ctx" for x e
      by (auto simp: route_policy_def split: if_splits)
    have "fst (Authenticate memory_auth_ops en sha256 t now m r s None) = Served ctx \<longleftrightarrow>
        key_status t k = None \<and> (\<exists>team. key_team memory_auth_ops k s = Inr team \<and>
          fst (route_policy en k r None) = None \<and> ctx = Some (key_context k team))"
      using assms Inr Some not_served not_served'
      by (auto simp: Authenticate_def needs_key_def split: option.split sum.split prod.split)
    then show ?thesis using Inr Some unfolding key_status_None key_team_Inr route_policy_None by auto
  qed
qed

definition bearer_request :: "string \<Rightarrow> HttpRequest" where
  "bearer_request secret =
     \<lparr>hr_Method = ''POST'', hr_Path = ''/v1/chat/completions'', hr_Authorization = ''Bearer '' @ secret,
      hr_Auth = None, hr_Body = Inr []\<rparr>"

definition strict_middleware :: Middleware where
  "strict_middleware = \<lparr>mw_skipPaths = (\<lambda>_. False), mw_enabled = True, mw_lastUsedUpdateInterval = 0\<rparr>"

text \<open>An enforcer that allows everything, for requests that do not reach one.\<close>

definition open_enforcer :: "unit Enforcer" where
  "open_enforcer =
     \<lparr>en_AddGroupingPolicy = (\<lambda>_ _ e. e), en_AddPolicy = (\<lambda>_ _ _ e. e), en_Enforce = (\<lambda>_ _ _ _. Inr True)\<rparr>"

lemma bearer_request_parse: "ParseAuthHeader (hr_Authorization (bearer_request ''sk'')) = Inr ''sk''"
  using TrimSpace_printable [of "''sk''"] by (simp add: ParseAuthHeader_def bearer_request_def Let_def)

theorem authenticate_accepts_iff_witness:
  "fst (Authenticate memory_auth_ops open_enforcer (\<lambda>_. []) 5 6 strict_middleware (bearer_request ''sk'')
     (CreateAPIKey (demo_key ''a'' []) NewMemoryStore) None) = Served (Some (key_context (demo_key ''a'' []) None))"
proof -
  have "needs_key strict_middleware (bearer_request ''sk'')"
    by (simp add: needs_key_def strict_middleware_def bearer_request_def)
  from authenticate_accepts_iff [OF this, of open_enforcer "\<lambda>_. []" 5 6 "CreateAPIKey (demo_key ''a'' []) NewMemoryStore"
      "Some (key_context (demo_key ''a'' []) None)"] show ?thesis
    by (simp add: bearer_request_parse HashKey_def hex_EncodeToString_def GetAPIKeyByHash_def CreateAPIKey_def
        NewMemoryStore_def key_at_def usable_key_def ak_IsExpired_def read_only_allows_def KeyTypeDefault_def
        KeyTypeReadOnly_def Let_def)
qed

section \<open>Revocation\<close>

text \<open>A key that is deleted or blocked, in the specification.\<close>

definition revoked :: "string \<Rightarrow> string \<Rightarrow> (string \<rightharpoonup> APIKey) \<Rightarrow> bool" where
  "revoked i h K \<longleftrightarrow> (\<exists>k. K i = Some k \<and> ak_KeyHash k = h \<and> ak_IsBlocked k)"

text \<open>An update of a key may make it active again, and a block may be lifted.\<close>

definition restores :: "string \<Rightarrow> key_op \<Rightarrow> bool" where
  "restores i x \<longleftrightarrow> (\<exists>k. x = OpUpdate k \<and> ak_ID k = i) \<or> x = OpBlock i False"

lemma revoked_step:
  assumes "revoked i h K" and "legal_op x K" and "\<not> restores i x"
  shows "revoked i h (spec_step x K)"
proof (cases x)
  case (OpCreate k)
  then show ?thesis using assms by (auto simp: revoked_def legal_op_def spec_step_def)
next
  case (OpUpdate k)
  then show ?thesis using assms by (auto simp: revoked_def restores_def spec_step_def modify_at_def split: option.split)
next
  case (OpBlock j b)
  then show ?thesis using assms
    by (cases b) (auto simp: revoked_def restores_def spec_step_def modify_at_def ak_IsBlocked_def split: option.split)
qed (use assms(1) in \<open>auto simp: revoked_def spec_step_def modify_at_def ak_IsBlocked_def split: option.split\<close>)

lemma revoked_steps:
  "revoked i h K \<Longrightarrow> legal_ops xs K \<Longrightarrow> \<forall>x\<in>set xs. \<not> restores i x \<Longrightarrow> revoked i h (fold spec_step xs K)"
  by (induction xs arbitrary: K) (auto simp: revoked_step)

lemma legal_ops_append: "legal_ops (xs @ ys) K \<longleftrightarrow> legal_ops xs K \<and> legal_ops ys (fold spec_step xs K)"
  by (induction xs arbitrary: K) auto

lemma blocked_status: "ak_IsBlocked k \<Longrightarrow> \<exists>msg. key_status t k = Some msg"
  by (auto simp: ak_IsBlocked_def key_status_def)



section \<open>Model access\<close>

text \<open>The scopes that a context brings into the decision, as lists of models.\<close>

definition scopes :: "ModelAccess \<Rightarrow> string list list" where
  "scopes a =
     map ak_AllowedModels (case ma_apiKey a of None \<Rightarrow> [] | Some k \<Rightarrow> [k]) @
     map tm_Models (case ma_team a of None \<Rightarrow> [] | Some t \<Rightarrow> [t]) @
     map usr_Models (case ma_user a of None \<Rightarrow> [] | Some u \<Rightarrow> [u]) @
     map og_Models (case ma_organization a of None \<Rightarrow> [] | Some x \<Rightarrow> [x])"

lemma ma_Allows_iff:
  "ma_Allows (Some a) model \<longleftrightarrow>
     model = [] \<or> (\<forall>ms\<in>set (scopes a). ms = [] \<or> model \<in> set ms \<or> ''*'' \<in> set ms)"
  by (auto simp: ma_Allows_def scopes_def models_allow_iff ak_CanAccessModel_def tm_CanAccessModel_def
      usr_CanAccessModel_def og_CanAccessModel_def split: option.split)



section \<open>Policies of the enforcer\<close>

text \<open>
  What the enforcer documents: the effect of its model is that one allowing policy suffices, so
  that policies and groupings that are added never take a permission away, and a policy for
  \<open>model:*\<close> allows its subject every model.
\<close>

definition only_grants :: "'e Enforcer \<Rightarrow> bool" where
  "only_grants en \<longleftrightarrow>
     (\<forall>e sub obj act. en_Enforce en sub obj act e = Inr True \<longrightarrow>
        (\<forall>sub' obj' act'. en_Enforce en sub obj act (en_AddPolicy en sub' obj' act' e) = Inr True) \<and>
        (\<forall>sub' grp. en_Enforce en sub obj act (en_AddGroupingPolicy en sub' grp e) = Inr True)) \<and>
     (\<forall>e sub model. en_Enforce en sub (ModelObj model) ActionUse
        (en_AddPolicy en sub (ModelObj ''*'') ActionUse e) = Inr True)"

lemma sync_policies_keeps:
  assumes "only_grants en" and "en_Enforce en sub obj act e = Inr True"
  shows "en_Enforce en sub obj act (sync_policies en k team user e) = Inr True"
proof -
  have add: "en_Enforce en sub obj act (en_AddPolicy en s x a e) = Inr True"
    "en_Enforce en sub obj act (en_AddGroupingPolicy en s g e) = Inr True"
    if "en_Enforce en sub obj act e = Inr True" for e s x a g
    using assms(1) that unfolding only_grants_def by blast+
  have "en_Enforce en sub obj act (fold (\<lambda>am. en_AddPolicy en s (ModelObj am) a) ms e) = Inr True"
    if "en_Enforce en sub obj act e = Inr True" for ms e s a
    using that by (induction ms arbitrary: e) (simp_all add: add)
  then show ?thesis
    using add assms(2) by (simp add: sync_policies_def AddRoleForUser_def Let_def split: option.split)
qed


text \<open>An enforcer with these laws: lists of policies and groupings.\<close>

definition list_enforcer :: "((string \<times> string \<times> string) list \<times> (string \<times> string) list) Enforcer" where
  "list_enforcer =
     \<lparr>en_AddGroupingPolicy = (\<lambda>sub grp (ps, gs). (ps, (sub, grp) # gs)),
      en_AddPolicy = (\<lambda>sub obj act (ps, gs). ((sub, obj, act) # ps, gs)),
      en_Enforce = (\<lambda>sub obj act (ps, gs).
        Inr (list_ex (\<lambda>(sub', obj', act').
          (sub = sub' \<or> (sub, sub') \<in> set gs) \<and> (obj' = obj \<or> obj' = ''*'' \<or> obj' = ModelObj ''*'' \<and> prefix ''model:'' obj) \<and>
          (act' = act \<or> act' = ''*'')) ps))\<rparr>"


end
