(* ===== verification/Key_Management.thy ===== *)
theory Key_Management
  imports Auth_Properties
begin

text \<open>
  What happens to keys over time: the regeneration of a key by the management interface
  (\<open>internal/api/management.go\<close>) and the background jobs that reset budgets and rotate keys
  (\<open>internal/auth/jobs.go\<close>). Formatting and parsing of times are parameters.
\<close>

section \<open>Regeneration\<close>

definition rotation_count :: "go_any option \<Rightarrow> int" where
  "rotation_count v =
     (case v of
        Some (AnyInt n) \<Rightarrow> n
      | Some (AnyFloat x) \<Rightarrow> (if x \<ge> 0 then \<lfloor>x\<rfloor> else \<lceil>x\<rceil>)
      | _ \<Rightarrow> 0)"

definition regenerated ::
  "(go_time \<Rightarrow> string) \<Rightarrow> go_time \<Rightarrow> go_time \<Rightarrow> string \<Rightarrow> string \<Rightarrow> APIKey \<Rightarrow> APIKey" where
  "regenerated format now now2 rawKey keyHash oldKey =
     (let key1 = oldKey\<lparr>ak_KeyHash := keyHash, ak_KeyPrefix := ExtractKeyPrefix rawKey, ak_UpdatedAt := now\<rparr>;
          md = (ak_Metadata key1)
                 (''rotation_count'' \<mapsto> AnyInt (rotation_count (ak_Metadata key1 ''rotation_count'') + 1),
                  ''last_rotation_at'' \<mapsto> AnyString (format now));
          md' = (case (md ''auto_rotate'', md ''rotation_interval'') of
                   (Some (AnyBool True), Some (AnyString interval)) \<Rightarrow>
                     (case CalculateRotationTime now2 interval of
                        Some t \<Rightarrow> md(''key_rotation_at'' \<mapsto> AnyString (format t))
                      | None \<Rightarrow> md)
                 | _ \<Rightarrow> md)
      in key1\<lparr>ak_Metadata := md'\<rparr>)"

text \<open>The answer is the status of an error or the new secret.\<close>

definition RegenerateKey ::
  "'s AuthOps \<Rightarrow> (string \<Rightarrow> string) \<Rightarrow> go_error + string \<Rightarrow> (go_time \<Rightarrow> string) \<Rightarrow> go_time \<Rightarrow> go_time \<Rightarrow> string \<Rightarrow> 's \<Rightarrow>
   (int + string) \<times> 's" where
  "RegenerateKey ops sha256 random format now now2 keyID s =
     (case ao_GetAPIKeyByID ops keyID s of
        Inl _ \<Rightarrow> (Inl 404, s)
      | Inr None \<Rightarrow> (Inl 404, s)
      | Inr (Some oldKey) \<Rightarrow>
          (case GenerateAPIKey sha256 random of
             Inl _ \<Rightarrow> (Inl 500, s)
           | Inr (rawKey, keyHash) \<Rightarrow>
               (case ao_UpdateAPIKey ops (regenerated format now now2 rawKey keyHash oldKey) s of
                  (Some _, s') \<Rightarrow> (Inl 500, s')
                | (None, s') \<Rightarrow> (Inr rawKey, s'))))"

section \<open>The jobs\<close>

text \<open>
  The operations of the store that the jobs use. Where an operation reads the clock the time is
  an argument.
\<close>

record 's JobOps =
  jo_KeysDue :: "go_time \<Rightarrow> 's \<Rightarrow> go_error + APIKey list"
  jo_TeamsDue :: "go_time \<Rightarrow> 's \<Rightarrow> go_error + Team list"
  jo_UsersDue :: "go_time \<Rightarrow> 's \<Rightarrow> go_error + User list"
  jo_ResetAPIKeyBudget :: "go_time \<Rightarrow> string \<Rightarrow> 's \<Rightarrow> go_error option \<times> 's"
  jo_ResetTeamBudget :: "go_time \<Rightarrow> string \<Rightarrow> 's \<Rightarrow> go_error option \<times> 's"
  jo_ResetUserBudget :: "go_time \<Rightarrow> string \<Rightarrow> 's \<Rightarrow> go_error option \<times> 's"
  jo_ListAPIKeys :: "APIKeyFilter \<Rightarrow> 's \<Rightarrow> go_error + APIKey list \<times> int"
  jo_DeleteAPIKey :: "string \<Rightarrow> 's \<Rightarrow> go_error option \<times> 's"
  jo_CreateAPIKey :: "APIKey \<Rightarrow> 's \<Rightarrow> go_error option \<times> 's"

text \<open>The in-memory store, with the orders in which its maps are traversed.\<close>

definition memory_job_ops :: "string list \<Rightarrow> string list \<Rightarrow> string list \<Rightarrow> MemoryStore JobOps" where
  "memory_job_ops keys teams users =
     \<lparr>jo_KeysDue = (\<lambda>t s. Inr (GetKeysNeedingBudgetReset keys t s)),
      jo_TeamsDue = (\<lambda>t s. Inr (GetTeamsNeedingBudgetReset teams t s)),
      jo_UsersDue = (\<lambda>t s. Inr (GetUsersNeedingBudgetReset users t s)),
      jo_ResetAPIKeyBudget = (\<lambda>t i s. (None, ResetAPIKeyBudget t i s)),
      jo_ResetTeamBudget = (\<lambda>t i s. (None, ResetTeamBudget t i s)),
      jo_ResetUserBudget = (\<lambda>t i s. (None, ResetUserBudget t i s)),
      jo_ListAPIKeys = (\<lambda>f s. case ListAPIKeys keys f s of
                                Some r \<Rightarrow> Inr r | None \<Rightarrow> Inl (PlainErr ''slice bounds out of range'')),
      jo_DeleteAPIKey = (\<lambda>i s. (None, DeleteAPIKey i s)),
      jo_CreateAPIKey = (\<lambda>k s. (None, CreateAPIKey k s))\<rparr>"

text \<open>
  One loop over the due entities; \<open>clock j\<close> is the time of the \<open>j\<close>-th reset. An error of a reset
  is logged and the loop goes on.
\<close>

definition reset_all ::
  "(go_time \<Rightarrow> string \<Rightarrow> 's \<Rightarrow> go_error option \<times> 's) \<Rightarrow> (nat \<Rightarrow> go_time) \<Rightarrow> string list \<Rightarrow> 's \<Rightarrow> 's" where
  "reset_all reset clock ids s = fold (\<lambda>(j, i) s. snd (reset (clock j) i s)) (enumerate 0 ids) s"

definition resetKeyBudgets :: "'s JobOps \<Rightarrow> go_time \<Rightarrow> (nat \<Rightarrow> go_time) \<Rightarrow> 's \<Rightarrow> go_error option \<times> 's" where
  "resetKeyBudgets ops now clock s =
     (case jo_KeysDue ops now s of
        Inl err \<Rightarrow> (Some err, s)
      | Inr keys \<Rightarrow> (None, reset_all (jo_ResetAPIKeyBudget ops) clock (map ak_ID keys) s))"

definition resetTeamBudgets :: "'s JobOps \<Rightarrow> go_time \<Rightarrow> (nat \<Rightarrow> go_time) \<Rightarrow> 's \<Rightarrow> go_error option \<times> 's" where
  "resetTeamBudgets ops now clock s =
     (case jo_TeamsDue ops now s of
        Inl err \<Rightarrow> (Some err, s)
      | Inr teams \<Rightarrow> (None, reset_all (jo_ResetTeamBudget ops) clock (map tm_ID teams) s))"

definition resetUserBudgets :: "'s JobOps \<Rightarrow> go_time \<Rightarrow> (nat \<Rightarrow> go_time) \<Rightarrow> 's \<Rightarrow> go_error option \<times> 's" where
  "resetUserBudgets ops now clock s =
     (case jo_UsersDue ops now s of
        Inl err \<Rightarrow> (Some err, s)
      | Inr users \<Rightarrow> (None, reset_all (jo_ResetUserBudget ops) clock (map usr_ID users) s))"

definition resetBudgets ::
  "'s JobOps \<Rightarrow> (nat \<Rightarrow> go_time \<times> (nat \<Rightarrow> go_time)) \<Rightarrow> 's \<Rightarrow> 's" where
  "resetBudgets ops times' s =
     (let s1 = snd (resetKeyBudgets ops (fst (times' 0)) (snd (times' 0)) s);
          s2 = snd (resetTeamBudgets ops (fst (times' 1)) (snd (times' 1)) s1)
      in snd (resetUserBudgets ops (fst (times' 2)) (snd (times' 2)) s2))"

definition needs_rotation :: "(string \<Rightarrow> go_time option) \<Rightarrow> go_time \<Rightarrow> APIKey \<Rightarrow> bool" where
  "needs_rotation parse now key =
     (case ak_Metadata key ''auto_rotate'' of
        Some (AnyBool True) \<Rightarrow>
          (case ak_Metadata key ''key_rotation_at'' of
             Some (AnyString rotationAtStr) \<Rightarrow>
               (case parse rotationAtStr of None \<Rightarrow> False | Some rotationAt \<Rightarrow> now > rotationAt)
           | _ \<Rightarrow> True)
      | _ \<Rightarrow> False)"

definition findKeysNeedingRotation ::
  "'s JobOps \<Rightarrow> (string \<Rightarrow> go_time option) \<Rightarrow> go_time \<Rightarrow> 's \<Rightarrow> go_error + APIKey list" where
  "findKeysNeedingRotation ops parse now s =
     (case jo_ListAPIKeys ops
        \<lparr>kf_TeamID = None, kf_UserID = None, kf_OrganizationID = None, kf_KeyType = None, kf_IsActive = Some True,
         kf_Blocked = None, kf_Limit = 1000, kf_Offset = 0\<rparr> s of
        Inl err \<Rightarrow> Inl err
      | Inr (keys, _) \<Rightarrow> Inr (filter (needs_rotation parse now) keys))"

text \<open>The new key; its secret is not part of the result.\<close>

definition rotated :: "(go_time \<Rightarrow> string) \<Rightarrow> go_time \<Rightarrow> go_time \<Rightarrow> string \<Rightarrow> string \<Rightarrow> string \<Rightarrow> APIKey \<Rightarrow> APIKey" where
  "rotated format now now2 newID fullKey keyHash oldKey =
     (let md = (ak_Metadata oldKey)
                 (''rotation_count'' \<mapsto> AnyInt
                    ((case ak_Metadata oldKey ''rotation_count'' of
                        Some (AnyFloat x) \<Rightarrow> (if x \<ge> 0 then \<lfloor>x\<rfloor> else \<lceil>x\<rceil>) | _ \<Rightarrow> 0) + 1),
                  ''last_rotation_at'' \<mapsto> AnyString (format now));
          md' = (case ak_Metadata oldKey ''rotation_interval'' of
                   Some (AnyString interval) \<Rightarrow>
                     (case CalculateRotationTime now2 interval of
                        Some t \<Rightarrow> md(''key_rotation_at'' \<mapsto> AnyString (format t))
                      | None \<Rightarrow> md)
                 | _ \<Rightarrow> md)
      in \<lparr>ak_ID = newID, ak_KeyHash = keyHash, ak_KeyPrefix = ExtractKeyPrefix fullKey, ak_Name = ak_Name oldKey,
          ak_KeyAlias = ak_KeyAlias oldKey, ak_TeamID = ak_TeamID oldKey, ak_UserID = ak_UserID oldKey,
          ak_OrganizationID = ak_OrganizationID oldKey, ak_AllowedModels = ak_AllowedModels oldKey,
          ak_KeyType = ak_KeyType oldKey, ak_TPMLimit = ak_TPMLimit oldKey, ak_RPMLimit = ak_RPMLimit oldKey,
          ak_MaxParallelRequests = ak_MaxParallelRequests oldKey, ak_ModelTPMLimit = ak_ModelTPMLimit oldKey,
          ak_ModelRPMLimit = ak_ModelRPMLimit oldKey, ak_MaxBudget = ak_MaxBudget oldKey,
          ak_SoftBudget = ak_SoftBudget oldKey, ak_SpentBudget = 0, ak_ModelMaxBudget = ak_ModelMaxBudget oldKey,
          ak_ModelSpend = Map.empty, ak_BudgetDuration = ak_BudgetDuration oldKey,
          ak_BudgetResetAt = ak_BudgetResetAt oldKey, ak_Metadata = md', ak_IsActive = True, ak_Blocked = False,
          ak_CreatedAt = now, ak_UpdatedAt = now, ak_ExpiresAt = None, ak_LastUsedAt = None\<rparr>)"

definition rotateKey ::
  "'s JobOps \<Rightarrow> (string \<Rightarrow> string) \<Rightarrow> go_error + string \<Rightarrow> string \<Rightarrow> (go_time \<Rightarrow> string) \<Rightarrow> go_time \<Rightarrow> go_time \<Rightarrow>
   APIKey \<Rightarrow> 's \<Rightarrow> go_error option \<times> 's" where
  "rotateKey ops sha256 random newID format now now2 oldKey s =
     (case GenerateAPIKey sha256 random of
        Inl err \<Rightarrow> (Some err, s)
      | Inr (fullKey, keyHash) \<Rightarrow>
          (case jo_DeleteAPIKey ops (ak_ID oldKey) s of
             (Some err, s1) \<Rightarrow> (Some err, s1)
           | (None, s1) \<Rightarrow> jo_CreateAPIKey ops (rotated format now now2 newID fullKey keyHash oldKey) s1))"

text \<open>
  The rotation of all keys that need it; \<open>draws j\<close> are the random bytes, the new id and the times
  of the \<open>j\<close>-th rotation.
\<close>

definition rotateKeys ::
  "'s JobOps \<Rightarrow> (string \<Rightarrow> string) \<Rightarrow> (string \<Rightarrow> go_time option) \<Rightarrow> (go_time \<Rightarrow> string) \<Rightarrow>
   (nat \<Rightarrow> (go_error + string) \<times> string \<times> go_time \<times> go_time) \<Rightarrow> go_time \<Rightarrow> 's \<Rightarrow> go_error option \<times> 's" where
  "rotateKeys ops sha256 parse format draws now s =
     (case findKeysNeedingRotation ops parse now s of
        Inl err \<Rightarrow> (Some err, s)
      | Inr keys \<Rightarrow>
          (None, fold (\<lambda>(j, key) s.
             case draws j of (random, newID, t, t2) \<Rightarrow> snd (rotateKey ops sha256 random newID format t t2 key s))
             (enumerate 0 keys) s))"

definition runJobs ::
  "'s JobOps \<Rightarrow> (string \<Rightarrow> string) \<Rightarrow> (string \<Rightarrow> go_time option) \<Rightarrow> (go_time \<Rightarrow> string) \<Rightarrow>
   (nat \<Rightarrow> (go_error + string) \<times> string \<times> go_time \<times> go_time) \<Rightarrow> (nat \<Rightarrow> go_time \<times> (nat \<Rightarrow> go_time)) \<Rightarrow> go_time \<Rightarrow> 's \<Rightarrow> 's" where
  "runJobs ops sha256 parse format draws times' now s =
     snd (rotateKeys ops sha256 parse format draws now (resetBudgets ops times' s))"

section \<open>A regenerated key\<close>

lemma regenerated_keeps [simp]:
  "ak_ID (regenerated format now now2 raw h k) = ak_ID k" "ak_IsActive (regenerated format now now2 raw h k) = ak_IsActive k"
  "ak_Blocked (regenerated format now now2 raw h k) = ak_Blocked k"
  "ak_ExpiresAt (regenerated format now now2 raw h k) = ak_ExpiresAt k"
  "ak_TeamID (regenerated format now now2 raw h k) = ak_TeamID k"
  "ak_KeyType (regenerated format now now2 raw h k) = ak_KeyType k"
  "ak_KeyHash (regenerated format now now2 raw h k) = h"
  by (simp_all add: regenerated_def Let_def)

lemma UpdateAPIKey_lookup:
  assumes "key_wf s" and "GetAPIKeyByID (ak_ID k') s = Some k"
  shows "GetAPIKeyByHash h (UpdateAPIKey k' s) = (if h = ak_KeyHash k then Some k' else GetAPIKeyByHash h s)"
    and "GetTeam i (UpdateAPIKey k' s) = GetTeam i s"
proof -
  obtain e where e: "apiKeysByID s (ak_ID k') = Some e" "key_at s e = k"
    using assms(2) by (auto simp: GetAPIKeyByID_def)
  show "GetTeam i (UpdateAPIKey k' s) = GetTeam i s" by (simp add: UpdateAPIKey_def e GetTeam_def Let_def)
  show "GetAPIKeyByHash h (UpdateAPIKey k' s) = (if h = ak_KeyHash k then Some k' else GetAPIKeyByHash h s)"
  proof (cases "apiKeys s h")
    case None
    then show ?thesis by (simp add: UpdateAPIKey_def GetAPIKeyByHash_def e [unfolded key_at_def] key_at_def Let_def)
  next
    case (Some a)
    then have "a < length (st_heap s)" using key_wf_hash [OF assms(1) Some] by simp
    then show ?thesis using Some by (simp add: UpdateAPIKey_def GetAPIKeyByHash_def e [unfolded key_at_def] key_at_def nth_append Let_def)
  qed
qed

text \<open>Without an enforcer, authentication depends on what is found under the hash.\<close>

lemma Authenticate_served:
  assumes "needs_key m r" and "ParseAuthHeader (hr_Authorization r) = Inr secret"
    and "GetAPIKeyByHash (HashKey sha256 secret) s = Some k"
  shows "(\<exists>ctx. fst (Authenticate memory_auth_ops en sha256 t now m r s None) = Served ctx) \<longleftrightarrow>
    usable_key t k \<and> (\<forall>i. ak_TeamID k = Some i \<longrightarrow> (\<exists>x. GetTeam i s = Some x \<and> \<not> tm_IsBlocked x)) \<and> read_only_allows k r"
  using assms
  by (auto simp: Authenticate_def needs_key_def key_status_def usable_key_def key_team_def route_policy_def
      read_only_allows_def split: option.splits)

text \<open>
  \<^bold>\<open>C27\<close>. Regenerating a key does not replace its secret: with the in-memory store, after a
  regeneration that reports success the old secret is accepted whenever it was accepted before,
  and the new secret is rejected as unknown.
\<close>

theorem regenerate_keeps_old_secret:
  assumes "key_wf s" and "GetAPIKeyByID keyID s = Some k" and "HashKey sha256 secret = ak_KeyHash k"
    and "RegenerateKey memory_auth_ops sha256 random format t1 t2 keyID s = (Inr newSecret, s')"
    and "GetAPIKeyByHash (HashKey sha256 newSecret) s = None"
    and "needs_key m r" and "ParseAuthHeader (hr_Authorization r) = Inr secret"
    and "needs_key m r'" and "ParseAuthHeader (hr_Authorization r') = Inr newSecret"
  shows "(\<exists>ctx. fst (Authenticate memory_auth_ops en sha256 t now m r s' None) = Served ctx) =
      (\<exists>ctx. fst (Authenticate memory_auth_ops en sha256 t now m r s None) = Served ctx) \<and>
    fst (Authenticate memory_auth_ops en sha256 t now m r' s' None) = Rejected 401 ''invalid api key''"
proof -
  from assms(2,4) obtain h where gen: "GenerateAPIKey sha256 random = Inr (newSecret, h)"
    and s': "s' = UpdateAPIKey (regenerated format t1 t2 newSecret h k) s"
    by (auto simp: RegenerateKey_def split: sum.splits)
  let ?k = "regenerated format t1 t2 newSecret h k"
  have "ak_ID k = keyID" using assms(1,2) key_wf_id [OF assms(1)] by (auto simp: GetAPIKeyByID_def)
  then have "GetAPIKeyByID (ak_ID ?k) s = Some k" using assms(2) by simp
  note look = UpdateAPIKey_lookup [OF assms(1) this]
  have old: "GetAPIKeyByHash (HashKey sha256 secret) s = Some k"
    using assms(1-3) \<open>ak_ID k = keyID\<close> unfolding GetAPIKeyByHash_iff [OF assms(1)] by simp
  have old': "GetAPIKeyByHash (HashKey sha256 secret) s' = Some ?k" using look(1) assms(3) by (simp add: s')
  have "HashKey sha256 newSecret \<noteq> ak_KeyHash k" using old assms(3,5) by auto
  then have "GetAPIKeyByHash (HashKey sha256 newSecret) s' = None" using look(1) assms(5) by (simp add: s')
  then have "fst (Authenticate memory_auth_ops en sha256 t now m r' s' None) = Rejected 401 ''invalid api key''"
    using assms(8,9) by (simp add: Authenticate_def needs_key_def)
  moreover have "usable_key t ?k = usable_key t k" "read_only_allows ?k r = read_only_allows k r"
    by (simp_all add: usable_key_def ak_IsExpired_def read_only_allows_def)
  moreover have "GetTeam i s' = GetTeam i s" for i using look(2) by (simp add: s')
  ultimately show ?thesis
    unfolding Authenticate_served [OF assms(6,7) old] Authenticate_served [OF assms(6,7) old'] by simp
qed

theorem regenerate_keeps_old_secret_witness:
  "\<exists>ctx. fst (Authenticate memory_auth_ops open_enforcer id 5 6 strict_middleware (bearer_request ''sk'')
     (snd (RegenerateKey memory_auth_ops id (Inr [CHR 0x01, CHR 0x02, CHR 0x03]) (\<lambda>_. []) 7 8 ''a''
       (CreateAPIKey (demo_key ''a'' (HashKey id ''sk'')) NewMemoryStore))) None) = Served ctx"
proof -
  let ?s = "CreateAPIKey (demo_key ''a'' (HashKey id ''sk'')) NewMemoryStore" and ?r = "bearer_request ''sk''"
  let ?r' = "(bearer_request [])\<lparr>hr_Authorization := ''Bearer llmux_AQID''\<rparr>"
  have wf: "key_wf ?s" by (rule CreateAPIKey_put) (simp_all, simp add: NewMemoryStore_def)
  have k: "GetAPIKeyByID ''a'' ?s = Some (demo_key ''a'' (HashKey id ''sk''))"
    by (simp add: GetAPIKeyByID_def CreateAPIKey_def NewMemoryStore_def key_at_def Let_def)
  have need: "needs_key strict_middleware ?r" "needs_key strict_middleware ?r'"
    by (simp_all add: needs_key_def strict_middleware_def bearer_request_def)
  have h: "HashKey id ''llmux_AQID'' \<noteq> HashKey id ''sk''"
    by (simp add: HashKey_def hex_EncodeToString_def hex_digits_def)
  have "RegenerateKey memory_auth_ops id (Inr [CHR 0x01, CHR 0x02, CHR 0x03]) (\<lambda>_. []) 7 8 ''a'' ?s =
      (Inr ''llmux_AQID'', snd (RegenerateKey memory_auth_ops id (Inr [CHR 0x01, CHR 0x02, CHR 0x03]) (\<lambda>_. []) 7 8 ''a'' ?s))"
    by (simp add: RegenerateKey_def k GenerateAPIKey_def DefaultKeyPrefix_def base64_EncodeToString_def
        base64_alphabet_def Let_def)
  moreover have "GetAPIKeyByHash (HashKey id ''llmux_AQID'') ?s = None"
    using h by (simp add: GetAPIKeyByHash_def CreateAPIKey_def NewMemoryStore_def Let_def)
  moreover have "ParseAuthHeader (hr_Authorization ?r') = Inr ''llmux_AQID''"
    using TrimSpace_printable [of "''llmux_AQID''"] by (simp add: ParseAuthHeader_def Let_def)
  moreover have "\<exists>ctx. fst (Authenticate memory_auth_ops open_enforcer id 5 6 strict_middleware ?r ?s None) = Served ctx"
    using Authenticate_served [OF need(1) bearer_request_parse, of id ?s "demo_key ''a'' (HashKey id ''sk'')"]
    by (simp add: GetAPIKeyByHash_def CreateAPIKey_def NewMemoryStore_def key_at_def usable_key_def ak_IsExpired_def
        read_only_allows_def KeyTypeDefault_def KeyTypeReadOnly_def Let_def)
  ultimately show ?thesis
    using regenerate_keeps_old_secret [OF wf k _ _ _ need(1) bearer_request_parse need(2), of id _ _ 7 8 "''llmux_AQID''"]
    by simp blast
qed

section \<open>The reset of budgets\<close>

definition reset_key :: "go_time \<Rightarrow> APIKey \<Rightarrow> APIKey" where
  "reset_key t k =
     k\<lparr>ak_SpentBudget := 0, ak_ModelSpend := Map.empty, ak_BudgetResetAt := NextResetTime t (ak_BudgetDuration k)\<rparr>"

lemma ResetAPIKeyBudget_modify: "ResetAPIKeyBudget t i s = key_modify i (reset_key t) s"
  by (simp add: ResetAPIKeyBudget_def reset_key_def [abs_def])

lemma reset_key_index [simp]: "keeps_index (reset_key t)"
  by (simp add: keeps_index_def reset_key_def)

lemma reset_fold:
  assumes "key_wf s" and "distinct ids"
  shows "let s' = fold (\<lambda>(j, i) s. ResetAPIKeyBudget (clock j) i s) (enumerate n ids) s
    in (\<forall>i. i \<notin> set ids \<longrightarrow> GetAPIKeyByID i s' = GetAPIKeyByID i s) \<and>
       (\<forall>i\<in>set ids. \<exists>j. GetAPIKeyByID i s' = map_option (reset_key (clock j)) (GetAPIKeyByID i s))"
  using assms
proof (induction ids arbitrary: s n)
  case (Cons x xs)
  let ?s1 = "ResetAPIKeyBudget (clock n) x s"
  have wf: "key_wf ?s1" using key_modify_wf [OF Cons.prems(1)] by (simp add: ResetAPIKeyBudget_modify)
  have get: "GetAPIKeyByID i ?s1 = (if i = x then map_option (reset_key (clock n)) (GetAPIKeyByID i s) else GetAPIKeyByID i s)"
    for i using GetAPIKeyByID_modify [OF Cons.prems(1)] by (simp add: ResetAPIKeyBudget_modify)
  have "i \<noteq> x" if "i \<in> set xs" for i using that Cons.prems(2) by auto
  then show ?case using Cons.IH [OF wf, of "Suc n"] Cons.prems(2) unfolding Let_def get by auto
qed (simp add: Let_def)

text \<open>The keys found by going over all hashes are all keys, each once.\<close>

lemma keys_in_order:
  assumes "key_wf s" and "set order = dom (apiKeys s)" and "distinct order"
  shows "k \<in> set (List.map_filter (\<lambda>h. GetAPIKeyByHash h s) order) \<longleftrightarrow> GetAPIKeyByID (ak_ID k) s = Some k"
    and "distinct (map ak_ID (List.map_filter (\<lambda>h. GetAPIKeyByHash h s) order))"
proof -
  have "k \<in> set (List.map_filter (\<lambda>h. GetAPIKeyByHash h s) order) \<longleftrightarrow> (\<exists>h\<in>set order. GetAPIKeyByHash h s = Some k)"
    by (force simp: map_filter_def)
  also have "\<dots> \<longleftrightarrow> (\<exists>h. GetAPIKeyByHash h s = Some k)" using assms(2) by (auto simp: GetAPIKeyByHash_def)
  finally show "k \<in> set (List.map_filter (\<lambda>h. GetAPIKeyByHash h s) order) \<longleftrightarrow> GetAPIKeyByID (ak_ID k) s = Some k"
    unfolding GetAPIKeyByHash_iff [OF assms(1)] by simp
  let ?f = "\<lambda>h. GetAPIKeyByHash h s"
  show "distinct (map ak_ID (List.map_filter ?f order))"
    using assms(3)
  proof (induction order)
    case (Cons h hs)
    have "ak_ID k \<notin> ak_ID ` set (List.map_filter ?f hs)" if k: "?f h = Some k" for k
    proof
      assume "ak_ID k \<in> ak_ID ` set (List.map_filter ?f hs)"
      then obtain h' k' where "h' \<in> set hs" "?f h' = Some k'" "ak_ID k' = ak_ID k"
        by (auto simp: map_filter_def)
      then have "h = h'" using k unfolding GetAPIKeyByHash_iff [OF assms(1)] by simp
      then show False using \<open>h' \<in> set hs\<close> Cons.prems by simp
    qed
    then show ?case using Cons by (cases "?f h") simp_all
  qed simp
qed

text \<open>
  \<^bold>\<open>C36\<close>. The budget job resets what is due and nothing else: over a well-formed store, every
  active key whose reset time has passed afterwards has spent nothing, in total and per model,
  and its next reset lies one period after the reset; every other key is as it was. A period
  that is not one of the known ones is zero, so that the key is due again at once.
\<close>

theorem budget_reset_exact:
  assumes "key_wf s" and "set order = dom (apiKeys s)" and "distinct order" and "GetAPIKeyByID i s = Some k"
  shows "let s' = snd (resetKeyBudgets (memory_job_ops order teams users) now clock s)
     in if ak_IsActive k \<and> due now (ak_BudgetResetAt k)
        then \<exists>j. GetAPIKeyByID i s' = Some (k\<lparr>ak_SpentBudget := 0, ak_ModelSpend := Map.empty,
               ak_BudgetResetAt := (if ak_BudgetDuration k = BudgetDurationNever then None
                 else Some (clock j + DurationSeconds (ak_BudgetDuration k) * second))\<rparr>)
        else GetAPIKeyByID i s' = Some k"
proof -
  let ?due = "GetKeysNeedingBudgetReset order now s"
  have i: "ak_ID k = i" using assms(4) key_wf_id [OF assms(1)] by (auto simp: GetAPIKeyByID_def)
  have s': "snd (resetKeyBudgets (memory_job_ops order teams users) now clock s) =
      fold (\<lambda>(j, i) s. ResetAPIKeyBudget (clock j) i s) (enumerate 0 (map ak_ID ?due)) s"
    by (simp add: resetKeyBudgets_def memory_job_ops_def reset_all_def)
  have mem: "k' \<in> set ?due \<longleftrightarrow> GetAPIKeyByID (ak_ID k') s = Some k' \<and> ak_IsActive k' \<and> due now (ak_BudgetResetAt k')" for k'
    using keys_in_order(1) [OF assms(1-3), of k'] by (simp add: GetKeysNeedingBudgetReset_def conj_ac)
  have "i \<in> set (map ak_ID ?due) \<longleftrightarrow> k \<in> set ?due"
    using assms(4) i mem by (metis (no_types, lifting) image_iff option.inject set_map)
  then have hit: "i \<in> set (map ak_ID ?due) \<longleftrightarrow> ak_IsActive k \<and> due now (ak_BudgetResetAt k)"
    unfolding mem using assms(4) i by simp
  have "distinct (map ak_ID ?due)"
    using keys_in_order(2) [OF assms(1-3)] by (simp add: GetKeysNeedingBudgetReset_def distinct_map_filter)
  note fold = reset_fold [OF assms(1) this, of clock 0, unfolded Let_def, folded s']
  show ?thesis
  proof (cases "i \<in> set (map ak_ID ?due)")
    case True
    then obtain j where "GetAPIKeyByID i (snd (resetKeyBudgets (memory_job_ops order teams users) now clock s)) =
        Some (reset_key (clock j) k)"
      using fold assms(4) by fastforce
    then show ?thesis using True unfolding hit Let_def by (auto simp: reset_key_def NextResetTime_def)
  next
    case False
    then have "GetAPIKeyByID i (snd (resetKeyBudgets (memory_job_ops order teams users) now clock s)) = Some k"
      using fold assms(4) by metis
    then show ?thesis using False unfolding hit Let_def by (simp only: if_False)
  qed
qed

theorem budget_reset_exact_witness:
  "GetAPIKeyByID ''a'' (snd (resetKeyBudgets (memory_job_ops [''h''] [] []) 9 (\<lambda>_. 10)
     (CreateAPIKey ((demo_key ''a'' ''h'')\<lparr>ak_BudgetResetAt := Some 8, ak_SpentBudget := 7\<rparr>) NewMemoryStore))) =
   Some ((demo_key ''a'' ''h'')\<lparr>ak_BudgetResetAt := Some (10 + 86400 * second)\<rparr>)"
proof -
  let ?k = "(demo_key ''a'' ''h'')\<lparr>ak_BudgetResetAt := Some 8, ak_SpentBudget := 7\<rparr>"
  let ?s = "CreateAPIKey ?k NewMemoryStore"
  have "key_wf ?s" by (rule CreateAPIKey_put) (simp_all, simp add: NewMemoryStore_def)
  moreover have "set [''h''] = dom (apiKeys ?s)"
    by (simp add: CreateAPIKey_def NewMemoryStore_def Let_def)
  moreover have "GetAPIKeyByID ''a'' ?s = Some ?k"
    by (simp add: CreateAPIKey_def NewMemoryStore_def GetAPIKeyByID_def key_at_def Let_def)
  moreover have "ak_BudgetDuration ?k = ''1d''" by (simp add: demo_key_def budget_durations)
  moreover have "?k\<lparr>ak_SpentBudget := 0, ak_ModelSpend := Map.empty, ak_BudgetResetAt := x\<rparr> =
      (demo_key ''a'' ''h'')\<lparr>ak_BudgetResetAt := x\<rparr>" for x
    by (simp add: demo_key_def)
  ultimately show ?thesis
    using budget_reset_exact [of ?s "[''h'']" "''a''" ?k "[]" "[]" 9 "\<lambda>_. 10"]
    by (simp add: due_def budget_durations DurationSeconds_def)
qed

text \<open>What a rotated key does not take over from the old one.\<close>

lemma rotated_forgets:
  "ak_ExpiresAt (rotated format now now2 newID fullKey h k) = None"
  "\<not> ak_Blocked (rotated format now now2 newID fullKey h k)"
  "ak_SpentBudget (rotated format now now2 newID fullKey h k) = 0"
  by (simp_all add: rotated_def Let_def)

end
