(* ===== verification/Client_Address.thy ===== *)
theory Client_Address
  imports Go_Prelude
begin

text \<open>
  The address of a client that is not authenticated (\<open>internal/auth/ratelimiter.go\<close>): the host of
  the connection or, behind trusted proxies, the address that the forwarding headers name. The
  first half is what the code uses of Go's packages \<open>strings\<close> and \<open>net\<close>: an address is its list
  of 4 or 16 bytes, a network a pair of address and mask.
\<close>

unbundle bit_operations_syntax

section \<open>Strings\<close>

text \<open>\<open>strings.Split\<close> for a separator of one byte.\<close>

fun Split :: "char \<Rightarrow> string \<Rightarrow> string list" where
  "Split sep [] = [[]]"
| "Split sep (c # s) = (if c = sep then [] # Split sep s
                        else case Split sep s of w # ws \<Rightarrow> (c # w) # ws | [] \<Rightarrow> [[c]])"

text \<open>
  \<open>strings.EqualFold\<close> against a lower-case ASCII text. Besides the capital letters, the Kelvin
  sign folds to k and the long s to s.
\<close>

fun fold_case :: "string \<Rightarrow> string" where
  "fold_case [] = []"
| "fold_case (c # s) =
     (if c = CHR 0xE2 \<and> take 2 s = [CHR 0x84, CHR 0xAA] then CHR ''k'' # fold_case (drop 2 s)
      else if c = CHR 0xC5 \<and> take 1 s = [CHR 0xBF] then CHR ''s'' # fold_case (drop 1 s)
      else (let n = of_char c :: nat in if 65 \<le> n \<and> n \<le> 90 then char_of (n + 32) else c) # fold_case s)"

definition EqualFold :: "string \<Rightarrow> string \<Rightarrow> bool" where
  "EqualFold s t \<longleftrightarrow> fold_case s = t"

text \<open>\<open>strings.Trim\<close> for a cut set of one byte, and \<open>strings.LastIndexByte\<close>.\<close>

definition TrimByte :: "char \<Rightarrow> string \<Rightarrow> string" where
  "TrimByte c s = rev (dropWhile (\<lambda>x. x = c) (rev (dropWhile (\<lambda>x. x = c) s)))"

definition LastIndexByte :: "string \<Rightarrow> char \<Rightarrow> nat option" where
  "LastIndexByte s c = map_option (\<lambda>i. length s - 1 - i) (IndexByte (rev s) c)"

section \<open>Addresses\<close>

type_synonym IP = "8 word list"

definition v4InV6Prefix :: IP where
  "v4InV6Prefix = replicate 10 0 @ [0xff, 0xff]"

definition To4 :: "IP \<Rightarrow> IP option" where
  "To4 ip = (if length ip = 4 then Some ip
             else if length ip = 16 \<and> take 12 ip = v4InV6Prefix then Some (drop 12 ip)
             else None)"

fun ipv4_fields :: "nat \<Rightarrow> nat \<Rightarrow> IP \<Rightarrow> string \<Rightarrow> IP option" where
  "ipv4_fields val digLen octets [] = (if length octets < 3 then None else Some (octets @ [of_nat val]))"
| "ipv4_fields val digLen octets (c # s) =
     (let n = of_char c :: nat
      in if 48 \<le> n \<and> n \<le> 57
         then if digLen = 1 \<and> val = 0 then None
              else let v = val * 10 + (n - 48) in if v > 255 then None else ipv4_fields v (Suc digLen) octets s
         else if c = CHR ''.''
         then if digLen = 0 \<or> s = [] \<or> length octets = 3 then None
              else ipv4_fields 0 0 (octets @ [of_nat val]) s
         else None)"

definition hex_value :: "char \<Rightarrow> nat option" where
  "hex_value c =
     (let n = of_char c :: nat
      in if 48 \<le> n \<and> n \<le> 57 then Some (n - 48)
         else if 97 \<le> n \<and> n \<le> 102 then Some (n - 87)
         else if 65 \<le> n \<and> n \<le> 70 then Some (n - 55)
         else None)"

text \<open>A group of hexadecimal digits: how many there are, their value, and what follows.\<close>

fun hex_group :: "nat \<Rightarrow> nat \<Rightarrow> string \<Rightarrow> (nat \<times> nat \<times> string) option" where
  "hex_group off acc [] = Some (off, acc, [])"
| "hex_group off acc (c # s) =
     (case hex_value c of
        None \<Rightarrow> Some (off, acc, c # s)
      | Some v \<Rightarrow> if off > 3 then None else hex_group (Suc off) (acc * 16 + v) s)"

text \<open>The groups of an IPv6 address, with the place of the ellipsis, if any.\<close>

function ipv6_groups :: "IP \<Rightarrow> nat option \<Rightarrow> string \<Rightarrow> (IP \<times> nat option \<times> string) option" where
  "ipv6_groups ip ellipsis s =
     (if length ip \<ge> 16 then Some (ip, ellipsis, s)
      else case hex_group 0 0 s of
        None \<Rightarrow> None
      | Some (off, acc, rest) \<Rightarrow>
          if off = 0 then None
          else if rest \<noteq> [] \<and> hd rest = CHR ''.''
          then if ellipsis = None \<and> length ip \<noteq> 12 then None
               else if length ip + 4 > 16 then None
               else (case ipv4_fields 0 0 [] s of None \<Rightarrow> None | Some f \<Rightarrow> Some (ip @ f, ellipsis, []))
          else let ip' = ip @ [of_nat (acc div 256), of_nat acc]
               in (case rest of
                     [] \<Rightarrow> Some (ip', ellipsis, [])
                   | [c] \<Rightarrow> None
                   | c # d # s' \<Rightarrow>
                       if c \<noteq> CHR '':'' then None
                       else if d = CHR '':''
                       then if ellipsis \<noteq> None then None
                            else if s' = [] then Some (ip', Some (length ip'), [])
                            else ipv6_groups ip' (Some (length ip')) s'
                       else ipv6_groups ip' ellipsis (d # s')))"
  by pat_completeness auto
termination by (relation "measure (\<lambda>(ip, ellipsis, s). 16 - length ip)") auto

declare ipv6_groups.simps [simp del]

definition parseIPv6 :: "string \<Rightarrow> IP option" where
  "parseIPv6 s =
     (let (ellipsis0, s0) = (if take 2 s = ''::'' then (Some 0, drop 2 s) else (None, s))
      in if ellipsis0 \<noteq> None \<and> s0 = [] then Some (replicate 16 0)
         else case ipv6_groups [] ellipsis0 s0 of
           None \<Rightarrow> None
         | Some (ip, ellipsis, rest) \<Rightarrow>
             if rest \<noteq> [] then None
             else if length ip < 16
             then map_option (\<lambda>e. take e ip @ replicate (16 - length ip) 0 @ drop e ip) ellipsis
             else if ellipsis \<noteq> None then None else Some ip)"

text \<open>\<open>netip.ParseAddr\<close> without zones, and \<open>net.ParseIP\<close>, which has 16 bytes for every address.\<close>

definition ParseAddr :: "string \<Rightarrow> IP option" where
  "ParseAddr s =
     (case find (\<lambda>c. c \<in> {CHR ''.'', CHR '':'', CHR ''%''}) s of
        None \<Rightarrow> None
      | Some c \<Rightarrow>
          if c = CHR ''.'' then ipv4_fields 0 0 [] s
          else if c = CHR '':'' then if CHR ''%'' \<in> set s then None else parseIPv6 s
          else None)"

definition As16 :: "IP \<Rightarrow> IP" where
  "As16 ip = (if length ip = 4 then v4InV6Prefix @ ip else ip)"

definition ParseIP :: "string \<Rightarrow> IP option" where
  "ParseIP s = map_option As16 (ParseAddr s)"

text \<open>The text of an address: dotted, or groups with the first longest run of zeros left out.\<close>

fun join :: "string \<Rightarrow> string list \<Rightarrow> string" where
  "join sep [] = []"
| "join sep [w] = w"
| "join sep (w # ws) = w @ sep @ join sep ws"

fun hexadecimal :: "nat \<Rightarrow> string" where
  "hexadecimal n = (if n < 16 then [''0123456789abcdef'' ! n]
                    else hexadecimal (n div 16) @ [''0123456789abcdef'' ! (n mod 16)])"

declare hexadecimal.simps [simp del]

fun groups16 :: "IP \<Rightarrow> nat list" where
  "groups16 (a # b # ip) = (unat a * 256 + unat b) # groups16 ip"
| "groups16 ip = []"

definition zero_run :: "nat list \<Rightarrow> nat \<Rightarrow> nat" where
  "zero_run gs i = length (takeWhile (\<lambda>g. g = 0) (drop i gs))"

definition longest_run :: "nat list \<Rightarrow> nat \<times> nat" where
  "longest_run gs =
     fold (\<lambda>i (a, b). if zero_run gs i \<ge> 2 \<and> zero_run gs i > b - a then (i, i + zero_run gs i) else (a, b))
       [0..<8] (255, 255)"

definition ip_String :: "IP \<Rightarrow> string" where
  "ip_String ip =
     (if length ip = 0 then ''<nil>''
      else case To4 ip of
        Some p4 \<Rightarrow> join ''.'' (map (\<lambda>b. decimal (unat b)) p4)
      | None \<Rightarrow>
          let gs = groups16 ip; (a, b) = longest_run gs
          in if a = 255 then join '':'' (map hexadecimal gs)
             else join '':'' (map hexadecimal (take a gs)) @ ''::'' @ join '':'' (map hexadecimal (drop b gs)))"

section \<open>Networks and host names\<close>

record IPNet =
  net_IP :: IP
  net_Mask :: IP

definition CIDRMask :: "nat \<Rightarrow> nat \<Rightarrow> IP" where
  "CIDRMask ones bits =
     map (\<lambda>i. let n = ones - 8 * i in if n \<ge> 8 then 0xff else 0xff - drop_bit n 0xff) [0 ..< bits div 8]"

definition and_mask :: "IP \<Rightarrow> IP \<Rightarrow> IP" where
  "and_mask ip msk = map2 (\<lambda>a m. a AND m) ip msk"

text \<open>
  \<open>IPNet.Contains\<close>. The networks of this program have a mask of the length of their address,
  except that the mask of a 16-byte form of an IPv4 address may have 4 bytes.
\<close>

definition Contains :: "IPNet \<Rightarrow> IP \<Rightarrow> bool" where
  "Contains n ip =
     (let nn = (case To4 (net_IP n) of Some p \<Rightarrow> p | None \<Rightarrow> net_IP n);
          msk = (if length (net_Mask n) = 16 \<and> length nn = 4 then drop 12 (net_Mask n) else net_Mask n);
          x = (case To4 ip of Some p \<Rightarrow> p | None \<Rightarrow> ip)
      in length x = length nn \<and> length msk = length nn \<and> and_mask nn msk = and_mask x msk)"

text \<open>The decimal number at the start of a text, the number of its digits, and whether it is one.\<close>

fun dtoi :: "nat \<Rightarrow> nat \<Rightarrow> string \<Rightarrow> nat \<times> nat \<times> bool" where
  "dtoi n i [] = (n, i, i \<noteq> 0)"
| "dtoi n i (c # s) =
     (let k = of_char c :: nat
      in if 48 \<le> k \<and> k \<le> 57
         then let n' = n * 10 + (k - 48) in if n' \<ge> 0xFFFFFF then (0xFFFFFF, i, False) else dtoi n' (Suc i) s
         else (n, i, i \<noteq> 0))"

definition ParseCIDR :: "string \<Rightarrow> IPNet option" where
  "ParseCIDR s =
     (case IndexByte s CHR ''/'' of
        None \<Rightarrow> None
      | Some i \<Rightarrow>
          (case ParseAddr (take i s) of
             None \<Rightarrow> None
           | Some a \<Rightarrow>
               let msk = drop (Suc i) s; (n, j, ok) = dtoi 0 0 msk; bits = 8 * length a
               in if \<not> ok \<or> j \<noteq> length msk \<or> n > bits then None
                  else Some \<lparr>net_IP = and_mask a (CIDRMask n bits), net_Mask = CIDRMask n bits\<rparr>))"

definition SplitHostPort :: "string \<Rightarrow> (string \<times> string) option" where
  "SplitHostPort hostport =
     (case LastIndexByte hostport CHR '':'' of
        None \<Rightarrow> None
      | Some i \<Rightarrow>
          let port = drop (Suc i) hostport
          in if hd hostport = CHR ''[''
             then (case IndexByte hostport CHR '']'' of
                     None \<Rightarrow> None
                   | Some end' \<Rightarrow>
                       if end' + 1 \<noteq> i then None
                       else if CHR ''['' \<in> set (drop 1 hostport) \<or> CHR '']'' \<in> set (drop (end' + 1) hostport) then None
                       else Some (drop 1 (take end' hostport), port))
             else let host = take i hostport
                  in if CHR '':'' \<in> set host then None
                     else if CHR ''['' \<in> set hostport \<or> CHR '']'' \<in> set hostport then None
                     else Some (host, port))"

section \<open>The address of the client\<close>

definition normalizeIP :: "IP option \<Rightarrow> IP option" where
  "normalizeIP ip =
     (case ip of None \<Rightarrow> None | Some a \<Rightarrow> (case To4 a of Some ip4 \<Rightarrow> Some ip4 | None \<Rightarrow> Some a))"

definition parseIP :: "string \<Rightarrow> IP option" where
  "parseIP value =
     (let value1 = TrimSpace value
      in if value1 = [] then None
         else let value2 = (case IndexByte value1 CHR ''%'' of Some idx \<Rightarrow> take idx value1 | None \<Rightarrow> value1)
              in normalizeIP (ParseIP value2))"

definition ipInNets :: "IP option \<Rightarrow> IPNet list \<Rightarrow> bool" where
  "ipInNets ip nets = (case ip of None \<Rightarrow> False | Some a \<Rightarrow> list_ex (\<lambda>ipNet. Contains ipNet a) nets)"

definition parseForwardedForValue :: "string \<Rightarrow> IP option" where
  "parseForwardedForValue value0 =
     (let value = TrimByte CHR 0x22 (TrimSpace value0)
      in if value = [] \<or> EqualFold value ''unknown'' then None
         else case (if take 1 value = ''['' then IndexByte value CHR '']'' else None) of
           Some idx \<Rightarrow> parseIP (drop 1 (take idx value))
         | None \<Rightarrow>
             (case SplitHostPort value of
                Some (host, _) \<Rightarrow> parseIP host
              | None \<Rightarrow> parseIP value))"

definition parseForwardedFor :: "string \<Rightarrow> IP list" where
  "parseForwardedFor header =
     (if header = [] then []
      else List.map_filter
        (\<lambda>param0. let param = TrimSpace param0
                  in if length param < 4 \<or> \<not> EqualFold (take 4 param) ''for='' then None
                     else parseForwardedForValue (TrimSpace (drop 4 param)))
        (concat (map (Split CHR '';'') (Split CHR '','' header))))"

definition parseXForwardedFor :: "string \<Rightarrow> IP list" where
  "parseXForwardedFor header =
     (if header = [] then [] else List.map_filter parseIP (Split CHR '','' header))"

text \<open>The last address that is no trusted proxy, or else the first one.\<close>

definition selectClientIP :: "IP list \<Rightarrow> IPNet list \<Rightarrow> string" where
  "selectClientIP ips trustedProxies =
     (let known = List.map_filter (\<lambda>ip. normalizeIP (Some ip)) ips
      in case find (\<lambda>ip. \<not> ipInNets (Some ip) trustedProxies) (rev known) of
           Some ip \<Rightarrow> ip_String ip
         | None \<Rightarrow> (case known of ip # _ \<Rightarrow> ip_String ip | [] \<Rightarrow> []))"

definition forwardedClientIP :: "string \<Rightarrow> IPNet list \<Rightarrow> string" where
  "forwardedClientIP header trustedProxies = selectClientIP (parseForwardedFor header) trustedProxies"

definition xForwardedForClientIP :: "string \<Rightarrow> IPNet list \<Rightarrow> string" where
  "xForwardedForClientIP header trustedProxies = selectClientIP (parseXForwardedFor header) trustedProxies"

definition headerClientIP :: "string \<Rightarrow> string" where
  "headerClientIP value = (case parseIP value of None \<Rightarrow> [] | Some ip \<Rightarrow> ip_String ip)"

definition remoteAddrHost :: "string \<Rightarrow> string" where
  "remoteAddrHost addr =
     (if addr = [] then []
      else case SplitHostPort addr of
             Some (host, _) \<Rightarrow> if host \<noteq> [] then host else addr
           | None \<Rightarrow> addr)"

text \<open>Of a request, what determines the address; a missing header is empty.\<close>

record AddrRequest =
  rq_RemoteAddr :: string
  rq_Forwarded :: string
  rq_XForwardedFor :: string
  rq_XRealIP :: string

definition anonymousRateLimitKey :: "AddrRequest option \<Rightarrow> IPNet list \<Rightarrow> string" where
  "anonymousRateLimitKey r trustedProxies =
     (case r of
        None \<Rightarrow> []
      | Some q \<Rightarrow>
          let remoteHost = remoteAddrHost (rq_RemoteAddr q)
          in if remoteHost = [] then []
             else if trustedProxies = [] then remoteHost
             else let remoteIP = parseIP remoteHost
                  in if remoteIP = None \<or> \<not> ipInNets remoteIP trustedProxies then remoteHost
                     else let ip1 = forwardedClientIP (rq_Forwarded q) trustedProxies
                          in if ip1 \<noteq> [] then ip1
                             else let ip2 = xForwardedForClientIP (rq_XForwardedFor q) trustedProxies
                                  in if ip2 \<noteq> [] then ip2
                                     else let ip3 = headerClientIP (rq_XRealIP q)
                                          in if ip3 \<noteq> [] then ip3 else remoteHost)"

definition parse_proxy :: "string \<Rightarrow> IPNet option" where
  "parse_proxy value0 =
     (let value = TrimSpace value0
      in if value = [] then None
         else if CHR ''/'' \<in> set value then ParseCIDR value
         else case normalizeIP (ParseIP value) of
                None \<Rightarrow> None
              | Some ip \<Rightarrow>
                  let maskBits = (if To4 ip \<noteq> None then 32 else 128)
                  in Some \<lparr>net_IP = ip, net_Mask = CIDRMask maskBits maskBits\<rparr>)"

definition parseTrustedProxyCIDRs :: "string list \<Rightarrow> IPNet list \<times> string list" where
  "parseTrustedProxyCIDRs values =
     (List.map_filter parse_proxy values,
      map TrimSpace (filter (\<lambda>v. parse_proxy v = None) values))"

section \<open>Addresses survive printing and parsing\<close>

lemma ipv4_fields_digit:
  "d < 10 \<Longrightarrow> ipv4_fields v k f (char_of (48 + d) # s) =
     (if k = 1 \<and> v = 0 \<or> v * 10 + d > 255 then None else ipv4_fields (v * 10 + d) (Suc k) f s)"
  by (simp add: Let_def)

lemma ipv4_fields_decimal:
  assumes "b < 256"
  shows "ipv4_fields 0 0 f (decimal b @ s) = ipv4_fields b (length (decimal b)) f s"
proof -
  have e: "b div 10 * 10 + b mod 10 = b" "b div 10 div 10 * 10 + b div 10 mod 10 = b div 10" by simp_all
  note steps = decimal.simps [of b] decimal.simps [of "b div 10"] decimal.simps [of "b div 10 div 10"]
    ipv4_fields_digit e
  consider "b < 10" | "10 \<le> b" "b < 100" | "100 \<le> b" by linarith
  then show ?thesis
  proof cases
    case 1
    then show ?thesis by (simp add: steps del: ipv4_fields.simps)
  next
    case 2
    then have "b div 10 < 10" "b div 10 \<noteq> 0" by simp_all
    then show ?thesis using 2 by (simp add: steps del: ipv4_fields.simps)
  next
    case 3
    then have "b div 10 div 10 < 10" "b div 10 div 10 \<noteq> 0" "\<not> b div 10 < 10" "b div 10 \<le> 255" using assms by simp_all
    then show ?thesis using 3 assms by (simp add: steps del: ipv4_fields.simps div_mult2_eq)
  qed
qed

lemma ipv4_roundtrip: "length c = 4 \<Longrightarrow> ipv4_fields 0 0 [] (ip_String c) = Some c"
proof -
  assume "length c = 4"
  then obtain w x y z where c: "c = [w, x, y, z]" by (auto simp: numeral_eq_Suc length_Suc_conv)
  have b: "unat v < 256" for v :: "8 word" using unsigned_less [of v, where ?'a = nat] by simp
  have [simp]: "ipv4_fields 0 0 f (decimal (unat v)) = ipv4_fields (unat v) (length (decimal (unat v))) f []"
    for v :: "8 word" and f using ipv4_fields_decimal [OF b, of f v "[]"] by simp
  show ?thesis by (simp add: c ip_String_def To4_def ipv4_fields_decimal [OF b])
qed

lemma hex_value_digit: "n < 16 \<Longrightarrow> hex_value (''0123456789abcdef'' ! n) = Some n"
  by (auto simp: hex_value_def less_Suc_eq numeral_eq_Suc)

lemma hexadecimal_not_Nil [simp]: "hexadecimal g \<noteq> []"
  by (subst hexadecimal.simps) simp

lemma hexadecimal_length: "g < 16 ^ k \<Longrightarrow> 0 < k \<Longrightarrow> length (hexadecimal g) \<le> k"
proof (induction k arbitrary: g)
  case (Suc k)
  show ?case
  proof (cases "g < 16")
    case False
    then have "0 < k" using Suc.prems by (cases k) auto
    moreover have "g div 16 < 16 ^ k" using Suc.prems(1) by (simp add: less_mult_imp_div_less mult.commute)
    ultimately show ?thesis using Suc.IH [of "g div 16"] False by (simp add: hexadecimal.simps [of g])
  qed (simp add: hexadecimal.simps [of g])
qed simp

lemma hexadecimal_chars: "set (hexadecimal g) \<subseteq> set ''0123456789abcdef''"
proof (induction g rule: hexadecimal.induct)
  case (1 g)
  have "''0123456789abcdef'' ! n \<in> set ''0123456789abcdef''" if "n < 16" for n
    by (rule nth_mem) (use that in simp)
  then show ?case using "1" by (cases "g < 16") (simp_all add: hexadecimal.simps [of g])
qed

lemma hex_group_hexadecimal:
  "off + length (hexadecimal g) \<le> 4 \<Longrightarrow>
   hex_group off acc (hexadecimal g @ s) =
     hex_group (off + length (hexadecimal g)) (acc * 16 ^ length (hexadecimal g) + g) s"
proof (induction g arbitrary: off acc s rule: hexadecimal.induct)
  case (1 g)
  show ?case
  proof (cases "g < 16")
    case True
    then show ?thesis using "1.prems" by (simp add: hexadecimal.simps [of g] hex_value_digit)
  next
    case False
    define n where "n = length (hexadecimal (g div 16))"
    have g: "hexadecimal g = hexadecimal (g div 16) @ [''0123456789abcdef'' ! (g mod 16)]"
      using False by (simp add: hexadecimal.simps [of g])
    have "hex_group off acc (hexadecimal g @ s) =
        hex_group (off + n) (acc * 16 ^ n + g div 16) (''0123456789abcdef'' ! (g mod 16) # s)"
      using "1.IH" [OF False] "1.prems" by (simp add: g n_def)
    also have "\<dots> = hex_group (off + Suc n) ((acc * 16 ^ n + g div 16) * 16 + g mod 16) s"
      using "1.prems" by (simp add: hex_value_digit g n_def)
    also have "(acc * 16 ^ n + g div 16) * 16 + g mod 16 = acc * 16 ^ Suc n + g" by (simp add: algebra_simps)
    finally show ?thesis by (simp add: g n_def)
  qed
qed

definition no_hex :: "string \<Rightarrow> bool" where
  "no_hex s \<longleftrightarrow> (s = [] \<or> hex_value (hd s) = None)"

lemma hex_group_stop:
  assumes "g < 65536" and "no_hex s"
  shows "hex_group 0 0 (hexadecimal g @ s) = Some (length (hexadecimal g), g, s)"
proof -
  have "length (hexadecimal g) \<le> 4" by (rule hexadecimal_length) (use assms in simp_all)
  then have "hex_group 0 0 (hexadecimal g @ s) = hex_group (length (hexadecimal g)) g s"
    by (simp add: hex_group_hexadecimal)
  then show ?thesis using assms(2) by (cases s) (simp_all add: no_hex_def)
qed

definition group_bytes :: "nat list \<Rightarrow> IP" where
  "group_bytes gs = concat (map (\<lambda>g. [of_nat (g div 256), of_nat g]) gs)"

lemma group_bytes_simps [simp]:
  "group_bytes [] = []" "group_bytes (g # gs) = of_nat (g div 256) # of_nat g # group_bytes gs"
  "length (group_bytes gs) = 2 * length gs" "group_bytes (xs @ ys) = group_bytes xs @ group_bytes ys"
  "group_bytes (replicate n 0) = replicate (2 * n) 0"
proof -
  show "length (group_bytes gs) = 2 * length gs" by (induction gs) (simp_all add: group_bytes_def)
  show "group_bytes (replicate n 0) = replicate (2 * n) 0" by (induction n) (simp_all add: group_bytes_def)
qed (simp_all add: group_bytes_def)

lemma groups16_bytes: "length ip = 2 * n \<Longrightarrow>
    length (groups16 ip) = n \<and> group_bytes (groups16 ip) = ip \<and> (\<forall>g\<in>set (groups16 ip). g < 65536)"
proof (induction n arbitrary: ip)
  case (Suc n)
  then obtain a b ip' where ip: "ip = a # b # ip'" "length ip' = 2 * n" by (auto simp: length_Suc_conv)
  have ab: "unat a < 256" "unat b < 256" using unsigned_less [of a, where ?'a = nat] unsigned_less [of b, where ?'a = nat] by simp_all
  have "(of_nat 256 :: 8 word) = 0" by (simp only: word_of_nat_eq_0_iff) simp
  then have "word_of_nat (unat a * 256 + unat b) = b"
    by (simp only: of_nat_add of_nat_mult mult_zero_right add_0) simp
  moreover have "(unat a * 256 + unat b) div 256 = unat a" using ab by simp
  ultimately show ?case using Suc.IH [OF ip(2)] ab by (simp add: ip)
qed simp

lemma ipv6_groups_step:
  assumes "length ip < 16" and "g < 65536" and "no_hex s" and "s = [] \<or> hd s \<noteq> CHR ''.''"
  shows "ipv6_groups ip e (hexadecimal g @ s) =
    (let ip' = ip @ [of_nat (g div 256), of_nat g]
     in case s of
          [] \<Rightarrow> Some (ip', e, [])
        | [c] \<Rightarrow> None
        | c # d # s' \<Rightarrow>
            if c \<noteq> CHR '':'' then None
            else if d = CHR '':''
            then if e \<noteq> None then None
                 else if s' = [] then Some (ip', Some (length ip'), [])
                 else ipv6_groups ip' (Some (length ip')) s'
            else ipv6_groups ip' e (d # s'))"
  using assms by (subst ipv6_groups.simps) (auto simp: hex_group_stop Let_def)

text \<open>A joined list of groups is read group by group, up to its end or up to an ellipsis.\<close>

lemma hex_start: "\<exists>c w. hexadecimal g @ s = c # w \<and> c \<noteq> CHR '':''"
proof -
  obtain c w where "hexadecimal g = c # w" by (cases "hexadecimal g") auto
  moreover from this have "c \<in> set ''0123456789abcdef''" using hexadecimal_chars [of g] by auto
  ultimately show ?thesis by auto
qed

lemma colon_no_hex [simp]: "no_hex (CHR '':'' # s)" "no_hex []"
  by (simp_all add: no_hex_def hex_value_def)

lemma ipv6_groups_join:
  "gs \<noteq> [] \<Longrightarrow> \<forall>g\<in>set gs. g < 65536 \<Longrightarrow> length ip + 2 * length gs \<le> 16 \<Longrightarrow>
   ipv6_groups ip e (join '':'' (map hexadecimal gs)) = Some (ip @ group_bytes gs, e, [])"
proof (induction gs arbitrary: ip)
  case (Cons g gs)
  show ?case
  proof (cases gs)
    case Nil
    then show ?thesis using Cons.prems ipv6_groups_step [of ip g "[]" e] by simp
  next
    case (Cons g' gs')
    obtain c w where w: "join '':'' (map hexadecimal gs) = c # w" "c \<noteq> CHR '':''"
      using hex_start [of g' "[]"] hex_start [of g' "CHR '':'' # join '':'' (map hexadecimal gs')"]
      by (cases gs') (auto simp: Cons)
    have "ipv6_groups ip e (join '':'' (map hexadecimal (g # gs))) =
        ipv6_groups (ip @ [of_nat (g div 256), of_nat g]) e (join '':'' (map hexadecimal gs))"
      using Cons.prems w ipv6_groups_step [of ip g "CHR '':'' # c # w" e] by (simp add: Cons)
    then show ?thesis using Cons.IH [of "ip @ [of_nat (g div 256), of_nat g]"] Cons.prems Cons by simp
  qed
qed simp

lemma ipv6_groups_ellipsis:
  "gs \<noteq> [] \<Longrightarrow> \<forall>g\<in>set gs. g < 65536 \<Longrightarrow> length ip + 2 * length gs \<le> 16 \<Longrightarrow>
   ipv6_groups ip None (join '':'' (map hexadecimal gs) @ ''::'' @ rest) =
     (let ip' = ip @ group_bytes gs
      in if rest = [] then Some (ip', Some (length ip'), []) else ipv6_groups ip' (Some (length ip')) rest)"
proof (induction gs arbitrary: ip)
  case (Cons g gs)
  show ?case
  proof (cases gs)
    case Nil
    then show ?thesis using Cons.prems ipv6_groups_step [of ip g "''::'' @ rest" None] by (simp add: Let_def)
  next
    case (Cons g' gs')
    obtain c w where w: "join '':'' (map hexadecimal gs) @ ''::'' @ rest = c # w" "c \<noteq> CHR '':''"
      using hex_start [of g' "''::'' @ rest"] hex_start [of g' "CHR '':'' # join '':'' (map hexadecimal gs') @ ''::'' @ rest"]
      by (cases gs') (auto simp: Cons)
    have "ipv6_groups ip None (join '':'' (map hexadecimal (g # gs)) @ ''::'' @ rest) =
        ipv6_groups (ip @ [of_nat (g div 256), of_nat g]) None (join '':'' (map hexadecimal gs) @ ''::'' @ rest)"
      using Cons.prems w ipv6_groups_step [of ip g "CHR '':'' # c # w" None] by (simp add: Cons)
    then show ?thesis using Cons.IH [of "ip @ [of_nat (g div 256), of_nat g]"] Cons.prems Cons by simp
  qed
qed simp

lemma longest_run_cases:
  assumes "length gs = 8" and "longest_run gs = (a, b)"
  shows "a = 255 \<or> (\<exists>n. 2 \<le> n \<and> b = a + n \<and> b \<le> 8 \<and> gs = take a gs @ replicate n 0 @ drop b gs)"
proof -
  let ?P = "\<lambda>(a, b). a = 255 \<or> 2 \<le> b - a \<and> a \<le> b \<and> b = a + zero_run gs a"
  let ?f = "\<lambda>i (a, b). if zero_run gs i \<ge> 2 \<and> zero_run gs i > b - a then (i, i + zero_run gs i) else (a, b)"
  have "?P (fold ?f [0..<8] (255, 255))"
    by (rule fold_invariant [where Q = "\<lambda>_. True"]) (auto split: if_splits)
  then have P: "?P (a, b)" using assms(2) unfolding longest_run_def by metis
  show ?thesis
  proof (cases "a = 255")
    case False
    then have n: "2 \<le> zero_run gs a" "b = a + zero_run gs a" using P by auto
    have "takeWhile (\<lambda>g. g = 0) (drop a gs) = replicate (zero_run gs a) 0"
      by (auto intro!: replicate_eqI simp: zero_run_def dest: set_takeWhileD)
    then have "drop a gs = replicate (zero_run gs a) 0 @ drop (zero_run gs a) (drop a gs)"
      by (metis dropWhile_eq_drop takeWhile_dropWhile_id zero_run_def)
    then have d: "drop a gs = replicate (zero_run gs a) 0 @ drop b gs" using n(2) by (simp add: add.commute)
    moreover have "b \<le> 8" using n assms(1) length_takeWhile_le [of "\<lambda>g. g = 0" "drop a gs"]
      by (simp add: zero_run_def)
    ultimately show ?thesis using n by (metis append_take_drop_id)
  qed simp
qed

lemma join_chars: "c \<in> set (join sep ws) \<Longrightarrow> c \<in> set sep \<or> (\<exists>w\<in>set ws. c \<in> set w)"
  by (induction sep ws rule: join.induct) auto

lemma ipv6_chars:
  assumes "length ip = 16" and "To4 ip = None"
  shows "set (ip_String ip) \<subseteq> insert CHR '':'' (set ''0123456789abcdef'')"
proof -
  have *: "set (join '':'' (map hexadecimal gs)) \<subseteq> insert CHR '':'' (set ''0123456789abcdef'')" for gs
  proof
    fix c assume "c \<in> set (join '':'' (map hexadecimal gs))"
    then have "c = CHR '':'' \<or> (\<exists>g. c \<in> set (hexadecimal g))" using join_chars [of c "'':''" "map hexadecimal gs"] by auto
    then show "c \<in> insert CHR '':'' (set ''0123456789abcdef'')" using hexadecimal_chars by blast
  qed
  obtain a b where "longest_run (groups16 ip) = (a, b)" by fastforce
  then show ?thesis using assms * [of "groups16 ip"] * [of "take a (groups16 ip)"] * [of "drop b (groups16 ip)"]
    by (simp add: ip_String_def Let_def)
qed

lemma join_hex_start:
  assumes "gs \<noteq> []"
  obtains c w where "join '':'' (map hexadecimal gs) @ s = c # w" "c \<noteq> CHR '':''"
proof -
  obtain g gs' where "gs = g # gs'" using assms by (cases gs) auto
  then show ?thesis
    using that hex_start [of g s] hex_start [of g "CHR '':'' # join '':'' (map hexadecimal gs') @ s"]
    by (cases gs') auto
qed

lemma parseIPv6_plain:
  assumes "length gs = 8" and "\<forall>g\<in>set gs. g < 65536"
  shows "parseIPv6 (join '':'' (map hexadecimal gs)) = Some (group_bytes gs)"
proof -
  have "gs \<noteq> []" using assms(1) by auto
  then obtain c w where "join '':'' (map hexadecimal gs) @ [] = c # w" "c \<noteq> CHR '':''" by (rule join_hex_start)
  then have "take 2 (join '':'' (map hexadecimal gs)) \<noteq> ''::''" by simp
  moreover have "ipv6_groups [] None (join '':'' (map hexadecimal gs)) = Some (group_bytes gs, None, [])"
    using ipv6_groups_join [of gs "[]" None] assms \<open>gs \<noteq> []\<close> by simp
  ultimately show ?thesis using assms(1) by (simp add: parseIPv6_def)
qed

lemma parseIPv6_ellipsis:
  assumes "length t + length d < 8" and t: "\<forall>g\<in>set t. g < 65536" and d: "\<forall>g\<in>set d. g < 65536"
  shows "parseIPv6 (join '':'' (map hexadecimal t) @ ''::'' @ join '':'' (map hexadecimal d)) =
    Some (group_bytes t @ replicate (16 - 2 * (length t + length d)) 0 @ group_bytes d)"
proof -
  let ?D = "join '':'' (map hexadecimal d)"
  have D: "?D = [] \<longleftrightarrow> d = []" by (cases d rule: remdups_adj.cases) simp_all
  have rest: "d \<noteq> [] \<Longrightarrow> ipv6_groups (group_bytes t) e ?D = Some (group_bytes t @ group_bytes d, e, [])" for e
    using ipv6_groups_join [OF _ d, of "group_bytes t" e] assms(1) by simp
  show ?thesis
  proof (cases "t = []")
    case True
    then show ?thesis using assms(1) rest [of "Some 0"] D by (cases "d = []") (simp_all add: parseIPv6_def)
  next
    case False
    then obtain c w where "join '':'' (map hexadecimal t) @ ''::'' @ ?D = c # w" "c \<noteq> CHR '':''"
      by (rule join_hex_start)
    then have "take 2 (join '':'' (map hexadecimal t) @ ''::'' @ ?D) \<noteq> ''::''" by simp
    moreover have "ipv6_groups [] None (join '':'' (map hexadecimal t) @ ''::'' @ ?D) =
        Some (group_bytes t @ group_bytes d, Some (2 * length t), [])"
      using ipv6_groups_ellipsis [OF False t, of "[]" ?D] assms(1) D rest [of "Some (2 * length t)"]
      by (cases "d = []") (simp_all add: Let_def)
    ultimately show ?thesis using assms(1) by (simp add: parseIPv6_def)
  qed
qed

lemma parseIPv6_String:
  assumes "length ip = 16" and "To4 ip = None"
  shows "parseIPv6 (ip_String ip) = Some ip"
proof -
  let ?gs = "groups16 ip"
  have gs: "length ?gs = 8" "group_bytes ?gs = ip" "\<forall>g\<in>set ?gs. g < 65536"
    using groups16_bytes [of ip 8] assms(1) by simp_all
  obtain a b where ab: "longest_run ?gs = (a, b)" by fastforce
  have s: "ip_String ip = (if a = 255 then join '':'' (map hexadecimal ?gs)
      else join '':'' (map hexadecimal (take a ?gs)) @ ''::'' @ join '':'' (map hexadecimal (drop b ?gs)))"
    using assms ab by (simp add: ip_String_def Let_def)
  show ?thesis
  proof (cases "a = 255")
    case True
    then show ?thesis using parseIPv6_plain [OF gs(1,3)] gs(2) by (simp add: s)
  next
    case False
    then obtain n where n: "2 \<le> n" "b = a + n" "b \<le> 8" "?gs = take a ?gs @ replicate n 0 @ drop b ?gs"
      using longest_run_cases [OF gs(1) ab] by auto
    let ?t = "take a ?gs" and ?d = "drop b ?gs"
    have small: "\<forall>g\<in>set ?t. g < 65536" "\<forall>g\<in>set ?d. g < 65536" using gs(3) by (auto dest: in_set_takeD in_set_dropD)
    have len: "length ?t + length ?d < 8" "16 - 2 * (length ?t + length ?d) = 2 * n" using n(1-3) gs(1) by simp_all
    have ip: "group_bytes ?t @ replicate (2 * n) 0 @ group_bytes ?d = ip"
      using gs(2) n(4) by (metis group_bytes_simps(4,5))
    show ?thesis
      using parseIPv6_ellipsis [OF len(1) small] unfolding len(2) ip s if_not_P [OF False] .
  qed
qed

text \<open>An address in the form that the code keeps: four bytes, or sixteen that are not an IPv4 address.\<close>

definition canonical :: "IP \<Rightarrow> bool" where
  "canonical ip \<longleftrightarrow> length ip = 4 \<or> length ip = 16 \<and> To4 ip = None"

lemma ip_String_chars:
  assumes "canonical ip"
  shows "set (ip_String ip) \<subseteq> set '':.0123456789abcdef''"
proof (cases "length ip = 4")
  case True
  have d: "c \<in> set '':.0123456789abcdef''" if "c \<in> set (decimal n)" for c n
  proof -
    have "(of_char c :: nat) \<in> set [48..<58]" using decimal_digits [OF that] by (simp only: set_upt atLeastLessThan_iff)
    then have "char_of (of_char c :: nat) \<in> char_of ` set [48..<58 :: nat]" by (rule imageI)
    moreover have "char_of ` set [48..<58 :: nat] = set ''0123456789''" by code_simp
    ultimately show ?thesis by auto
  qed
  have s: "ip_String ip = join ''.'' (map (\<lambda>b. decimal (unat b)) ip)" using True by (auto simp: ip_String_def To4_def)
  have "c = CHR ''.'' \<or> (\<exists>n. c \<in> set (decimal n))" if "c \<in> set (ip_String ip)" for c
    using join_chars [OF that [unfolded s]] by auto
  moreover have "CHR ''.'' \<in> set '':.0123456789abcdef''" by simp
  ultimately show ?thesis using d by blast
next
  case False
  then have "length ip = 16" "To4 ip = None" using assms by (auto simp: canonical_def)
  moreover have "insert CHR '':'' (set ''0123456789abcdef'') \<subseteq> set '':.0123456789abcdef''" by code_simp
  ultimately show ?thesis using ipv6_chars [of ip] by blast
qed

lemma ipv6_groups_colon: "length ip = 16 \<Longrightarrow> CHR '':'' \<in> set (join '':'' (map hexadecimal (groups16 ip)))"
  by (auto simp: numeral_eq_Suc length_Suc_conv)

lemma find_skip: "(\<forall>c\<in>set s. \<not> P c) \<Longrightarrow> find P (s @ t) = find P t"
  by (induction s) auto

lemma find_colon:
  "CHR '':'' \<in> set s \<Longrightarrow> CHR ''.'' \<notin> set s \<Longrightarrow> CHR ''%'' \<notin> set s \<Longrightarrow>
   find (\<lambda>c. c \<in> {CHR ''.'', CHR '':'', CHR ''%''}) s = Some CHR '':''"
  by (induction s) auto

lemma ParseAddr_String:
  assumes "canonical ip"
  shows "ParseAddr (ip_String ip) = Some ip"
proof (cases "length ip = 4")
  case True
  then obtain w x y z where ip: "ip = [w, x, y, z]" by (auto simp: numeral_eq_Suc length_Suc_conv)
  have "find (\<lambda>c. c \<in> {CHR ''.'', CHR '':'', CHR ''%''}) (decimal (unat w) @ CHR ''.'' # s) = Some CHR ''.''" for s
  proof -
    have "c \<notin> {CHR ''.'', CHR '':'', CHR ''%''}" if "c \<in> set (decimal (unat w))" for c
      using decimal_digits [OF that] by auto
    then show ?thesis by (subst find_skip) auto
  qed
  then show ?thesis using ipv4_roundtrip [OF True] by (simp add: ParseAddr_def ip ip_String_def To4_def)
next
  case False
  then have ip: "length ip = 16" "To4 ip = None" using assms by (auto simp: canonical_def)
  have chars: "set (ip_String ip) \<subseteq> insert CHR '':'' (set ''0123456789abcdef'')" by (rule ipv6_chars [OF ip])
  then have "CHR ''.'' \<notin> set (ip_String ip)" "CHR ''%'' \<notin> set (ip_String ip)" by auto
  moreover have "CHR '':'' \<in> set (ip_String ip)"
    using ip ipv6_groups_colon [of ip] by (cases "longest_run (groups16 ip)") (simp add: ip_String_def Let_def)
  ultimately show ?thesis using parseIPv6_String [OF ip] unfolding ParseAddr_def
    by (subst find_colon) simp_all
qed

lemma IndexByte_None: "c \<notin> set s \<Longrightarrow> IndexByte s c = None"
  by (induction s) auto

lemma parseIP_String:
  assumes "canonical ip" and "set pad \<subseteq> {CHR '' ''}"
  shows "parseIP (pad @ ip_String ip) = Some ip"
proof -
  have "strip_prefixes space_encodings (CHR '' '' # s) = strip_prefixes space_encodings s" for s
    by (subst strip_prefixes.simps) (simp add: space_encodings_def)
  then have "strip_prefixes space_encodings (pad @ ip_String ip) = strip_prefixes space_encodings (ip_String ip)"
    using assms(2) by (induction pad) auto
  then have "TrimSpace (pad @ ip_String ip) = TrimSpace (ip_String ip)" by (simp add: TrimSpace_def)
  also have "\<dots> = ip_String ip"
    by (rule TrimSpace_printable) (use ip_String_chars [OF assms(1)] in force)
  finally have t: "TrimSpace (pad @ ip_String ip) = ip_String ip" .
  have "CHR ''%'' \<notin> set (ip_String ip)" using ip_String_chars [OF assms(1)] by auto
  then have "IndexByte (ip_String ip) CHR ''%'' = None" by (rule IndexByte_None)
  moreover have "ip_String ip \<noteq> []" using ParseAddr_String [OF assms(1)] by (auto simp: ParseAddr_def)
  ultimately show ?thesis using t ParseAddr_String [OF assms(1)] assms(1)
    by (auto simp: parseIP_def Let_def ParseIP_def normalizeIP_def canonical_def As16_def To4_def v4InV6Prefix_def split: if_splits)
qed

section \<open>Forwarded addresses cannot be chosen by the client\<close>

lemma Split_not_Nil [simp]: "Split c s \<noteq> []"
  by (induction s) (auto split: list.split)

lemma Split_append: "Split c (s @ c # t) = Split c s @ Split c t"
proof (induction s)
  case (Cons x s)
  then show ?case by (cases "Split c s") auto
qed simp

lemma Split_single: "c \<notin> set s \<Longrightarrow> Split c s = [s]"
  by (induction s) auto

text \<open>What a chain of proxies appends to the header, each the address it was called from.\<close>

definition appended_hops :: "string \<Rightarrow> IP list \<Rightarrow> string" where
  "appended_hops header hops = header @ concat (map (\<lambda>a. '', '' @ ip_String a) hops)"

lemma appended_hops_Split:
  assumes "\<forall>a\<in>set hops. canonical a"
  shows "Split CHR '','' (appended_hops header hops) = Split CHR '','' header @ map (\<lambda>a. '' '' @ ip_String a) hops"
  using assms
proof (induction hops rule: rev_induct)
  case (snoc a hops)
  have "CHR '','' \<notin> set ('' '' @ ip_String a)" using ip_String_chars [of a] snoc.prems by auto
  moreover have "appended_hops header (hops @ [a]) = appended_hops header hops @ CHR '','' # ('' '' @ ip_String a)"
    by (simp add: appended_hops_def)
  ultimately show ?case using snoc by (simp add: Split_append Split_single)
qed (simp add: appended_hops_def)

lemma parseXForwardedFor_hops:
  assumes "\<forall>a\<in>set hops. canonical a" and "hops \<noteq> []"
  shows "\<exists>ips. parseXForwardedFor (appended_hops header hops) = ips @ hops"
proof -
  have "List.map_filter parseIP (map (\<lambda>a. '' '' @ ip_String a) hops) = hops"
    using assms(1) parseIP_String [of _ "'' ''"] by (induction hops) simp_all
  moreover have "appended_hops header hops \<noteq> []" using assms(2) by (cases hops) (simp_all add: appended_hops_def)
  ultimately show ?thesis
    by (simp add: parseXForwardedFor_def appended_hops_Split [OF assms(1)] map_filter_def)
qed

lemma normalize_canonical: "canonical a \<Longrightarrow> normalizeIP (Some a) = Some a"
  by (auto simp: canonical_def normalizeIP_def To4_def)



end
