(* ===== verification/Tenant_Limiter.thy ===== *)
theory Tenant_Limiter
  imports Client_Address Auth_Access Client_Core
begin

text \<open>
  The rate limiter per tenant (\<open>internal/auth/ratelimiter.go\<close>). The token bucket of one tenant is
  that of \<open>golang.org/x/time/rate\<close> and a parameter; so is the distributed limiter, an interface
  of the package \<open>resilience\<close>. Each reading of the clock is an argument.
\<close>

section \<open>The limiter\<close>

record 'l RateLib =
  rate_NewLimiter :: "float64 \<Rightarrow> int \<Rightarrow> 'l"
  rate_AllowN :: "go_time \<Rightarrow> int \<Rightarrow> 'l \<Rightarrow> bool \<times> 'l"
  rate_SetLimit :: "go_time \<Rightarrow> float64 \<Rightarrow> 'l \<Rightarrow> 'l"
  rate_SetBurst :: "go_time \<Rightarrow> int \<Rightarrow> 'l \<Rightarrow> 'l"

record ('l, 'd) TenantRateLimiter =
  trl_limiters :: "string \<rightharpoonup> 'l"
  trl_defaultRate :: float64
  trl_defaultBurst :: int
  trl_useDefaultBurst :: bool
  trl_cleanupTTL :: go_duration
  trl_lastAccess :: "string \<rightharpoonup> go_time"
  trl_distributedLimiter :: "'d option"
  trl_failOpen :: bool
  trl_trustedProxies :: "IPNet list"

record TenantRateLimiterConfig =
  trc_DefaultRPM :: int
  trc_DefaultBurst :: int
  trc_UseDefaultBurst :: bool
  trc_CleanupTTL :: go_duration
  trc_FailOpen :: bool
  trc_TrustedProxyCIDRs :: "string list"

definition NewTenantRateLimiter :: "TenantRateLimiterConfig \<Rightarrow> ('l, 'd) TenantRateLimiter" where
  "NewTenantRateLimiter cfg =
     (let defaultRPM = (if trc_DefaultRPM cfg \<le> 0 then 60 else trc_DefaultRPM cfg);
          defaultBurst = (if trc_DefaultBurst cfg \<le> 0 then 10 else trc_DefaultBurst cfg);
          cleanupTTL = (if trc_CleanupTTL cfg \<le> 0 then 10 * minute else trc_CleanupTTL cfg)
      in \<lparr>trl_limiters = Map.empty, trl_defaultRate = of_int defaultRPM / 60, trl_defaultBurst = defaultBurst,
          trl_useDefaultBurst = trc_UseDefaultBurst cfg, trl_cleanupTTL = cleanupTTL,
          trl_lastAccess = Map.empty, trl_distributedLimiter = None, trl_failOpen = trc_FailOpen cfg,
          trl_trustedProxies = fst (parseTrustedProxyCIDRs (trc_TrustedProxyCIDRs cfg))\<rparr>)"

definition SetDistributedLimiter :: "'d option \<Rightarrow> ('l, 'd) TenantRateLimiter \<Rightarrow> ('l, 'd) TenantRateLimiter" where
  "SetDistributedLimiter l trl = trl\<lparr>trl_distributedLimiter := l\<rparr>"

text \<open>The limiter of a tenant, created with the given rate and burst if there is none.\<close>

definition getLimiter ::
  "'l RateLib \<Rightarrow> go_time \<Rightarrow> string \<Rightarrow> int \<Rightarrow> int \<Rightarrow> ('l, 'd) TenantRateLimiter \<Rightarrow> 'l \<times> ('l, 'd) TenantRateLimiter" where
  "getLimiter lib t tenantID rpm burst trl =
     (case trl_limiters trl tenantID of
        Some limiter \<Rightarrow> (limiter, trl\<lparr>trl_lastAccess := (trl_lastAccess trl)(tenantID \<mapsto> t)\<rparr>)
      | None \<Rightarrow>
          (let r = (if rpm > 0 then of_int rpm / 60 else trl_defaultRate trl);
               b = (if burst > 0 then burst else trl_defaultBurst trl);
               limiter = rate_NewLimiter lib r b
           in (limiter, trl\<lparr>trl_limiters := (trl_limiters trl)(tenantID \<mapsto> limiter),
                            trl_lastAccess := (trl_lastAccess trl)(tenantID \<mapsto> t)\<rparr>)))"

text \<open>
  The limiter is shared by reference, so what \<open>AllowN\<close> takes from it stays taken. Two clocks: of
  the access and of the decision.
\<close>

definition limiter_AllowN ::
  "'l RateLib \<Rightarrow> go_time \<Rightarrow> go_time \<Rightarrow> string \<Rightarrow> int \<Rightarrow> int \<Rightarrow> int \<Rightarrow> ('l, 'd) TenantRateLimiter \<Rightarrow>
   bool \<times> ('l, 'd) TenantRateLimiter" where
  "limiter_AllowN lib t1 t2 tenantID rpm burst n trl =
     (let (limiter, trl1) = getLimiter lib t1 tenantID rpm burst trl;
          (ok, limiter1) = rate_AllowN lib t2 n limiter
      in (ok, trl1\<lparr>trl_limiters := (trl_limiters trl1)(tenantID \<mapsto> limiter1)\<rparr>))"

definition trl_Allow ::
  "'l RateLib \<Rightarrow> go_time \<Rightarrow> go_time \<Rightarrow> string \<Rightarrow> ('l, 'd) TenantRateLimiter \<Rightarrow> bool \<times> ('l, 'd) TenantRateLimiter" where
  "trl_Allow lib t1 t2 tenantID trl = limiter_AllowN lib t1 t2 tenantID 0 0 1 trl"

definition trl_AllowN ::
  "'l RateLib \<Rightarrow> go_time \<Rightarrow> go_time \<Rightarrow> string \<Rightarrow> int \<Rightarrow> ('l, 'd) TenantRateLimiter \<Rightarrow> bool \<times> ('l, 'd) TenantRateLimiter" where
  "trl_AllowN lib t1 t2 tenantID n trl = limiter_AllowN lib t1 t2 tenantID 0 0 n trl"

definition AllowWithCustomRate ::
  "'l RateLib \<Rightarrow> go_time \<Rightarrow> go_time \<Rightarrow> string \<Rightarrow> int \<Rightarrow> int \<Rightarrow> ('l, 'd) TenantRateLimiter \<Rightarrow>
   bool \<times> ('l, 'd) TenantRateLimiter" where
  "AllowWithCustomRate lib t1 t2 tenantID rpm burst trl = limiter_AllowN lib t1 t2 tenantID rpm burst 1 trl"

text \<open>The interface of the distributed limiter, as in \<open>client.go\<close>.\<close>

type_synonym 'd check_allow = "Descriptor list \<Rightarrow> 'd \<Rightarrow> (go_error + LimitResult list) \<times> 'd"

definition trl_Check ::
  "'l RateLib \<Rightarrow> 'd check_allow \<Rightarrow> go_time \<Rightarrow> go_time \<Rightarrow> string \<Rightarrow> int \<Rightarrow> int \<Rightarrow> ('l, 'd) TenantRateLimiter \<Rightarrow>
   bool \<times> ('l, 'd) TenantRateLimiter" where
  "trl_Check lib checkAllow t1 t2 tenantID rpm burst trl =
     (case trl_distributedLimiter trl of
        Some backend \<Rightarrow>
          (let desc = \<lparr>ds_Key = tenantID, ds_Value = ''request'',
                       ds_Limit = (if rpm \<le> 0 then \<lfloor>trl_defaultRate trl * 60\<rfloor> else rpm),
                       ds_Type = LimitTypeRequests, ds_Increment = 0, ds_Window = minute\<rparr>;
               (res, backend1) = checkAllow [desc] backend
           in (case res of Inr (r # _) \<Rightarrow> lr_Allowed r | _ \<Rightarrow> trl_failOpen trl,
               trl\<lparr>trl_distributedLimiter := Some backend1\<rparr>))
      | None \<Rightarrow> AllowWithCustomRate lib t1 t2 tenantID rpm burst trl)"

definition trl_SetRate ::
  "'l RateLib \<Rightarrow> go_time \<Rightarrow> string \<Rightarrow> int \<Rightarrow> int \<Rightarrow> ('l, 'd) TenantRateLimiter \<Rightarrow> ('l, 'd) TenantRateLimiter" where
  "trl_SetRate lib t tenantID rpm burst trl =
     (let r = of_int rpm / 60;
          limiter = (case trl_limiters trl tenantID of
                       Some l \<Rightarrow> rate_SetBurst lib t burst (rate_SetLimit lib t r l)
                     | None \<Rightarrow> rate_NewLimiter lib r burst)
      in trl\<lparr>trl_limiters := (trl_limiters trl)(tenantID \<mapsto> limiter),
             trl_lastAccess := (trl_lastAccess trl)(tenantID \<mapsto> t)\<rparr>)"

definition trl_Remove :: "string \<Rightarrow> ('l, 'd) TenantRateLimiter \<Rightarrow> ('l, 'd) TenantRateLimiter" where
  "trl_Remove tenantID trl =
     trl\<lparr>trl_limiters := (trl_limiters trl)(tenantID := None), trl_lastAccess := (trl_lastAccess trl)(tenantID := None)\<rparr>"

definition trl_cleanup :: "go_time \<Rightarrow> ('l, 'd) TenantRateLimiter \<Rightarrow> ('l, 'd) TenantRateLimiter" where
  "trl_cleanup now trl =
     (let stale = (\<lambda>i. case trl_lastAccess trl i of None \<Rightarrow> False | Some a \<Rightarrow> now - a > trl_cleanupTTL trl)
      in trl\<lparr>trl_limiters := (\<lambda>i. if stale i then None else trl_limiters trl i),
             trl_lastAccess := (\<lambda>i. if stale i then None else trl_lastAccess trl i)\<rparr>)"

definition burstForRate :: "('l, 'd) TenantRateLimiter \<Rightarrow> int \<Rightarrow> int \<Rightarrow> int" where
  "burstForRate trl rpm minBurst =
     (let burst0 = go_div rpm 6;
          burst = (if burst0 < minBurst then minBurst else burst0)
      in if trl_useDefaultBurst trl \<and> trl_defaultBurst trl > 0
         then if trl_defaultBurst trl < burst then trl_defaultBurst trl else burst
         else burst)"

definition AnonymousKey :: "('l, 'd) TenantRateLimiter \<Rightarrow> AddrRequest option \<Rightarrow> string" where
  "AnonymousKey trl r = anonymousRateLimitKey r (trl_trustedProxies trl)"

text \<open>A limit that is set and positive.\<close>

definition positive_limit :: "int option \<Rightarrow> int option" where
  "positive_limit l = (case l of Some n \<Rightarrow> if n > 0 then Some n else None | None \<Rightarrow> None)"

text \<open>The check of the team, if it has a limit.\<close>

definition check_team ::
  "'l RateLib \<Rightarrow> 'd check_allow \<Rightarrow> go_time \<Rightarrow> go_time \<Rightarrow> Team option \<Rightarrow> ('l, 'd) TenantRateLimiter \<Rightarrow>
   bool \<times> ('l, 'd) TenantRateLimiter" where
  "check_team lib checkAllow t1 t2 team trl =
     (case team of
        None \<Rightarrow> (True, trl)
      | Some tm \<Rightarrow>
          (case positive_limit (tm_RPMLimit tm) of
             None \<Rightarrow> (True, trl)
           | Some teamRPM \<Rightarrow>
               trl_Check lib checkAllow t1 t2 (''team:'' @ tm_ID tm) teamRPM (burstForRate trl teamRPM 0) trl))"

text \<open>The middleware; four clocks, two for the team and two for the tenant.\<close>

definition RateLimitMiddleware ::
  "'l RateLib \<Rightarrow> 'd check_allow \<Rightarrow> (nat \<Rightarrow> go_time) \<Rightarrow> AddrRequest \<Rightarrow> AuthContext option \<Rightarrow> ('l, 'd) TenantRateLimiter \<Rightarrow>
   auth_result \<times> ('l, 'd) TenantRateLimiter" where
  "RateLimitMiddleware lib checkAllow clock r auth trl =
     (case Option.bind auth ac_APIKey of
        None \<Rightarrow>
          (let tenantID = anonymousRateLimitKey (Some r) (trl_trustedProxies trl);
               (allowed, trl1) = trl_Check lib checkAllow (clock 0) (clock 1) tenantID 0 0 trl
           in (if \<not> allowed then Rejected 429 ''rate limit exceeded'' else Served auth, trl1))
      | Some key \<Rightarrow>
          (let rpm = (case ak_RPMLimit key of Some n \<Rightarrow> n | None \<Rightarrow> 0);
               burst = burstForRate trl rpm 1;
               (teamOK, trl1) = check_team lib checkAllow (clock 0) (clock 1) (Option.bind auth ac_Team) trl
           in if \<not> teamOK then (Rejected 429 ''team rate limit exceeded'', trl1)
              else let (allowed, trl2) =
                         (if rpm > 0 then trl_Check lib checkAllow (clock 2) (clock 3) (ak_ID key) rpm burst trl1
                          else trl_Check lib checkAllow (clock 2) (clock 3) (ak_ID key) 0 0 trl1)
                   in (if \<not> allowed then Rejected 429 ''rate limit exceeded'' else Served auth, trl2)))"

section \<open>Tenants do not affect each other\<close>

record tenant_call =
  tc_access :: go_time
  tc_now :: go_time
  tc_tenant :: string
  tc_rpm :: int
  tc_burst :: int

definition check_call ::
  "'l RateLib \<Rightarrow> 'd check_allow \<Rightarrow> tenant_call \<Rightarrow> ('l, 'd) TenantRateLimiter \<Rightarrow> bool \<times> ('l, 'd) TenantRateLimiter" where
  "check_call lib checkAllow c trl =
     trl_Check lib checkAllow (tc_access c) (tc_now c) (tc_tenant c) (tc_rpm c) (tc_burst c) trl"

fun check_calls ::
  "'l RateLib \<Rightarrow> 'd check_allow \<Rightarrow> tenant_call list \<Rightarrow> ('l, 'd) TenantRateLimiter \<Rightarrow> (tenant_call \<times> bool) list" where
  "check_calls lib checkAllow [] trl = []"
| "check_calls lib checkAllow (c # cs) trl =
     (case check_call lib checkAllow c trl of (ok, trl1) \<Rightarrow> (c, ok) # check_calls lib checkAllow cs trl1)"

text \<open>Two limiters that a tenant cannot tell apart.\<close>

definition same_for :: "string \<Rightarrow> ('l, 'd) TenantRateLimiter \<Rightarrow> ('l, 'd) TenantRateLimiter \<Rightarrow> bool" where
  "same_for i a b \<longleftrightarrow>
     trl_limiters a i = trl_limiters b i \<and> trl_defaultRate a = trl_defaultRate b \<and>
     trl_defaultBurst a = trl_defaultBurst b \<and> trl_distributedLimiter a = None \<and> trl_distributedLimiter b = None"

lemma local_check:
  "trl_distributedLimiter trl = None \<Longrightarrow>
   check_call lib checkAllow c trl =
     limiter_AllowN lib (tc_access c) (tc_now c) (tc_tenant c) (tc_rpm c) (tc_burst c) 1 trl"
  by (simp add: check_call_def trl_Check_def AllowWithCustomRate_def)

lemma other_tenant_same:
  "same_for i a b \<Longrightarrow> tc_tenant c \<noteq> i \<Longrightarrow> same_for i (snd (check_call lib checkAllow c a)) b"
  by (auto simp: same_for_def local_check limiter_AllowN_def getLimiter_def Let_def split: option.split prod.split)

lemma own_check_same:
  assumes "same_for (tc_tenant c) a b"
  shows "fst (check_call lib checkAllow c a) = fst (check_call lib checkAllow c b)"
    and "same_for (tc_tenant c) (snd (check_call lib checkAllow c a)) (snd (check_call lib checkAllow c b))"
  using assms
  by (auto simp: same_for_def local_check limiter_AllowN_def getLimiter_def Let_def split: option.split prod.split)

lemma check_calls_same:
  "same_for i a b \<Longrightarrow>
   filter (\<lambda>(c, ok). tc_tenant c = i) (check_calls lib checkAllow cs a) =
   check_calls lib checkAllow (filter (\<lambda>c. tc_tenant c = i) cs) b"
proof (induction cs arbitrary: a b)
  case (Cons c cs)
  obtain ok a1 where a1: "check_call lib checkAllow c a = (ok, a1)" by fastforce
  obtain ok' b1 where b1: "check_call lib checkAllow c b = (ok', b1)" by fastforce
  show ?case
  proof (cases "tc_tenant c = i")
    case True
    then have "ok = ok'" "same_for i a1 b1" using own_check_same [of c a b lib checkAllow] Cons.prems a1 b1 by auto
    then show ?thesis using Cons.IH [of a1 b1] True a1 b1 by simp
  next
    case False
    then have "same_for i a1 b" using other_tenant_same [OF Cons.prems, of c lib checkAllow] a1 by simp
    then show ?thesis using Cons.IH [of a1 b] False a1 by simp
  qed
qed simp

text \<open>
  \<^bold>\<open>C32\<close>. Tenants are isolated from each other: with local limiters, whether the requests of a
  tenant are let through is what it would be if no other tenant had sent any, for every
  interleaving of the requests and whatever the token bucket of the library does.
\<close>

theorem tenant_isolation:
  fixes trl :: "('l, 'd) TenantRateLimiter"
  assumes "trl_distributedLimiter trl = None"
  shows "filter (\<lambda>(c, ok). tc_tenant c = i) (check_calls lib checkAllow cs trl) =
    check_calls lib checkAllow (filter (\<lambda>c. tc_tenant c = i) cs) trl"
  by (rule check_calls_same) (simp add: same_for_def assms)

text \<open>A bucket of tokens that are never given back.\<close>

definition burst_only :: "int RateLib" where
  "burst_only =
     \<lparr>rate_NewLimiter = (\<lambda>r b. b), rate_AllowN = (\<lambda>t n l. if n \<le> l then (True, l - n) else (False, l)),
      rate_SetLimit = (\<lambda>t r l. l), rate_SetBurst = (\<lambda>t b l. b)\<rparr>"

theorem tenant_isolation_witness:
  "let trl = NewTenantRateLimiter \<lparr>trc_DefaultRPM = 60, trc_DefaultBurst = 1, trc_UseDefaultBurst = False,
       trc_CleanupTTL = 0, trc_FailOpen = False, trc_TrustedProxyCIDRs = []\<rparr> :: (int, unit) TenantRateLimiter;
     call = (\<lambda>i t. \<lparr>tc_access = t, tc_now = t, tc_tenant = i, tc_rpm = 0, tc_burst = 0\<rparr>);
     cs = [call ''a'' 1, call ''b'' 2, call ''a'' 3]
   in filter (\<lambda>(c, ok). tc_tenant c = ''b'') (check_calls burst_only (\<lambda>_ s. (Inr [], s)) cs trl) = [(call ''b'' 2, True)]"
proof -
  let ?trl = "NewTenantRateLimiter \<lparr>trc_DefaultRPM = 60, trc_DefaultBurst = 1, trc_UseDefaultBurst = False,
       trc_CleanupTTL = 0, trc_FailOpen = False, trc_TrustedProxyCIDRs = []\<rparr> :: (int, unit) TenantRateLimiter"
  let ?call = "\<lambda>i t. \<lparr>tc_access = t, tc_now = t, tc_tenant = i, tc_rpm = 0, tc_burst = 0\<rparr>"
  have "trl_distributedLimiter ?trl = None" by (simp add: NewTenantRateLimiter_def Let_def)
  from tenant_isolation [OF this, of "''b''" burst_only "\<lambda>_ s. (Inr [], s)" "[?call ''a'' 1, ?call ''b'' 2, ?call ''a'' 3]"]
  show ?thesis
    by (simp add: Let_def check_call_def trl_Check_def AllowWithCustomRate_def limiter_AllowN_def getLimiter_def
        NewTenantRateLimiter_def burst_only_def)
qed

end
