(* ===== verification/Audit_Log.thy ===== *)
theory Audit_Log
  imports Auth_Store
begin

text \<open>
  The audit log (\<open>internal/auth/audit.go\<close>, \<open>audit_memory.go\<close>): the entries, the logger that writes
  them and the store in memory, with its own sorting. Identifiers are those of a UUID library
  and arguments, as are the readings of the clock.
\<close>

section \<open>Entries\<close>

text \<open>
  A value of type \<open>any\<close>, as JSON has them. Comparing two maps or two slices through the interface
  type panics, which is \<^const>\<open>None\<close>.
\<close>

datatype go_value = VNil | VBool bool | VString string | VInt int | VFloat float64
  | VMap "(string \<times> go_value) list" | VSlice "go_value list"

fun any_equal :: "go_value \<Rightarrow> go_value \<Rightarrow> bool option" where
  "any_equal (VMap a) (VMap b) = None"
| "any_equal (VSlice a) (VSlice b) = None"
| "any_equal a b = Some (a = b)"

type_synonym AuditAction = string
type_synonym AuditObjectType = string

definition AuditActionLogin :: AuditAction where "AuditActionLogin = ''login''"
definition AuditActionLoginFailed :: AuditAction where "AuditActionLoginFailed = ''login_failed''"
definition AuditActionBudgetExceeded :: AuditAction where "AuditActionBudgetExceeded = ''budget_exceeded''"
definition AuditObjectAPIKey :: AuditObjectType where "AuditObjectAPIKey = ''api_key''"
definition AuditObjectTeam :: AuditObjectType where "AuditObjectTeam = ''team''"
definition AuditObjectOrganization :: AuditObjectType where "AuditObjectOrganization = ''organization''"
definition AuditObjectUser :: AuditObjectType where "AuditObjectUser = ''user''"
definition AuditObjectEndUser :: AuditObjectType where "AuditObjectEndUser = ''end_user''"

record AuditLog =
  al_ID :: string
  al_Timestamp :: go_time
  al_ActorID :: string
  al_ActorType :: string
  al_ActorEmail :: string
  al_ActorIP :: string
  al_Action :: AuditAction
  al_ObjectType :: AuditObjectType
  al_ObjectID :: string
  al_TeamID :: "string option"
  al_OrganizationID :: "string option"
  al_BeforeValue :: "(string \<rightharpoonup> go_value) option"
  al_AfterValue :: "(string \<rightharpoonup> go_value) option"
  al_Diff :: "(string \<rightharpoonup> go_value) option"
  al_RequestID :: string
  al_UserAgent :: string
  al_RequestURI :: string
  al_Success :: bool
  al_Error :: string
  al_Metadata :: Metadata

definition zero_audit_log :: AuditLog where
  "zero_audit_log =
     \<lparr>al_ID = [], al_Timestamp = 0, al_ActorID = [], al_ActorType = [], al_ActorEmail = [], al_ActorIP = [],
      al_Action = [], al_ObjectType = [], al_ObjectID = [], al_TeamID = None, al_OrganizationID = None,
      al_BeforeValue = None, al_AfterValue = None, al_Diff = None, al_RequestID = [], al_UserAgent = [],
      al_RequestURI = [], al_Success = False, al_Error = [], al_Metadata = Map.empty\<rparr>"

text \<open>The difference of two maps; it panics when values that cannot be compared meet.\<close>

definition diff_entry :: "go_value \<Rightarrow> go_value \<Rightarrow> go_value" where
  "diff_entry before after = VMap [(''before'', before), (''after'', after)]"

definition diff_panics :: "string list \<Rightarrow> (string \<rightharpoonup> go_value) \<Rightarrow> (string \<rightharpoonup> go_value) \<Rightarrow> bool" where
  "diff_panics keys before after =
     list_ex (\<lambda>k. case (before k, after k) of (Some a, Some b) \<Rightarrow> any_equal a b = None | _ \<Rightarrow> False) keys"

text \<open>\<open>keys\<close> lists the keys of the map \<open>after\<close>, over which the code iterates.\<close>

definition calculateDiff ::
  "string list \<Rightarrow> (string \<rightharpoonup> go_value) \<Rightarrow> (string \<rightharpoonup> go_value) \<Rightarrow> (string \<rightharpoonup> go_value) option" where
  "calculateDiff keys before after =
     (if diff_panics keys before after then None
      else Some (\<lambda>k. case (before k, after k) of
                       (Some a, Some b) \<Rightarrow> if any_equal a b = Some True then None else Some (diff_entry a b)
                     | (None, Some b) \<Rightarrow> Some (diff_entry VNil b)
                     | (Some a, None) \<Rightarrow> Some (diff_entry a VNil)
                     | (None, None) \<Rightarrow> None))"

section \<open>The store in memory\<close>

type_synonym MemoryAuditLogStore = "AuditLog list"

definition NewMemoryAuditLogStore :: MemoryAuditLogStore where
  "NewMemoryAuditLogStore = []"

text \<open>The zero time is time zero.\<close>

definition CreateAuditLog :: "string \<Rightarrow> go_time \<Rightarrow> AuditLog \<Rightarrow> MemoryAuditLogStore \<Rightarrow> MemoryAuditLogStore" where
  "CreateAuditLog newID now entry s =
     (let entry1 = (if al_ID entry = [] then entry\<lparr>al_ID := newID\<rparr> else entry);
          entry2 = (if al_Timestamp entry1 = 0 then entry1\<lparr>al_Timestamp := now\<rparr> else entry1)
      in s @ [entry2])"

definition GetAuditLog :: "string \<Rightarrow> MemoryAuditLogStore \<Rightarrow> AuditLog option" where
  "GetAuditLog i s = find (\<lambda>entry. al_ID entry = i) s"

record AuditLogFilter =
  af_ActorID :: "string option"
  af_ActorType :: "string option"
  af_Action :: "AuditAction option"
  af_ObjectType :: "AuditObjectType option"
  af_ObjectID :: "string option"
  af_TeamID :: "string option"
  af_OrganizationID :: "string option"
  af_StartTime :: go_time
  af_EndTime :: go_time
  af_Success :: "bool option"
  af_Limit :: int
  af_Offset :: int

definition wanted :: "'a option \<Rightarrow> 'a \<Rightarrow> bool" where
  "wanted w x = (case w of None \<Rightarrow> True | Some y \<Rightarrow> x = y)"

definition matchesFilter :: "AuditLog \<Rightarrow> AuditLogFilter \<Rightarrow> bool" where
  "matchesFilter entry f =
     (if af_StartTime f \<noteq> 0 \<and> al_Timestamp entry < af_StartTime f then False
      else if af_EndTime f \<noteq> 0 \<and> al_Timestamp entry > af_EndTime f then False
      else wanted (af_ActorID f) (al_ActorID entry) \<and> wanted (af_ActorType f) (al_ActorType entry) \<and>
           wanted (af_Action f) (al_Action entry) \<and> wanted (af_ObjectType f) (al_ObjectType entry) \<and>
           wanted (af_ObjectID f) (al_ObjectID entry) \<and>
           (af_TeamID f = None \<or> al_TeamID entry = af_TeamID f) \<and>
           (af_OrganizationID f = None \<or> al_OrganizationID entry = af_OrganizationID f) \<and>
           wanted (af_Success f) (al_Success entry))"

text \<open>
  The bubble sort: one pass over the first \<open>n\<close> positions, and the passes, each one shorter.
\<close>

fun bubble_pass :: "nat \<Rightarrow> nat \<Rightarrow> AuditLog list \<Rightarrow> AuditLog list" where
  "bubble_pass j 0 xs = xs"
| "bubble_pass j (Suc n) xs =
     bubble_pass (Suc j) n
       (if al_Timestamp (xs ! j) < al_Timestamp (xs ! Suc j) then swap_at j (Suc j) xs else xs)"

fun bubble_passes :: "nat \<Rightarrow> AuditLog list \<Rightarrow> AuditLog list" where
  "bubble_passes 0 xs = xs"
| "bubble_passes (Suc n) xs = bubble_passes n (bubble_pass 0 (Suc n) xs)"

definition bubble_sort :: "AuditLog list \<Rightarrow> AuditLog list" where
  "bubble_sort xs = bubble_passes (length xs - 1) xs"

definition ListAuditLogs :: "AuditLogFilter \<Rightarrow> MemoryAuditLogStore \<Rightarrow> (AuditLog list \<times> int) option" where
  "ListAuditLogs f s = page (af_Offset f) (af_Limit f) (bubble_sort (filter (\<lambda>entry. matchesFilter entry f) s))"

record AuditLogStats =
  as_TotalEvents :: int
  as_SuccessCount :: int
  as_FailureCount :: int
  as_UniqueActors :: int
  as_ActionCounts :: "string \<rightharpoonup> int"
  as_ObjectTypeCounts :: "string \<rightharpoonup> int"

definition count_up :: "string \<Rightarrow> (string \<rightharpoonup> int) \<Rightarrow> (string \<rightharpoonup> int)" where
  "count_up k m = m(k \<mapsto> (case m k of Some n \<Rightarrow> n | None \<Rightarrow> 0) + 1)"

definition stats_step :: "AuditLogFilter \<Rightarrow> AuditLog \<Rightarrow> AuditLogStats \<times> string list \<Rightarrow> AuditLogStats \<times> string list" where
  "stats_step f entry acc =
     (case acc of (st, actors) \<Rightarrow>
        if \<not> matchesFilter entry f then acc
        else (st\<lparr>as_TotalEvents := as_TotalEvents st + 1,
                 as_SuccessCount := (if al_Success entry then as_SuccessCount st + 1 else as_SuccessCount st),
                 as_FailureCount := (if al_Success entry then as_FailureCount st else as_FailureCount st + 1),
                 as_ActionCounts := count_up (al_Action entry) (as_ActionCounts st),
                 as_ObjectTypeCounts := count_up (al_ObjectType entry) (as_ObjectTypeCounts st)\<rparr>,
              List.insert (al_ActorID entry) actors))"

definition GetAuditLogStats :: "AuditLogFilter \<Rightarrow> MemoryAuditLogStore \<Rightarrow> AuditLogStats" where
  "GetAuditLogStats f s =
     (case fold (stats_step f) s
             (\<lparr>as_TotalEvents = 0, as_SuccessCount = 0, as_FailureCount = 0, as_UniqueActors = 0,
               as_ActionCounts = Map.empty, as_ObjectTypeCounts = Map.empty\<rparr>, []) of
        (st, actors) \<Rightarrow> st\<lparr>as_UniqueActors := int (length actors)\<rparr>)"

definition DeleteAuditLogs :: "go_time \<Rightarrow> MemoryAuditLogStore \<Rightarrow> int \<times> MemoryAuditLogStore" where
  "DeleteAuditLogs olderThan s =
     (int (length (filter (\<lambda>entry. al_Timestamp entry < olderThan) s)),
      filter (\<lambda>entry. \<not> al_Timestamp entry < olderThan) s)"

section \<open>The logger\<close>

text \<open>
  The logger writes to a store through an interface; \<open>create\<close> is its \<open>CreateAuditLog\<close>. A logger
  may be switched off and its store may be missing.
\<close>

record 'a AuditLogger =
  lg_store :: "'a option"
  lg_enabled :: bool

definition NewAuditLogger :: "'a option \<Rightarrow> bool \<Rightarrow> 'a AuditLogger" where
  "NewAuditLogger store enabled = \<lparr>lg_store = store, lg_enabled = enabled\<rparr>"

definition audit_Log ::
  "(AuditLog \<Rightarrow> 'a \<Rightarrow> go_error option \<times> 'a) \<Rightarrow> AuditLog \<Rightarrow> 'a AuditLogger \<Rightarrow> go_error option \<times> 'a AuditLogger" where
  "audit_Log create entry al =
     (case lg_store al of
        Some s \<Rightarrow>
          (if \<not> lg_enabled al then (None, al)
           else case create entry s of (err, s1) \<Rightarrow> (err, al\<lparr>lg_store := Some s1\<rparr>))
      | None \<Rightarrow> (None, al))"

text \<open>The result is missing when the comparison of the values panics.\<close>

definition LogAction ::
  "(AuditLog \<Rightarrow> 'a \<Rightarrow> go_error option \<times> 'a) \<Rightarrow> string \<Rightarrow> go_time \<Rightarrow> string list \<Rightarrow> string \<Rightarrow> string \<Rightarrow> AuditAction \<Rightarrow>
   AuditObjectType \<Rightarrow> string \<Rightarrow> bool \<Rightarrow> (string \<rightharpoonup> go_value) option \<Rightarrow> (string \<rightharpoonup> go_value) option \<Rightarrow>
   'a AuditLogger \<Rightarrow> (go_error option \<times> 'a AuditLogger) option" where
  "LogAction create newID now keys actorID actorType action objectType objectID success beforeValue afterValue al =
     (if \<not> lg_enabled al then Some (None, al)
      else let entry = zero_audit_log\<lparr>al_ID := newID, al_Timestamp := now, al_ActorID := actorID,
                 al_ActorType := actorType, al_Action := action, al_ObjectType := objectType,
                 al_ObjectID := objectID, al_Success := success, al_BeforeValue := beforeValue,
                 al_AfterValue := afterValue\<rparr>
           in case (beforeValue, afterValue) of
                (Some b, Some a) \<Rightarrow>
                  map_option (\<lambda>d. audit_Log create (entry\<lparr>al_Diff := Some d\<rparr>) al) (calculateDiff keys b a)
              | _ \<Rightarrow> Some (audit_Log create entry al))"

definition LogAPIKeyAction ::
  "(AuditLog \<Rightarrow> 'a \<Rightarrow> go_error option \<times> 'a) \<Rightarrow> string \<Rightarrow> go_time \<Rightarrow> string \<Rightarrow> string \<Rightarrow> AuditAction \<Rightarrow> string \<Rightarrow> bool \<Rightarrow>
   Metadata \<Rightarrow> 'a AuditLogger \<Rightarrow> go_error option \<times> 'a AuditLogger" where
  "LogAPIKeyAction create newID now actorID actorType action keyID success metadata al =
     audit_Log create
       (zero_audit_log\<lparr>al_ID := newID, al_Timestamp := now, al_ActorID := actorID, al_ActorType := actorType,
          al_Action := action, al_ObjectType := AuditObjectAPIKey, al_ObjectID := keyID, al_Success := success,
          al_Metadata := metadata\<rparr>) al"

definition LogTeamAction ::
  "(AuditLog \<Rightarrow> 'a \<Rightarrow> go_error option \<times> 'a) \<Rightarrow> string \<Rightarrow> go_time \<Rightarrow> string \<Rightarrow> string \<Rightarrow> AuditAction \<Rightarrow> string \<Rightarrow>
   string option \<Rightarrow> bool \<Rightarrow> (string \<rightharpoonup> go_value) option \<Rightarrow> (string \<rightharpoonup> go_value) option \<Rightarrow>
   'a AuditLogger \<Rightarrow> go_error option \<times> 'a AuditLogger" where
  "LogTeamAction create newID now actorID actorType action teamID orgID success beforeValue afterValue al =
     audit_Log create
       (zero_audit_log\<lparr>al_ID := newID, al_Timestamp := now, al_ActorID := actorID, al_ActorType := actorType,
          al_Action := action, al_ObjectType := AuditObjectTeam, al_ObjectID := teamID, al_OrganizationID := orgID,
          al_Success := success, al_BeforeValue := beforeValue, al_AfterValue := afterValue\<rparr>) al"

definition LogUserAction ::
  "(AuditLog \<Rightarrow> 'a \<Rightarrow> go_error option \<times> 'a) \<Rightarrow> string \<Rightarrow> go_time \<Rightarrow> string \<Rightarrow> string \<Rightarrow> AuditAction \<Rightarrow> string \<Rightarrow>
   string option \<Rightarrow> string option \<Rightarrow> bool \<Rightarrow> (string \<rightharpoonup> go_value) option \<Rightarrow> (string \<rightharpoonup> go_value) option \<Rightarrow>
   'a AuditLogger \<Rightarrow> go_error option \<times> 'a AuditLogger" where
  "LogUserAction create newID now actorID actorType action userID teamID orgID success beforeValue afterValue al =
     audit_Log create
       (zero_audit_log\<lparr>al_ID := newID, al_Timestamp := now, al_ActorID := actorID, al_ActorType := actorType,
          al_Action := action, al_ObjectType := AuditObjectUser, al_ObjectID := userID, al_TeamID := teamID,
          al_OrganizationID := orgID, al_Success := success, al_BeforeValue := beforeValue,
          al_AfterValue := afterValue\<rparr>) al"

definition LogLoginAttempt ::
  "(AuditLog \<Rightarrow> 'a \<Rightarrow> go_error option \<times> 'a) \<Rightarrow> string \<Rightarrow> go_time \<Rightarrow> string \<Rightarrow> string \<Rightarrow> string \<Rightarrow> string \<Rightarrow> bool \<Rightarrow>
   string \<Rightarrow> 'a AuditLogger \<Rightarrow> go_error option \<times> 'a AuditLogger" where
  "LogLoginAttempt create newID now userID email ip userAgent success errorMsg al =
     audit_Log create
       (zero_audit_log\<lparr>al_ID := newID, al_Timestamp := now, al_ActorID := userID, al_ActorType := ''user'',
          al_ActorEmail := email, al_ActorIP := ip,
          al_Action := (if \<not> success then AuditActionLoginFailed else AuditActionLogin),
          al_ObjectType := AuditObjectUser, al_ObjectID := userID, al_Success := success, al_Error := errorMsg,
          al_UserAgent := userAgent\<rparr>) al"

section \<open>The sorting is a stable sort, the most recent entry first\<close>

abbreviation age :: "AuditLog \<Rightarrow> int" where
  "age x \<equiv> - al_Timestamp x"

text \<open>A pass as a function on the part of the list that it goes over.\<close>

fun bubble :: "AuditLog list \<Rightarrow> AuditLog list" where
  "bubble (x # y # zs) = (if age y < age x then y # bubble (x # zs) else x # bubble (y # zs))"
| "bubble xs = xs"

lemma bubble_length [simp]: "length (bubble xs) = length xs"
  by (induction xs rule: bubble.induct) auto

lemma bubble_pass_bubble:
  "length seg = Suc n \<Longrightarrow> bubble_pass (length as) n (as @ seg @ rest) = as @ bubble seg @ rest"
proof (induction n arbitrary: as seg)
  case 0
  then show ?case by (cases seg) simp_all
next
  case (Suc n)
  then obtain x y zs where seg: "seg = x # y # zs" "length zs = n" by (auto simp: length_Suc_conv)
  have swap: "swap_at (length as) (Suc (length as)) (as @ x # y # zs @ rest) = as @ y # x # zs @ rest"
    by (simp add: swap_at_def nth_append list_update_append)
  show ?case
    using Suc.IH [of "x # zs" "as @ [y]"] Suc.IH [of "y # zs" "as @ [x]"] seg swap
    by (simp add: nth_append)
qed

lemma bubble_mset: "mset (bubble xs) = mset xs"
  by (induction xs rule: bubble.induct) auto

lemma bubble_last:
  "xs \<noteq> [] \<Longrightarrow> \<forall>x\<in>set xs. age x \<le> age (List.last (bubble xs))"
proof (induction xs rule: bubble.induct)
  case (1 x y zs)
  have "bubble (w # zs) \<noteq> []" for w using bubble_length [of "w # zs"] by (metis length_0_conv list.simps(3))
  then show ?case using "1" by (cases "age y < age x") fastforce+
qed auto

lemma bubble_sort_key: "sort_key age (bubble xs @ rest) = sort_key age (xs @ rest)"
proof (induction xs rule: bubble.induct)
  case (1 x y zs)
  show ?case
  proof (cases "age y < age x")
    case True
    then have "insort_key age y (insort_key age x l) = insort_key age x (insort_key age y l)" for l
      by (intro insort_key_left_comm) simp
    then show ?thesis using True "1"(1) by simp
  qed (use "1"(2) in simp)
qed simp_all

lemma bubble_pass_sort_key:
  "n < length xs \<Longrightarrow> sort_key age (bubble_pass 0 n xs) = sort_key age xs \<and> length (bubble_pass 0 n xs) = length xs"
  using bubble_pass_bubble [of "take (Suc n) xs" n "[]" "drop (Suc n) xs"]
    bubble_sort_key [of "take (Suc n) xs" "drop (Suc n) xs"] bubble_length [of "take (Suc n) xs"]
  by simp

lemma bubble_passes_sort_key: "n < length xs \<Longrightarrow> sort_key age (bubble_passes n xs) = sort_key age xs"
  by (induction n arbitrary: xs) (simp_all add: bubble_pass_sort_key del: bubble_pass.simps)

lemma bubble_passes_sorted:
  "length seg = Suc n \<Longrightarrow> sorted (map age rest) \<Longrightarrow> \<forall>x\<in>set seg. \<forall>y\<in>set rest. age x \<le> age y \<Longrightarrow>
   sorted (map age (bubble_passes n (seg @ rest)))"
proof (induction n arbitrary: seg rest)
  case 0
  then show ?case by (cases seg) auto
next
  case (Suc n)
  have ne: "bubble seg \<noteq> []" using Suc.prems(1) bubble_length [of seg] by (metis Zero_not_Suc list.size(3))
  then obtain front m where b: "bubble seg = front @ [m]" by (metis rev_exhaust)
  have set: "set seg = set (front @ [m])" using bubble_mset [of seg] b by (metis set_mset_mset)
  have le: "\<forall>x\<in>set seg. age x \<le> age m" using bubble_last [of seg] Suc.prems(1) b by fastforce
  have "sorted (map age (bubble_passes n (front @ m # rest)))"
  proof (rule Suc.IH)
    show "length front = Suc n" using Suc.prems(1) bubble_length [of seg] b by simp
    show "sorted (map age (m # rest))" using Suc.prems(2,3) set by auto
    show "\<forall>x\<in>set front. \<forall>y\<in>set (m # rest). age x \<le> age y" using Suc.prems(3) set le by auto
  qed
  moreover have "bubble_pass 0 (Suc n) (seg @ rest) = front @ m # rest"
    using bubble_pass_bubble [of seg "Suc n" "[]" rest] Suc.prems(1) b by simp
  ultimately show ?case by (simp del: bubble_pass.simps)
qed

text \<open>
  \<^bold>\<open>C38\<close>. The hand-written sorting of the audit log is a stable sort: a page of the list is a page
  of the matching entries sorted by time, the most recent first, where entries of the same time
  stay in the order in which they were written.
\<close>

theorem audit_list_stable_sort:
  "ListAuditLogs f s =
     page (af_Offset f) (af_Limit f) (sort_key (\<lambda>x. - al_Timestamp x) (filter (\<lambda>x. matchesFilter x f) s))"
proof -
  have "bubble_sort xs = sort_key age xs" for xs
  proof (cases xs)
    case (Cons y ys)
    have "sorted (map age (bubble_sort xs))"
      using bubble_passes_sorted [of xs "length xs - 1" "[]"] Cons by (simp add: bubble_sort_def)
    then have "bubble_sort xs = sort_key age (bubble_sort xs)" by (simp add: sort_key_id_if_sorted)
    also have "\<dots> = sort_key age xs" using bubble_passes_sort_key [of "length xs - 1" xs] Cons by (simp add: bubble_sort_def)
    finally show ?thesis .
  qed (simp add: bubble_sort_def)
  then show ?thesis by (simp add: ListAuditLogs_def)
qed

text \<open>The difference of two maps determines the later one from the earlier one.\<close>

definition patch :: "(string \<rightharpoonup> go_value) \<Rightarrow> (string \<rightharpoonup> go_value) \<Rightarrow> (string \<rightharpoonup> go_value)" where
  "patch before diff =
     (\<lambda>k. case diff k of
            Some (VMap [(_, _), (_, after)]) \<Rightarrow> if after = VNil then None else Some after
          | _ \<Rightarrow> before k)"

lemma diff_patch:
  assumes "calculateDiff keys before after = Some d" and "VNil \<notin> ran after"
  shows "patch before d = after"
proof
  fix k
  have d: "d = (\<lambda>k. case (before k, after k) of
      (Some a, Some b) \<Rightarrow> if any_equal a b = Some True then None else Some (diff_entry a b)
    | (None, Some b) \<Rightarrow> Some (diff_entry VNil b)
    | (Some a, None) \<Rightarrow> Some (diff_entry a VNil)
    | (None, None) \<Rightarrow> None)"
    using assms(1) by (auto simp: calculateDiff_def split: if_splits)
  have eq: "any_equal a b = Some True \<Longrightarrow> a = b" for a b by (cases "(a, b)" rule: any_equal.cases) auto
  have "after k \<noteq> Some VNil" using assms(2) by (auto simp: ran_def)
  then show "patch before d k = after k"
    by (cases "before k"; cases "after k") (auto simp: d patch_def diff_entry_def dest: eq)
qed

end
