(* ===== verification/Governance.thy ===== *)
theory Governance
  imports Tenant_Limiter Audit_Log Auth_Properties
begin

text \<open>
  The governance engine (\<open>internal/governance\<close>): the checks before a request (model access,
  budgets, rate limits), the accounting after it, and the idempotency store that keeps a request
  from being charged twice. The store, the limiter and the audit log are those of the other
  theories; the policy enforcer and the token buckets are parameters as there.
\<close>

section \<open>Inputs and configuration\<close>

record GovConfig =
  gc_Enabled :: bool
  gc_AsyncAccounting :: bool
  gc_IdempotencyWindow :: go_duration
  gc_AuditEnabled :: bool

record RequestInput =
  ri_Request :: "AddrRequest option"
  ri_Model :: string
  ri_EndUserID :: string

record GovUsage =
  gu_PromptTokens :: int
  gu_CompletionTokens :: int
  gu_TotalTokens :: int
  gu_Cost :: float64
  gu_Provider :: string

record AccountInput =
  ai_RequestID :: string
  ai_Model :: string
  ai_CallType :: string
  ai_EndUserID :: string
  ai_RequestTags :: "string list"
  ai_Usage :: GovUsage
  ai_Start :: go_time
  ai_Latency :: go_duration
  ai_StatusCode :: "int option"
  ai_Status :: "string option"

section \<open>Request identifiers\<close>

text \<open>
  A request is identified by the header \<open>X-Request-ID\<close> of the client, if that is well-formed, and
  otherwise by random bytes (\<open>internal/observability/requestid.go\<close>).
\<close>

definition maxRequestIDLen :: nat where
  "maxRequestIDLen = 128"

definition request_id_char :: "char \<Rightarrow> bool" where
  "request_id_char c =
     (let n = of_char c :: nat
      in 97 \<le> n \<and> n \<le> 122 \<or> 65 \<le> n \<and> n \<le> 90 \<or> 48 \<le> n \<and> n \<le> 57 \<or> c \<in> {CHR ''-'', CHR ''_'', CHR ''.''})"

definition sanitizeRequestID :: "string \<Rightarrow> string option" where
  "sanitizeRequestID value0 =
     (let value = TrimSpace value0
      in if value = [] \<or> length value > maxRequestIDLen then None
         else if list_all request_id_char value then Some value else None)"

definition GenerateRequestID :: "go_error + string \<Rightarrow> string" where
  "GenerateRequestID random = (case random of Inl _ \<Rightarrow> ''req-fallback'' | Inr b \<Rightarrow> hex_EncodeToString b)"

definition RequestIDMiddleware :: "go_error + string \<Rightarrow> string \<Rightarrow> string" where
  "RequestIDMiddleware random header =
     (case sanitizeRequestID header of Some sanitized \<Rightarrow> sanitized | None \<Rightarrow> GenerateRequestID random)"

text \<open>The identifier in the context, or a new one; a context without one has the empty string.\<close>

definition GetOrCreateRequestID :: "go_error + string \<Rightarrow> string \<Rightarrow> string" where
  "GetOrCreateRequestID random have = (if have \<noteq> [] then have else GenerateRequestID random)"

section \<open>The idempotency store\<close>

type_synonym MemoryIdempotencyStore = "string \<rightharpoonup> go_time"

definition NewMemoryIdempotencyStore :: MemoryIdempotencyStore where
  "NewMemoryIdempotencyStore = Map.empty"

definition PutIfAbsent :: "string \<Rightarrow> go_duration \<Rightarrow> go_time \<Rightarrow> MemoryIdempotencyStore \<Rightarrow> bool \<times> MemoryIdempotencyStore" where
  "PutIfAbsent key ttl now entries =
     (if key = [] then (True, entries)
      else if (case entries key of Some expiresAt \<Rightarrow> expiresAt > now | None \<Rightarrow> False) then (False, entries)
      else if ttl \<le> 0 then (True, entries(key := None))
      else (True, entries(key \<mapsto> now + ttl)))"

text \<open>The store in Redis; \<open>setNX\<close> is the command of the client library.\<close>

definition redis_PutIfAbsent ::
  "(string \<Rightarrow> string \<Rightarrow> go_duration \<Rightarrow> 'r \<Rightarrow> (go_error + bool) \<times> 'r) \<Rightarrow> string \<Rightarrow> string \<Rightarrow> go_duration \<Rightarrow> 'r \<Rightarrow>
   (go_error + bool) \<times> 'r" where
  "redis_PutIfAbsent setNX keyPrefix key ttl r =
     (if key = [] then (Inr True, r)
      else if ttl \<le> 0 then (Inr True, r)
      else setNX (keyPrefix @ key) ''1'' ttl r)"

section \<open>The engine\<close>

text \<open>What the engine calls, by interface or library.\<close>

record ('s, 'l, 'd, 'i, 'e, 'a) GovEnv =
  ge_ops :: "'s AuthOps"
  ge_rate :: "'l RateLib"
  ge_checkAllow :: "'d check_allow"
  ge_putIfAbsent :: "string \<Rightarrow> go_duration \<Rightarrow> go_time \<Rightarrow> 'i \<Rightarrow> (go_error + bool) \<times> 'i"
  ge_enforcer :: "'e Enforcer"
  ge_createAudit :: "AuditLog \<Rightarrow> 'a \<Rightarrow> go_error option \<times> 'a"

text \<open>Every part of the engine but its configuration may be missing.\<close>

record ('s, 'l, 'd, 'i, 'e, 'a) Engine =
  eg_store :: "'s option"
  eg_rateLimiter :: "('l, 'd) TenantRateLimiter option"
  eg_auditLogger :: "'a AuditLogger option"
  eg_idempotency :: "'i option"
  eg_config :: GovConfig
  eg_enforcer :: "'e option"

definition UpdateConfig ::
  "GovConfig \<Rightarrow> ('s, 'l, 'd, 'i, 'e, 'a) Engine \<Rightarrow> ('s, 'l, 'd, 'i, 'e, 'a) Engine" where
  "UpdateConfig cfg e = e\<lparr>eg_config := cfg\<rparr>"

definition teamIDFromAuth :: "AuthContext option \<Rightarrow> string" where
  "teamIDFromAuth auth =
     (case auth of
        None \<Rightarrow> []
      | Some c \<Rightarrow>
          (case ac_Team c of
             Some t \<Rightarrow> tm_ID t
           | None \<Rightarrow>
               (case Option.bind (ac_APIKey c) ak_TeamID of
                  Some i \<Rightarrow> i
                | None \<Rightarrow> (case Option.bind (ac_User c) usr_TeamID of Some i \<Rightarrow> i | None \<Rightarrow> []))))"

definition userIDFromAuth :: "AuthContext option \<Rightarrow> string" where
  "userIDFromAuth auth =
     (case auth of
        None \<Rightarrow> []
      | Some c \<Rightarrow>
          (case ac_User c of
             Some u \<Rightarrow> usr_ID u
           | None \<Rightarrow> (case Option.bind (ac_APIKey c) ak_UserID of Some i \<Rightarrow> i | None \<Rightarrow> [])))"

definition orgIDFromAuth :: "AuthContext option \<Rightarrow> string" where
  "orgIDFromAuth auth =
     (case auth of
        None \<Rightarrow> []
      | Some c \<Rightarrow>
          (case Option.bind (ac_APIKey c) ak_OrganizationID of
             Some i \<Rightarrow> i
           | None \<Rightarrow>
               (case Option.bind (ac_User c) usr_OrganizationID of
                  Some i \<Rightarrow> i
                | None \<Rightarrow> (case Option.bind (ac_Team c) tm_OrganizationID of Some i \<Rightarrow> i | None \<Rightarrow> []))))"

definition auditActor :: "AuthContext option \<Rightarrow> string \<times> string" where
  "auditActor auth =
     (case auth of
        None \<Rightarrow> ([], [])
      | Some c \<Rightarrow>
          (case ac_APIKey c of
             Some k \<Rightarrow> (ak_ID k, ''api_key'')
           | None \<Rightarrow> (case ac_User c of Some u \<Rightarrow> (usr_ID u, ''user'') | None \<Rightarrow> ([], []))))"

definition providerLabel :: "string \<Rightarrow> string" where
  "providerLabel provider = (if provider = [] then ''llmux'' else provider)"

text \<open>
  A map that is not set behaves like an empty one here: the limit of the model decides first,
  and an unset spend map means that nothing was spent.
\<close>

definition isModelOverBudget :: "string \<Rightarrow> (string \<rightharpoonup> float64) \<Rightarrow> (string \<rightharpoonup> float64) \<Rightarrow> bool" where
  "isModelOverBudget model maxBudget spend =
     (if model = [] then False
      else case maxBudget model of
        None \<Rightarrow> False
      | Some limit \<Rightarrow>
          if limit \<le> 0 then False
          else (case spend model of Some x \<Rightarrow> x | None \<Rightarrow> 0) \<ge> limit)"

definition idempotencyKey :: "AccountInput \<Rightarrow> string" where
  "idempotencyKey input =
     (if ai_RequestID input = [] then []
      else if ai_CallType input = [] then ''usage:'' @ ai_RequestID input
      else ''usage:'' @ ai_CallType input @ '':'' @ ai_RequestID input)"

section \<open>The checks before a request\<close>

record resolvedEntities =
  re_team :: "Team option"
  re_user :: "User option"
  re_org :: "Organization option"
  re_endUser :: "EndUser option"

text \<open>\<open>errors.Is(err, context.Canceled)\<close>.\<close>

fun is_canceled :: "go_error \<Rightarrow> bool" where
  "is_canceled (PlainErr msg) = (msg = ''context canceled'')"
| "is_canceled (WrappedErr msg e) = is_canceled e"
| "is_canceled (LLMErr e) = False"

text \<open>An entity that the context has not yet, read from the store by its key.\<close>

definition resolve :: "('k \<Rightarrow> go_error + 'a option) \<Rightarrow> 'a option \<Rightarrow> 'k option \<Rightarrow> go_error + 'a option" where
  "resolve get have key =
     (case (have, key) of (None, Some k) \<Rightarrow> get k | _ \<Rightarrow> Inr have)"

definition resolveEntities ::
  "'s AuthOps \<Rightarrow> 's option \<Rightarrow> AuthContext option \<Rightarrow> string \<Rightarrow> go_error + resolvedEntities" where
  "resolveEntities ops store auth endUserID =
     (let team = Option.bind auth ac_Team; user = Option.bind auth ac_User; key = Option.bind auth ac_APIKey
      in case store of
           None \<Rightarrow> Inr \<lparr>re_team = team, re_user = user, re_org = None, re_endUser = None\<rparr>
         | Some s \<Rightarrow>
             (case resolve (\<lambda>i. ao_GetTeam ops i s) team (Option.bind key ak_TeamID) of
                Inl err \<Rightarrow> Inl err
              | Inr team1 \<Rightarrow>
                  (case resolve (\<lambda>i. ao_GetUser ops i s) user (Option.bind key ak_UserID) of
                     Inl err \<Rightarrow> Inl err
                   | Inr user1 \<Rightarrow>
                       (case (if orgIDFromAuth auth = [] then Inr None
                              else case ao_GetOrganization ops (orgIDFromAuth auth) s of
                                     Inl err \<Rightarrow> if is_canceled err then Inr None else Inl err
                                   | Inr org \<Rightarrow> Inr org) of
                          Inl err \<Rightarrow> Inl err
                        | Inr org \<Rightarrow>
                            (case (if endUserID = [] then Inr None else ao_GetEndUser ops endUserID s) of
                               Inl err \<Rightarrow> Inl err
                             | Inr endUser \<Rightarrow>
                                 Inr \<lparr>re_team = team1, re_user = user1, re_org = org, re_endUser = endUser\<rparr>)))))"

definition checkModelAccess ::
  "('s, 'l, 'd, 'i, 'e, 'a) GovEnv \<Rightarrow> string \<Rightarrow> AuthContext option \<Rightarrow> ('s, 'l, 'd, 'i, 'e, 'a) Engine \<Rightarrow>
   LLMError option \<times> ('s, 'l, 'd, 'i, 'e, 'a) Engine" where
  "checkModelAccess env model auth e =
     (case auth of
        None \<Rightarrow> (None, e)
      | Some authCtx \<Rightarrow>
          if model = [] then (None, e)
          else case (eg_enforcer e, ac_APIKey authCtx) of
            (Some f, Some key) \<Rightarrow>
              (let f1 = sync_policies (ge_enforcer env) key (ac_Team authCtx) (ac_User authCtx) f
               in (case en_Enforce (ge_enforcer env) (KeySub (ak_ID key)) (ModelObj model) ActionUse f1 of
                     Inl _ \<Rightarrow> Some (NewInternalError ''gateway'' model ''failed to evaluate model access'')
                   | Inr allowed \<Rightarrow>
                       if allowed then None else Some (NewPermissionError ''gateway'' model ''model access denied''),
                   e\<lparr>eg_enforcer := Some f1\<rparr>))
          | _ \<Rightarrow>
              (case NewModelAccess (ge_ops env) (eg_store e) auth of
                 Inl _ \<Rightarrow> Some (NewInternalError ''gateway'' model ''failed to evaluate model access'')
               | Inr access \<Rightarrow>
                   if access = None \<or> ma_Allows access model then None
                   else Some (NewPermissionError ''gateway'' model ''model access denied''),
               e))"

text \<open>The identifier and the time of the audit entry are arguments.\<close>

definition auditBudgetExceeded ::
  "('s, 'l, 'd, 'i, 'e, 'a) GovEnv \<Rightarrow> string \<Rightarrow> go_time \<Rightarrow> AuthContext option \<Rightarrow> AuditObjectType \<Rightarrow> string \<Rightarrow> string \<Rightarrow>
   ('s, 'l, 'd, 'i, 'e, 'a) Engine \<Rightarrow> ('s, 'l, 'd, 'i, 'e, 'a) Engine" where
  "auditBudgetExceeded env newID now auth objectType objectID model e =
     (case eg_auditLogger e of
        None \<Rightarrow> e
      | Some al \<Rightarrow>
          if \<not> gc_AuditEnabled (eg_config e) then e
          else let (actorID, actorType) = auditActor auth
               in case LogAction (ge_createAudit env) newID now [] actorID actorType AuditActionBudgetExceeded
                         objectType objectID False (Some [''model'' \<mapsto> VString model]) None al of
                    Some (_, al1) \<Rightarrow> e\<lparr>eg_auditLogger := Some al1\<rparr>
                  | None \<Rightarrow> e)"

text \<open>The first entity that may not spend more, with the message of the refusal.\<close>

definition over_budget_entity ::
  "string \<Rightarrow> AuthContext \<Rightarrow> resolvedEntities \<Rightarrow> (AuditObjectType \<times> string \<times> string) option" where
  "over_budget_entity model authCtx resolved =
     (if (case ac_APIKey authCtx of
            Some k \<Rightarrow> ak_IsOverBudget k \<or> isModelOverBudget model (ak_ModelMaxBudget k) (ak_ModelSpend k) | None \<Rightarrow> False)
      then Some (AuditObjectAPIKey, ak_ID (the (ac_APIKey authCtx)), ''api key budget exceeded'')
      else if (case re_team resolved of
                 Some t \<Rightarrow> tm_IsOverBudget t \<or> isModelOverBudget model (tm_ModelMaxBudget t) (tm_ModelSpend t) | None \<Rightarrow> False)
      then Some (AuditObjectTeam, tm_ID (the (re_team resolved)), ''team budget exceeded'')
      else if (case re_user resolved of
                 Some u \<Rightarrow> usr_IsOverBudget u \<or> isModelOverBudget model (usr_ModelMaxBudget u) (usr_ModelSpend u) | None \<Rightarrow> False)
      then Some (AuditObjectUser, usr_ID (the (re_user resolved)), ''user budget exceeded'')
      else if (case re_org resolved of Some g \<Rightarrow> og_IsOverBudget g | None \<Rightarrow> False)
      then Some (AuditObjectOrganization, og_ID (the (re_org resolved)), ''organization budget exceeded'')
      else if (case re_endUser resolved of Some u \<Rightarrow> eu_IsOverBudget u | None \<Rightarrow> False)
      then Some (AuditObjectEndUser, eu_UserID (the (re_endUser resolved)), ''end user budget exceeded'')
      else None)"

definition checkBudgets ::
  "('s, 'l, 'd, 'i, 'e, 'a) GovEnv \<Rightarrow> string \<Rightarrow> go_time \<Rightarrow> string \<Rightarrow> AuthContext option \<Rightarrow> resolvedEntities \<Rightarrow>
   ('s, 'l, 'd, 'i, 'e, 'a) Engine \<Rightarrow> LLMError option \<times> ('s, 'l, 'd, 'i, 'e, 'a) Engine" where
  "checkBudgets env newID now model auth resolved e =
     (case auth of
        None \<Rightarrow> (None, e)
      | Some authCtx \<Rightarrow>
          (case over_budget_entity model authCtx resolved of
             Some (objectType, objectID, message) \<Rightarrow>
               (Some (NewInsufficientQuotaError ''gateway'' model message),
                auditBudgetExceeded env newID now auth objectType objectID model e)
           | None \<Rightarrow>
               (case re_endUser resolved of
                  Some u \<Rightarrow> if eu_IsBlocked u then Some (NewPermissionError ''gateway'' model ''end user blocked'') else None
                | None \<Rightarrow> None,
                e)))"

text \<open>
  The tenant of a request is the key, else the user, else the address of the client; the clocks
  are those of the team's and of the tenant's check.
\<close>

definition rate_tenant :: "('l, 'd) TenantRateLimiter \<Rightarrow> RequestInput \<Rightarrow> AuthContext option \<Rightarrow> string \<times> int option" where
  "rate_tenant trl input auth =
     (case Option.bind auth ac_APIKey of
        Some key \<Rightarrow> (ak_ID key, ak_RPMLimit key)
      | None \<Rightarrow>
          (case Option.bind auth ac_User of
             Some u \<Rightarrow> (usr_ID u, usr_RPMLimit u)
           | None \<Rightarrow> (if ri_Request input \<noteq> None then AnonymousKey trl (ri_Request input) else [], None)))"

definition engine_checkRateLimit ::
  "('s, 'l, 'd, 'i, 'e, 'a) GovEnv \<Rightarrow> (nat \<Rightarrow> go_time) \<Rightarrow> RequestInput \<Rightarrow> AuthContext option \<Rightarrow> resolvedEntities \<Rightarrow>
   ('s, 'l, 'd, 'i, 'e, 'a) Engine \<Rightarrow> LLMError option \<times> ('s, 'l, 'd, 'i, 'e, 'a) Engine" where
  "engine_checkRateLimit env clock input auth resolved e =
     (case eg_rateLimiter e of
        None \<Rightarrow> (None, e)
      | Some trl \<Rightarrow>
          (let (tenantID, limit) = rate_tenant trl input auth;
               rpm = (case limit of Some n \<Rightarrow> n | None \<Rightarrow> 0);
               burst = burstForRate trl rpm 1
           in if Option.bind auth ac_APIKey = None \<and> tenantID = [] then (None, e)
              else let (teamOK, trl1) = check_team (ge_rate env) (ge_checkAllow env) (clock 0) (clock 1) (re_team resolved) trl
                   in if \<not> teamOK
                      then (Some (NewRateLimitError ''gateway'' (ri_Model input) ''team rate limit exceeded''),
                            e\<lparr>eg_rateLimiter := Some trl1\<rparr>)
                      else let (allowed, trl2) =
                                 trl_Check (ge_rate env) (ge_checkAllow env) (clock 2) (clock 3) tenantID rpm burst trl1
                           in (if \<not> allowed
                               then Some (NewRateLimitError ''gateway'' (ri_Model input) ''rate limit exceeded'') else None,
                               e\<lparr>eg_rateLimiter := Some trl2\<rparr>)))"

definition Evaluate ::
  "('s, 'l, 'd, 'i, 'e, 'a) GovEnv \<Rightarrow> string \<Rightarrow> go_time \<Rightarrow> (nat \<Rightarrow> go_time) \<Rightarrow> AuthContext option \<Rightarrow> RequestInput \<Rightarrow>
   ('s, 'l, 'd, 'i, 'e, 'a) Engine \<Rightarrow> LLMError option \<times> ('s, 'l, 'd, 'i, 'e, 'a) Engine" where
  "Evaluate env newID now clock auth input e =
     (if \<not> gc_Enabled (eg_config e) then (None, e)
      else case resolveEntities (ge_ops env) (eg_store e) auth (ri_EndUserID input) of
        Inl _ \<Rightarrow> (Some (NewInternalError ''gateway'' (ri_Model input) ''failed to resolve auth context''), e)
      | Inr resolved \<Rightarrow>
          (case checkModelAccess env (ri_Model input) auth e of
             (Some err, e1) \<Rightarrow> (Some err, e1)
           | (None, e1) \<Rightarrow>
               (case checkBudgets env newID now (ri_Model input) auth resolved e1 of
                  (Some err, e2) \<Rightarrow> (Some err, e2)
                | (None, e2) \<Rightarrow> engine_checkRateLimit env clock input auth resolved e2)))"

section \<open>Accounting\<close>

text \<open>The entry of the usage log; \<open>since\<close> and \<open>now\<close> are the clocks for a missing latency and end.\<close>

definition usage_latency :: "go_time \<Rightarrow> AccountInput \<Rightarrow> go_duration" where
  "usage_latency since input =
     (if ai_Latency input \<le> 0 \<and> ai_Start input \<noteq> 0 then since - ai_Start input else ai_Latency input)"

definition set_or :: "string option \<Rightarrow> string \<Rightarrow> string option" where
  "set_or have other = (case have of Some x \<Rightarrow> Some x | None \<Rightarrow> if other \<noteq> [] then Some other else None)"

definition charged_end_user :: "AccountInput \<Rightarrow> AuthContext option \<Rightarrow> string" where
  "charged_end_user input auth =
     (if ai_EndUserID input = [] then (case auth of Some c \<Rightarrow> ac_EndUserID c | None \<Rightarrow> []) else ai_EndUserID input)"

definition usage_entry :: "go_time \<Rightarrow> go_time \<Rightarrow> AccountInput \<Rightarrow> AuthContext option \<Rightarrow> UsageLog" where
  "usage_entry since now input auth =
     (let latency = usage_latency since input;
          endTime = (if ai_Start input \<noteq> 0 \<and> latency > 0 then ai_Start input + latency else now);
          key = Option.bind auth ac_APIKey;
          endUserID = charged_end_user input auth
      in \<lparr>ul_ID = 0, ul_RequestID = ai_RequestID input,
          ul_APIKeyID = (case key of Some k \<Rightarrow> ak_ID k | None \<Rightarrow> []),
          ul_TeamID = set_or (Option.bind key ak_TeamID) (teamIDFromAuth auth),
          ul_OrganizationID = set_or (Option.bind key ak_OrganizationID) (orgIDFromAuth auth),
          ul_UserID = set_or (Option.bind key ak_UserID) (userIDFromAuth auth),
          ul_EndUserID = (if endUserID \<noteq> [] then Some endUserID else None),
          ul_Model = ai_Model input, ul_ModelGroup = None, ul_Provider = providerLabel (gu_Provider (ai_Usage input)),
          ul_CallType = ai_CallType input, ul_InputTokens = gu_PromptTokens (ai_Usage input),
          ul_OutputTokens = gu_CompletionTokens (ai_Usage input), ul_TotalTokens = gu_TotalTokens (ai_Usage input),
          ul_Cost = gu_Cost (ai_Usage input), ul_LatencyMs = Milliseconds latency,
          ul_StatusCode = ai_StatusCode input, ul_Status = ai_Status input, ul_CacheHit = None,
          ul_RequestTags = ai_RequestTags input, ul_Metadata = Map.empty, ul_StartTime = ai_Start input,
          ul_EndTime = endTime\<rparr>)"

text \<open>A write whose error is only logged, made if a condition holds.\<close>

definition write_if :: "bool \<Rightarrow> ('s \<Rightarrow> go_error option \<times> 's) \<Rightarrow> 's \<Rightarrow> 's" where
  "write_if b w s = (if b then snd (w s) else s)"

definition charge_key :: "'s AuthOps \<Rightarrow> AccountInput \<Rightarrow> AuthContext option \<Rightarrow> 's \<Rightarrow> 's" where
  "charge_key ops input auth s =
     (let cost = gu_Cost (ai_Usage input); model = ai_Model input
      in case Option.bind auth ac_APIKey of
           Some k \<Rightarrow>
             write_if (model \<noteq> []) (ao_UpdateAPIKeyModelSpent ops (ak_ID k) model cost)
               (snd (ao_UpdateAPIKeySpent ops (ak_ID k) cost s))
         | None \<Rightarrow> s)"

definition charge_owners :: "'s AuthOps \<Rightarrow> AccountInput \<Rightarrow> AuthContext option \<Rightarrow> 's \<Rightarrow> 's" where
  "charge_owners ops input auth s1 =
     (let cost = gu_Cost (ai_Usage input); model = ai_Model input;
          teamID = teamIDFromAuth auth;
          s2 = write_if (teamID \<noteq> []) (ao_UpdateTeamSpent ops teamID cost) s1;
          s3 = write_if (teamID \<noteq> [] \<and> model \<noteq> []) (ao_UpdateTeamModelSpent ops teamID model cost) s2;
          userID = userIDFromAuth auth;
          s4 = write_if (userID \<noteq> []) (ao_UpdateUserSpent ops userID cost) s3;
          s5 = write_if (userID \<noteq> [] \<and> teamID \<noteq> []) (ao_UpdateTeamMembershipSpent ops userID teamID cost) s4;
          orgID = orgIDFromAuth auth;
          s6 = write_if (orgID \<noteq> []) (ao_UpdateOrganizationSpent ops orgID cost) s5;
          s7 = write_if (orgID \<noteq> [] \<and> userID \<noteq> []) (ao_UpdateOrganizationMembershipSpent ops userID orgID cost) s6;
          endUserID = charged_end_user input auth
      in write_if (endUserID \<noteq> []) (ao_UpdateEndUserSpent ops endUserID cost) s7)"

text \<open>Whether the request is new, and the idempotency store after asking it.\<close>

definition first_account ::
  "('s, 'l, 'd, 'i, 'e, 'a) GovEnv \<Rightarrow> go_time \<Rightarrow> AccountInput \<Rightarrow> ('s, 'l, 'd, 'i, 'e, 'a) Engine \<Rightarrow> bool \<times> 'i option" where
  "first_account env now input e =
     (let logKey = idempotencyKey input
      in case eg_idempotency e of
           Some i \<Rightarrow>
             (if logKey \<noteq> [] \<and> gc_IdempotencyWindow (eg_config e) > 0
              then (case ge_putIfAbsent env logKey (gc_IdempotencyWindow (eg_config e)) now i of
                      (Inl _, i1) \<Rightarrow> (True, Some i1)
                    | (Inr ok, i1) \<Rightarrow> (ok, Some i1))
              else (True, Some i))
         | None \<Rightarrow> (True, None))"

text \<open>Three clocks: of the idempotency store, of a missing latency and of a missing end.\<close>

definition account ::
  "('s, 'l, 'd, 'i, 'e, 'a) GovEnv \<Rightarrow> go_time \<times> go_time \<times> go_time \<Rightarrow> AuthContext option \<Rightarrow> AccountInput \<Rightarrow>
   ('s, 'l, 'd, 'i, 'e, 'a) Engine \<Rightarrow> ('s, 'l, 'd, 'i, 'e, 'a) Engine" where
  "account env clocks auth input e =
     (case clocks of (t, since, now) \<Rightarrow>
      case eg_store e of
        None \<Rightarrow> e
      | Some s \<Rightarrow>
          (case first_account env t input e of (new, idem) \<Rightarrow>
             if \<not> new then e\<lparr>eg_idempotency := idem\<rparr>
             else let s1 = snd (ao_LogUsage (ge_ops env) (usage_entry since now input auth) s);
                      s2 = (if gu_Cost (ai_Usage input) \<le> 0 then s1
                            else charge_owners (ge_ops env) input auth (charge_key (ge_ops env) input auth s1))
                  in e\<lparr>eg_idempotency := idem, eg_store := Some s2\<rparr>))"

text \<open>
  With asynchronous accounting a goroutine is started instead; it is the second component of the
  result, to be run at some later time.
\<close>

definition Account ::
  "('s, 'l, 'd, 'i, 'e, 'a) GovEnv \<Rightarrow> go_time \<times> go_time \<times> go_time \<Rightarrow> AuthContext option \<Rightarrow> AccountInput \<Rightarrow>
   ('s, 'l, 'd, 'i, 'e, 'a) Engine \<Rightarrow>
   ('s, 'l, 'd, 'i, 'e, 'a) Engine \<times> (AuthContext option \<times> AccountInput) option" where
  "Account env clocks auth input e =
     (if \<not> gc_Enabled (eg_config e) then (e, None)
      else if gc_AsyncAccounting (eg_config e) then (e, Some (auth, input))
      else (account env clocks auth input e, None))"

end
