(* ===== verification/Governance_Properties.thy ===== *)
theory Governance_Properties
  imports Governance
begin

text \<open>
  Properties of the governance engine: which requests are admitted, that each request is charged
  once, that the spend of a key is the sum of its logged costs, and where accounting and
  enforcement disagree.
\<close>

section \<open>Admission\<close>

text \<open>
  \<^bold>\<open>C4\<close>. Which authenticated requests the engine admits: exactly those whose entities can be
  read, whose model is permitted, whose key, team, user and organisation have money left, both in
  total and (for key, team and user) for the model, whose end user has money left and is not
  blocked, and that the rate limits let through.
\<close>

theorem evaluate_admits_iff:
  assumes "gc_Enabled (eg_config e)"
  shows "fst (Evaluate env newID now clock (Some c) input e) = None \<longleftrightarrow>
    (\<exists>r e1. resolveEntities (ge_ops env) (eg_store e) (Some c) (ri_EndUserID input) = Inr r \<and>
       checkModelAccess env (ri_Model input) (Some c) e = (None, e1) \<and>
       (\<forall>k. ac_APIKey c = Some k \<longrightarrow>
          \<not> ak_IsOverBudget k \<and> \<not> isModelOverBudget (ri_Model input) (ak_ModelMaxBudget k) (ak_ModelSpend k)) \<and>
       (\<forall>t. re_team r = Some t \<longrightarrow>
          \<not> tm_IsOverBudget t \<and> \<not> isModelOverBudget (ri_Model input) (tm_ModelMaxBudget t) (tm_ModelSpend t)) \<and>
       (\<forall>u. re_user r = Some u \<longrightarrow>
          \<not> usr_IsOverBudget u \<and> \<not> isModelOverBudget (ri_Model input) (usr_ModelMaxBudget u) (usr_ModelSpend u)) \<and>
       (\<forall>g. re_org r = Some g \<longrightarrow> \<not> og_IsOverBudget g) \<and>
       (\<forall>u. re_endUser r = Some u \<longrightarrow> \<not> eu_IsOverBudget u \<and> \<not> eu_IsBlocked u) \<and>
       fst (engine_checkRateLimit env clock input (Some c) r e1) = None)"
proof (cases "resolveEntities (ge_ops env) (eg_store e) (Some c) (ri_EndUserID input)")
  case (Inl err)
  then show ?thesis using assms by (simp add: Evaluate_def)
next
  case r: (Inr r)
  obtain err e1 where a: "checkModelAccess env (ri_Model input) (Some c) e = (err, e1)" by fastforce
  show ?thesis
  proof (cases err)
    case (Some x)
    then show ?thesis using assms r a by (simp add: Evaluate_def)
  next
    case None
    let ?over = "over_budget_entity (ri_Model input) c r"
    have over: "?over = None \<longleftrightarrow>
       (\<forall>k. ac_APIKey c = Some k \<longrightarrow>
          \<not> ak_IsOverBudget k \<and> \<not> isModelOverBudget (ri_Model input) (ak_ModelMaxBudget k) (ak_ModelSpend k)) \<and>
       (\<forall>t. re_team r = Some t \<longrightarrow>
          \<not> tm_IsOverBudget t \<and> \<not> isModelOverBudget (ri_Model input) (tm_ModelMaxBudget t) (tm_ModelSpend t)) \<and>
       (\<forall>u. re_user r = Some u \<longrightarrow>
          \<not> usr_IsOverBudget u \<and> \<not> isModelOverBudget (ri_Model input) (usr_ModelMaxBudget u) (usr_ModelSpend u)) \<and>
       (\<forall>g. re_org r = Some g \<longrightarrow> \<not> og_IsOverBudget g) \<and> (\<forall>u. re_endUser r = Some u \<longrightarrow> \<not> eu_IsOverBudget u)"
      unfolding over_budget_entity_def by (auto split: option.split)
    have "fst (Evaluate env newID now clock (Some c) input e) = None \<longleftrightarrow>
        ?over = None \<and> (\<forall>u. re_endUser r = Some u \<longrightarrow> \<not> eu_IsBlocked u) \<and>
        fst (engine_checkRateLimit env clock input (Some c) r e1) = None"
      using assms r a None
      by (cases ?over; cases "re_endUser r") (auto simp: Evaluate_def checkBudgets_def)
    then show ?thesis unfolding over using r a None by auto
  qed
qed

text \<open>An engine over the stores in memory, for the examples.\<close>

type_synonym list_policies = "(string \<times> string \<times> string) list \<times> (string \<times> string) list"

definition memory_env :: "(MemoryStore, int, unit, MemoryIdempotencyStore, list_policies, MemoryAuditLogStore) GovEnv" where
  "memory_env =
     \<lparr>ge_ops = memory_auth_ops, ge_rate = burst_only, ge_checkAllow = (\<lambda>_ s. (Inr [], s)),
      ge_putIfAbsent = (\<lambda>k ttl t i. map_prod Inr id (PutIfAbsent k ttl t i)), ge_enforcer = list_enforcer,
      ge_createAudit = (\<lambda>entry s. (None, CreateAuditLog ''id'' 0 entry s))\<rparr>"

definition memory_engine ::
  "MemoryStore \<Rightarrow> (MemoryStore, int, unit, MemoryIdempotencyStore, list_policies, MemoryAuditLogStore) Engine" where
  "memory_engine s =
     \<lparr>eg_store = Some s, eg_rateLimiter = None, eg_auditLogger = None, eg_idempotency = Some NewMemoryIdempotencyStore,
      eg_config = \<lparr>gc_Enabled = True, gc_AsyncAccounting = False, gc_IdempotencyWindow = 10 * minute, gc_AuditEnabled = False\<rparr>,
      eg_enforcer = None\<rparr>"

theorem evaluate_admits_iff_witness:
  "fst (Evaluate memory_env [] 0 (\<lambda>_. 0) (Some (key_context ((demo_key ''a'' ''h'')\<lparr>ak_SpentBudget := 10\<rparr>) None))
      \<lparr>ri_Request = None, ri_Model = ''gpt-4'', ri_EndUserID = []\<rparr> (memory_engine NewMemoryStore)) \<noteq> None"
proof -
  let ?k = "(demo_key ''a'' ''h'')\<lparr>ak_SpentBudget := 10\<rparr>"
  have "ak_IsOverBudget ?k" by (simp add: ak_IsOverBudget_def)
  moreover have "ac_APIKey (key_context ?k None) = Some ?k" by (simp add: key_context_def)
  moreover have "gc_Enabled (eg_config (memory_engine NewMemoryStore))" by (simp add: memory_engine_def)
  ultimately show ?thesis
    using evaluate_admits_iff [of "memory_engine NewMemoryStore" memory_env "[]" 0 "\<lambda>_. 0" "key_context ?k None"
        "\<lparr>ri_Request = None, ri_Model = ''gpt-4'', ri_EndUserID = []\<rparr>"] by blast
qed

section \<open>Each request is charged once\<close>

text \<open>
  What the engine relies on: a key that was put is refused until its time has passed, and then
  and for other keys nothing changes.
\<close>

locale idempotency_store =
  fixes put :: "string \<Rightarrow> go_duration \<Rightarrow> go_time \<Rightarrow> 'i \<Rightarrow> bool \<times> 'i"
    and recorded :: "'i \<Rightarrow> string \<Rightarrow> go_time \<Rightarrow> bool"
  assumes put_seen: "k \<noteq> [] \<Longrightarrow> recorded i k t \<Longrightarrow> put k ttl t i = (False, i)"
    and put_new: "k \<noteq> [] \<Longrightarrow> \<not> recorded i k t \<Longrightarrow> fst (put k ttl t i)"
    and put_recorded: "k \<noteq> [] \<Longrightarrow> \<not> recorded i k t \<Longrightarrow> 0 < ttl \<Longrightarrow>
      recorded (snd (put k ttl t i)) k' t' \<longleftrightarrow> (if k' = k then t' < t + ttl else recorded i k' t')"

text \<open>The keys that are new when they are put one after the other, and each key at its first occurrence.\<close>

fun put_run :: "(string \<Rightarrow> go_duration \<Rightarrow> go_time \<Rightarrow> 'i \<Rightarrow> bool \<times> 'i) \<Rightarrow> go_duration \<Rightarrow> (string \<times> go_time) list \<Rightarrow> 'i \<Rightarrow> string list" where
  "put_run put ttl [] i = []"
| "put_run put ttl ((k, t) # xs) i =
     (case put k ttl t i of (ok, i1) \<Rightarrow> (if ok then [k] else []) @ put_run put ttl xs i1)"

fun firsts :: "string set \<Rightarrow> string list \<Rightarrow> string list" where
  "firsts seen [] = []"
| "firsts seen (k # ks) = (if k \<in> seen then firsts seen ks else k # firsts (insert k seen) ks)"

context idempotency_store
begin

lemma put_run_firsts:
  assumes "0 < ttl" and "\<forall>(k, t)\<in>set xs. k \<noteq> [] \<and> t0 \<le> t \<and> t < t0 + ttl"
    and "\<And>k t. t0 \<le> t \<Longrightarrow> t < t0 + ttl \<Longrightarrow> recorded i k t \<longleftrightarrow> k \<in> seen"
  shows "put_run put ttl xs i = firsts seen (map fst xs)"
  using assms(2,3)
proof (induction xs arbitrary: i seen)
  case (Cons x xs)
  obtain k t where x: "x = (k, t)" by fastforce
  then have k: "k \<noteq> []" "t0 \<le> t" "t < t0 + ttl" using Cons.prems(1) by auto
  show ?case
  proof (cases "k \<in> seen")
    case True
    then have "put k ttl t i = (False, i)" using put_seen k Cons.prems(2) by blast
    then show ?thesis using Cons.IH [of i seen] Cons.prems True x by simp
  next
    case False
    obtain ok i1 where i1: "put k ttl t i = (ok, i1)" by fastforce
    have nr: "\<not> recorded i k t" using False Cons.prems(2) k by blast
    have ok using put_new [OF k(1) nr, of ttl] i1 by simp
    moreover have "recorded i1 k' t' \<longleftrightarrow> k' \<in> insert k seen" if "t0 \<le> t'" "t' < t0 + ttl" for k' t'
      using put_recorded [OF k(1) nr assms(1), of k' t'] i1 that k Cons.prems(2) by auto
    ultimately show ?thesis using Cons.IH [of i1 "insert k seen"] Cons.prems(1) False x i1 by simp
  qed
qed simp

end

definition recorded_until :: "MemoryIdempotencyStore \<Rightarrow> string \<Rightarrow> go_time \<Rightarrow> bool" where
  "recorded_until entries k t = (case entries k of Some expiresAt \<Rightarrow> expiresAt > t | None \<Rightarrow> False)"

interpretation mem_idem: idempotency_store PutIfAbsent recorded_until
  by unfold_locales (auto simp: PutIfAbsent_def recorded_until_def split: option.splits)

text \<open>A run of the accounting: clocks, context and input of each call.\<close>

type_synonym account_call = "(go_time \<times> go_time \<times> go_time) \<times> AuthContext option \<times> AccountInput"

definition account_run ::
  "(MemoryStore, 'l, 'd, MemoryIdempotencyStore, 'e, 'a) GovEnv \<Rightarrow> account_call list \<Rightarrow>
   (MemoryStore, 'l, 'd, MemoryIdempotencyStore, 'e, 'a) Engine \<Rightarrow> (MemoryStore, 'l, 'd, MemoryIdempotencyStore, 'e, 'a) Engine" where
  "account_run env calls e = fold (\<lambda>(clocks, auth, input). account env clocks auth input) calls e"

definition log_key :: "UsageLog \<Rightarrow> string" where
  "log_key entry =
     (if ul_RequestID entry = [] then []
      else if ul_CallType entry = [] then ''usage:'' @ ul_RequestID entry
      else ''usage:'' @ ul_CallType entry @ '':'' @ ul_RequestID entry)"

lemma log_key_entry [simp]: "log_key (usage_entry since now input auth) = idempotencyKey input"
    "log_key (entry\<lparr>ul_ID := n\<rparr>) = log_key entry"
  by (simp_all add: log_key_def idempotencyKey_def usage_entry_def Let_def)

text \<open>Charging the owners leaves the keys and the log alone.\<close>

lemma memory_spend_ops [simp]:
  "ao_UpdateAPIKeySpent memory_auth_ops i x s = (None, UpdateAPIKeySpent i x s)"
  "ao_UpdateAPIKeyModelSpent memory_auth_ops i m x s = (None, UpdateAPIKeyModelSpent i m x s)"
  "ao_UpdateTeamSpent memory_auth_ops i x s = (None, UpdateTeamSpent i x s)"
  "ao_UpdateTeamModelSpent memory_auth_ops i m x s = (None, UpdateTeamModelSpent i m x s)"
  "ao_UpdateUserSpent memory_auth_ops i x s = (None, UpdateUserSpent i x s)"
  "ao_UpdateOrganizationSpent memory_auth_ops i x s = (None, UpdateOrganizationSpent i x s)"
  "ao_UpdateTeamMembershipSpent memory_auth_ops u i x s = (None, UpdateTeamMembershipSpent u i x s)"
  "ao_UpdateOrganizationMembershipSpent memory_auth_ops u i x s = (None, UpdateOrganizationMembershipSpent u i x s)"
  "ao_UpdateEndUserSpent memory_auth_ops i x s = (None, UpdateEndUserSpent i x s)"
  "ao_LogUsage memory_auth_ops l s = (None, LogUsage l s)"
  by (simp_all add: memory_auth_ops_def)

definition key_part :: "MemoryStore \<Rightarrow> APIKey list \<times> (string \<rightharpoonup> nat) \<times> (string \<rightharpoonup> nat) \<times> UsageLog list" where
  "key_part s = (st_heap s, apiKeys s, apiKeysByID s, st_usageLogs s)"

lemma key_part_write_if: "(\<And>s. key_part (snd (w s)) = key_part s) \<Longrightarrow> key_part (write_if b w s) = key_part s"
  by (simp add: write_if_def)

lemma key_part_charge_owners: "key_part (charge_owners memory_auth_ops input auth s) = key_part s"
proof -
  have "key_part (UpdateTeamSpent i x s) = key_part s" "key_part (UpdateTeamModelSpent i m x s) = key_part s"
    "key_part (UpdateUserSpent i x s) = key_part s" "key_part (UpdateOrganizationSpent i x s) = key_part s"
    "key_part (UpdateTeamMembershipSpent u i x s) = key_part s" "key_part (UpdateEndUserSpent i x s) = key_part s"
    "key_part (UpdateOrganizationMembershipSpent u i x s) = key_part s" for i u m x s
    by (simp_all add: key_part_def UpdateTeamSpent_def UpdateTeamModelSpent_def UpdateUserSpent_def
        UpdateOrganizationSpent_def UpdateTeamMembershipSpent_def UpdateOrganizationMembershipSpent_def UpdateEndUserSpent_def)
  then show ?thesis by (simp add: charge_owners_def Let_def key_part_write_if)
qed

lemma charge_owners_logs [simp]: "st_usageLogs (charge_owners memory_auth_ops input auth s) = st_usageLogs s"
  using key_part_charge_owners [of input auth s] by (simp add: key_part_def)

lemma charge_key_logs [simp]: "st_usageLogs (charge_key memory_auth_ops input auth s) = st_usageLogs s"
  by (simp add: charge_key_def Let_def write_if_def UpdateAPIKeySpent_def UpdateAPIKeyModelSpent_def split: option.split)

definition memory_idempotent ::
  "(MemoryStore, 'l, 'd, MemoryIdempotencyStore, 'e, 'a) GovEnv \<Rightarrow> bool" where
  "memory_idempotent env \<longleftrightarrow>
     ge_ops env = memory_auth_ops \<and>
     ge_putIfAbsent env = (\<lambda>k ttl t i. map_prod Inr id (PutIfAbsent k ttl t i))"

lemma account_step:
  assumes "memory_idempotent env" and "eg_store e = Some s" and "eg_idempotency e = Some i"
    and "idempotencyKey input \<noteq> []" and "0 < gc_IdempotencyWindow (eg_config e)"
  obtains ok i1 s1 where "PutIfAbsent (idempotencyKey input) (gc_IdempotencyWindow (eg_config e)) t i = (ok, i1)"
    and "account env (t, since, now) auth input e = e\<lparr>eg_idempotency := Some i1, eg_store := Some s1\<rparr>"
    and "map log_key (st_usageLogs s1) = map log_key (st_usageLogs s) @ (if ok then [idempotencyKey input] else [])"
    and "\<not> ok \<Longrightarrow> s1 = s"
proof -
  let ?W = "gc_IdempotencyWindow (eg_config e)"
  let ?l = "LogUsage (usage_entry since now input auth) s"
  obtain ok i1 where p: "PutIfAbsent (idempotencyKey input) ?W t i = (ok, i1)" by fastforce
  define s1 where "s1 = (if \<not> ok then s else if gu_Cost (ai_Usage input) \<le> 0 then ?l else charge_owners memory_auth_ops input auth (charge_key memory_auth_ops input auth ?l))"
  have "first_account env t input e = (ok, Some i1)"
    using assms p by (simp add: first_account_def memory_idempotent_def)
  then have "account env (t, since, now) auth input e = e\<lparr>eg_idempotency := Some i1, eg_store := Some s1\<rparr>"
    using assms(1,2) by (auto simp: account_def s1_def memory_idempotent_def Let_def)
  moreover have "map log_key (st_usageLogs s1) = map log_key (st_usageLogs s) @ (if ok then [idempotencyKey input] else [])"
    by (simp add: s1_def LogUsage_def)
  moreover have "\<not> ok \<Longrightarrow> s1 = s" by (simp add: s1_def)
  ultimately show ?thesis using that p by blast
qed

lemma idempotencyKey_Nil [simp]: "idempotencyKey input = [] \<longleftrightarrow> ai_RequestID input = []"
  by (simp add: idempotencyKey_def)

lemma account_run_keys:
  assumes "memory_idempotent env"
  shows "eg_store e = Some s \<Longrightarrow> eg_idempotency e = Some i \<Longrightarrow> 0 < gc_IdempotencyWindow (eg_config e) \<Longrightarrow>
    \<forall>(clocks, auth, input)\<in>set calls. ai_RequestID input \<noteq> [] \<Longrightarrow>
    \<exists>s'. eg_store (account_run env calls e) = Some s' \<and>
      map log_key (st_usageLogs s') = map log_key (st_usageLogs s) @
        put_run PutIfAbsent (gc_IdempotencyWindow (eg_config e))
          (map (\<lambda>((t, _), _, input). (idempotencyKey input, t)) calls) i"
proof (induction calls arbitrary: e s i)
  case (Cons c calls)
  obtain t since now auth input where c: "c = ((t, since, now), auth, input)" by (metis surj_pair)
  have "idempotencyKey input \<noteq> []" using Cons.prems(4) c by auto
  from account_step [OF assms Cons.prems(1,2) this Cons.prems(3), of t since now auth]
  obtain ok i1 s1 where step: "PutIfAbsent (idempotencyKey input) (gc_IdempotencyWindow (eg_config e)) t i = (ok, i1)"
      "account env (t, since, now) auth input e = e\<lparr>eg_idempotency := Some i1, eg_store := Some s1\<rparr>"
      "map log_key (st_usageLogs s1) = map log_key (st_usageLogs s) @ (if ok then [idempotencyKey input] else [])"
    by blast
  have run: "account_run env (c # calls) e = account_run env calls (e\<lparr>eg_idempotency := Some i1, eg_store := Some s1\<rparr>)"
    using step(2) c by (simp add: account_run_def)
  show ?case
    using Cons.IH [of "e\<lparr>eg_idempotency := Some i1, eg_store := Some s1\<rparr>" s1 i1] Cons.prems(3,4) step
    unfolding run by (simp add: c)
qed (simp add: account_run_def)

text \<open>
  \<^bold>\<open>C8\<close>. Each request is charged once: when the accounting of any number of calls, repeated and
  interleaved in any order, falls into one idempotency window, the log gains exactly one entry
  for each call type and request identifier, at the first time that it occurs. Usage is charged
  together with its entry, so it is charged once as well.
\<close>

theorem accounts_logged_once:
  assumes "memory_idempotent env" and "eg_store e = Some s" and "eg_idempotency e = Some NewMemoryIdempotencyStore"
    and "0 < gc_IdempotencyWindow (eg_config e)"
    and "\<forall>((t, _), _, input)\<in>set calls. ai_RequestID input \<noteq> [] \<and> t0 \<le> t \<and> t < t0 + gc_IdempotencyWindow (eg_config e)"
  shows "\<exists>s'. eg_store (account_run env calls e) = Some s' \<and>
    map log_key (st_usageLogs s') = map log_key (st_usageLogs s) @
      firsts {} (map (\<lambda>(_, _, input). idempotencyKey input) calls)"
proof -
  let ?W = "gc_IdempotencyWindow (eg_config e)"
  let ?xs = "map (\<lambda>((t, _), _, input). (idempotencyKey input, t)) calls"
  have "\<forall>(k, t)\<in>set ?xs. k \<noteq> [] \<and> t0 \<le> t \<and> t < t0 + ?W" using assms(5) by (induction calls) auto
  then have "put_run PutIfAbsent ?W ?xs NewMemoryIdempotencyStore = firsts {} (map fst ?xs)"
    by (rule mem_idem.put_run_firsts [OF assms(4)]) (simp add: recorded_until_def NewMemoryIdempotencyStore_def)
  moreover have "map fst ?xs = map (\<lambda>(_, _, input). idempotencyKey input) calls" by auto
  moreover have "\<forall>(clocks, auth, input)\<in>set calls. ai_RequestID input \<noteq> []" using assms(5) by (induction calls) auto
  ultimately show ?thesis using account_run_keys [OF assms(1-4), of calls] by (simp only:)
qed

definition demo_input :: "string \<Rightarrow> float64 \<Rightarrow> AccountInput" where
  "demo_input rid cost =
     \<lparr>ai_RequestID = rid, ai_Model = ''gpt-4'', ai_CallType = ''chat_completion'', ai_EndUserID = [],
      ai_RequestTags = [], ai_Usage = \<lparr>gu_PromptTokens = 1, gu_CompletionTokens = 1, gu_TotalTokens = 2,
        gu_Cost = cost, gu_Provider = []\<rparr>, ai_Start = 0, ai_Latency = 1, ai_StatusCode = None, ai_Status = None\<rparr>"

lemma memory_env_idempotent [simp]: "memory_idempotent memory_env"
  by (simp add: memory_idempotent_def memory_env_def)

theorem accounts_logged_once_witness:
  "\<exists>s'. eg_store (account_run memory_env
       [((1, 1, 1), None, demo_input ''r1'' 5), ((2, 2, 2), None, demo_input ''r2'' 5), ((3, 3, 3), None, demo_input ''r1'' 5)]
       (memory_engine NewMemoryStore)) = Some s' \<and>
     map log_key (st_usageLogs s') = [''usage:chat_completion:r1'', ''usage:chat_completion:r2'']"
  using accounts_logged_once [of memory_env "memory_engine NewMemoryStore" NewMemoryStore
      "[((1, 1, 1), None, demo_input ''r1'' 5), ((2, 2, 2), None, demo_input ''r2'' 5), ((3, 3, 3), None, demo_input ''r1'' 5)]" 0]
  by (simp add: memory_engine_def demo_input_def idempotencyKey_def NewMemoryStore_def)



section \<open>The spend of a key is the sum of its log\<close>

definition key_costs :: "(UsageLog \<Rightarrow> bool) \<Rightarrow> string \<Rightarrow> UsageLog list \<Rightarrow> float64" where
  "key_costs P i entries = (\<Sum>entry\<leftarrow>entries. if ul_APIKeyID entry = i \<and> ul_Cost entry > 0 \<and> P entry then ul_Cost entry else 0)"

definition model_spend :: "APIKey \<Rightarrow> string \<Rightarrow> float64" where
  "model_spend k m = (case ak_ModelSpend k m of Some x \<Rightarrow> x | None \<Rightarrow> 0)"

lemma key_part_same:
  assumes "key_part s' = key_part s"
  shows "key_wf s' = key_wf s" and "GetAPIKeyByID i s' = GetAPIKeyByID i s"
  using assms by (simp_all add: key_part_def key_wf_def GetAPIKeyByID_def key_at_def [abs_def])

lemma LogUsage_keys [simp]: "key_wf (LogUsage l s) = key_wf s" "GetAPIKeyByID i (LogUsage l s) = GetAPIKeyByID i s"
  by (simp_all add: LogUsage_def key_wf_def GetAPIKeyByID_def key_at_def [abs_def])

text \<open>What a charge does to a key.\<close>

definition charged :: "AccountInput \<Rightarrow> APIKey \<Rightarrow> APIKey" where
  "charged input k =
     (let k1 = k\<lparr>ak_SpentBudget := ak_SpentBudget k + gu_Cost (ai_Usage input)\<rparr>
      in if ai_Model input \<noteq> []
         then k1\<lparr>ak_ModelSpend := map_add_at (ai_Model input) (gu_Cost (ai_Usage input)) (ak_ModelSpend k1)\<rparr> else k1)"

lemma charge_key_lookup:
  assumes "key_wf s"
  shows "key_wf (charge_key memory_auth_ops input auth s)"
    and "GetAPIKeyByID i (charge_key memory_auth_ops input auth s) =
      (if \<exists>k. Option.bind auth ac_APIKey = Some k \<and> ak_ID k = i then map_option (charged input) (GetAPIKeyByID i s)
       else GetAPIKeyByID i s)"
proof -
  note w = key_modify_wf [OF assms, of "\<lambda>k. k\<lparr>ak_SpentBudget := ak_SpentBudget k + gu_Cost (ai_Usage input)\<rparr>"]
  show "key_wf (charge_key memory_auth_ops input auth s)"
    using assms w by (simp add: charge_key_def Let_def write_if_def UpdateAPIKeySpent_def UpdateAPIKeyModelSpent_def
        key_modify_wf keeps_index_def split: option.split)
  show "GetAPIKeyByID i (charge_key memory_auth_ops input auth s) =
      (if \<exists>k. Option.bind auth ac_APIKey = Some k \<and> ak_ID k = i then map_option (charged input) (GetAPIKeyByID i s)
       else GetAPIKeyByID i s)"
    using w by (simp add: charge_key_def Let_def write_if_def UpdateAPIKeySpent_def UpdateAPIKeyModelSpent_def
        GetAPIKeyByID_modify assms keeps_index_def charged_def [abs_def] option.map_comp comp_def split: option.split)
qed

text \<open>The key's spend grows by what the log gains for it, in total and per model.\<close>

definition ledger :: "string \<Rightarrow> MemoryStore \<Rightarrow> MemoryStore \<Rightarrow> bool" where
  "ledger i s s' \<longleftrightarrow>
     (\<exists>new. st_usageLogs s' = st_usageLogs s @ new \<and>
        (\<forall>k. GetAPIKeyByID i s = Some k \<longrightarrow>
           (\<exists>k'. GetAPIKeyByID i s' = Some k' \<and> ak_SpentBudget k' = ak_SpentBudget k + key_costs (\<lambda>_. True) i new \<and>
              (\<forall>m. m \<noteq> [] \<longrightarrow> model_spend k' m = model_spend k m + key_costs (\<lambda>entry. ul_Model entry = m) i new))))"

lemma key_costs_append [simp]: "key_costs P i (xs @ ys) = key_costs P i xs + key_costs P i ys"
  by (simp add: key_costs_def)

lemma ledger_refl: "ledger i s s"
  by (auto simp: ledger_def key_costs_def)

lemma ledger_trans:
  assumes "ledger i s s'" and "ledger i s' s''"
  shows "ledger i s s''"
proof -
  let ?grows = "\<lambda>k k' new. ak_SpentBudget k' = ak_SpentBudget k + key_costs (\<lambda>_. True) i new \<and>
      (\<forall>m. m \<noteq> [] \<longrightarrow> model_spend k' m = model_spend k m + key_costs (\<lambda>entry. ul_Model entry = m) i new)"
  obtain new1 where 1: "st_usageLogs s' = st_usageLogs s @ new1"
      "\<And>k. GetAPIKeyByID i s = Some k \<Longrightarrow> \<exists>k'. GetAPIKeyByID i s' = Some k' \<and> ?grows k k' new1"
    using assms(1) unfolding ledger_def by blast
  obtain new2 where 2: "st_usageLogs s'' = st_usageLogs s' @ new2"
      "\<And>k. GetAPIKeyByID i s' = Some k \<Longrightarrow> \<exists>k'. GetAPIKeyByID i s'' = Some k' \<and> ?grows k k' new2"
    using assms(2) unfolding ledger_def by blast
  have "\<exists>k'. GetAPIKeyByID i s'' = Some k' \<and> ?grows k k' (new1 @ new2)" if k: "GetAPIKeyByID i s = Some k" for k
  proof -
    obtain k1 where k1: "GetAPIKeyByID i s' = Some k1" "?grows k k1 new1" using 1(2) [OF k] by blast
    obtain k2 where "GetAPIKeyByID i s'' = Some k2" "?grows k1 k2 new2" using 2(2) [OF k1(1)] by blast
    then show ?thesis using k1(2) by simp
  qed
  then show ?thesis unfolding ledger_def using 1(1) 2(1) by (intro exI [of _ "new1 @ new2"]) simp
qed

lemma usage_entry_fields [simp]:
  "ul_APIKeyID (usage_entry since now input auth) = (case Option.bind auth ac_APIKey of Some k \<Rightarrow> ak_ID k | None \<Rightarrow> [])"
  "ul_Cost (usage_entry since now input auth) = gu_Cost (ai_Usage input)"
  "ul_Model (usage_entry since now input auth) = ai_Model input"
  by (simp_all add: usage_entry_def Let_def)

lemma account_ledger:
  assumes "ge_ops env = memory_auth_ops" and "eg_store e = Some s" and "key_wf s" and "i \<noteq> []"
  shows "\<exists>s'. eg_store (account env clocks auth input e) = Some s' \<and> key_wf s' \<and> ledger i s s'"
proof -
  obtain t since now where c: "clocks = (t, since, now)" by (cases clocks)
  obtain new idem where f: "first_account env t input e = (new, idem)" by fastforce
  let ?entry = "usage_entry since now input auth"
  let ?l = "LogUsage ?entry s"
  let ?c = "charge_key memory_auth_ops input auth ?l"
  let ?s2 = "charge_owners memory_auth_ops input auth ?c"
  define added where "added = [?entry\<lparr>ul_ID := int (length (st_usageLogs s) + 1)\<rparr>]"
  have logs: "st_usageLogs ?l = st_usageLogs s @ added" by (simp add: LogUsage_def added_def)
  consider "\<not> new" | "new" "gu_Cost (ai_Usage input) \<le> 0" | "new" "gu_Cost (ai_Usage input) > 0" by linarith
  then show ?thesis
  proof cases
    case 1
    then show ?thesis using assms f c ledger_refl by (auto simp: account_def)
  next
    case 2
    have "key_costs P i added = 0" for P using 2(2) by (simp add: key_costs_def added_def)
    then have "ledger i s ?l" unfolding ledger_def logs by (intro exI [of _ added]) simp
    moreover have "eg_store (account env clocks auth input e) = Some ?l"
      using 2 assms(1,2) f c by (simp add: account_def Let_def)
    ultimately show ?thesis using assms(3) by auto
  next
    case 3
    have wf: "key_wf ?l" using assms(3) by simp
    note ck = charge_key_lookup [OF wf, where input = input and auth = auth]
    have s2: "key_wf ?s2" "GetAPIKeyByID i ?s2 = GetAPIKeyByID i ?c" "st_usageLogs ?s2 = st_usageLogs s @ added"
      using key_part_same [OF key_part_charge_owners [of input auth ?c]] ck(1) logs by simp_all
    have cost: "key_costs P i added =
        (if (\<exists>k. Option.bind auth ac_APIKey = Some k \<and> ak_ID k = i) \<and> P (hd added) then gu_Cost (ai_Usage input) else 0)" for P
      using 3(2) assms(4) by (cases "Option.bind auth ac_APIKey") (simp_all add: key_costs_def added_def)
    have "model_spend (charged input k) m =
        model_spend k m + (if ai_Model input = m then gu_Cost (ai_Usage input) else 0)" if "m \<noteq> []" for k m
      using that by (simp add: model_spend_def charged_def map_add_at_def Let_def)
    moreover have "ak_SpentBudget (charged input k) = ak_SpentBudget k + gu_Cost (ai_Usage input)" for k
      by (simp add: charged_def Let_def)
    moreover have "ul_Model (hd added) = ai_Model input" by (simp add: added_def)
    ultimately have "ledger i s ?s2"
      unfolding ledger_def s2(2,3) ck(2) cost by (intro exI [of _ added]) (auto simp: cost)
    moreover have "eg_store (account env clocks auth input e) = Some ?s2"
      using 3 assms(1,2) f c by (simp add: account_def Let_def)
    ultimately show ?thesis using s2(1) by blast
  qed
qed

text \<open>
  \<^bold>\<open>C10\<close>. The books balance: over any run of the accounting, with repeated requests, missing
  identities and requests without cost, the spend of a key grows by exactly the sum of the costs
  that the usage log gains for that key, and its spend per model by the sum over the entries of
  that model.
\<close>

theorem key_spend_is_ledger:
  assumes "ge_ops env = memory_auth_ops" and "eg_store e = Some s" and "key_wf s"
    and "i \<noteq> []" and "GetAPIKeyByID i s = Some k"
  shows "\<exists>s' new k'. eg_store (account_run env calls e) = Some s' \<and> st_usageLogs s' = st_usageLogs s @ new \<and>
     GetAPIKeyByID i s' = Some k' \<and> ak_SpentBudget k' = ak_SpentBudget k + key_costs (\<lambda>_. True) i new \<and>
     (\<forall>m. m \<noteq> [] \<longrightarrow> model_spend k' m = model_spend k m + key_costs (\<lambda>entry. ul_Model entry = m) i new)"
proof -
  have "\<exists>s'. eg_store (account_run env calls e) = Some s' \<and> ledger i s s'"
    using assms(2,3)
  proof (induction calls arbitrary: e s)
    case Nil
    then show ?case using ledger_refl by (simp add: account_run_def)
  next
    case (Cons c calls)
    obtain clocks auth input where c: "c = (clocks, auth, input)" by (cases c)
    from account_ledger [OF assms(1) Cons.prems assms(4)]
    obtain s1 where s1: "eg_store (account env clocks auth input e) = Some s1" "key_wf s1" "ledger i s s1" by blast
    from Cons.IH [OF s1(1,2)] s1(3) show ?case using ledger_trans by (fastforce simp: account_run_def c)
  qed
  then show ?thesis using assms(5) unfolding ledger_def by blast
qed

theorem key_spend_is_ledger_witness:
  "\<exists>s' new k'. eg_store (account_run memory_env
        [((1, 1, 1), Some (key_context (demo_key ''a'' ''h'') None), demo_input ''r1'' 5),
         ((2, 2, 2), Some (key_context (demo_key ''a'' ''h'') None), demo_input ''r1'' 5)]
        (memory_engine (CreateAPIKey (demo_key ''a'' ''h'') NewMemoryStore))) = Some s' \<and>
     st_usageLogs s' = new \<and> GetAPIKeyByID ''a'' s' = Some k' \<and>
     ak_SpentBudget k' = key_costs (\<lambda>_. True) ''a'' new"
proof -
  let ?s = "CreateAPIKey (demo_key ''a'' ''h'') NewMemoryStore"
  have "key_wf ?s" by (rule CreateAPIKey_put) (simp_all, simp add: NewMemoryStore_def)
  moreover have "GetAPIKeyByID ''a'' ?s = Some (demo_key ''a'' ''h'')"
    by (simp add: CreateAPIKey_def NewMemoryStore_def GetAPIKeyByID_def key_at_def Let_def)
  moreover have "st_usageLogs ?s = []" by (simp add: CreateAPIKey_def NewMemoryStore_def Let_def)
  ultimately show ?thesis
    using key_spend_is_ledger [of memory_env "memory_engine ?s" ?s "''a''" "demo_key ''a'' ''h''"
        "[((1, 1, 1), Some (key_context (demo_key ''a'' ''h'') None), demo_input ''r1'' 5),
         ((2, 2, 2), Some (key_context (demo_key ''a'' ''h'') None), demo_input ''r1'' 5)]"]
    by (auto simp: memory_env_def memory_engine_def)
qed

section \<open>Where accounting and enforcement disagree\<close>

lemma end_users_unseen [simp]:
  "GetTeam i (s\<lparr>st_endUsers := x\<rparr>) = GetTeam i s" "GetUser i (s\<lparr>st_endUsers := x\<rparr>) = GetUser i s"
  "GetOrganization i (s\<lparr>st_endUsers := x\<rparr>) = GetOrganization i s"
  by (simp_all add: GetTeam_def GetUser_def GetOrganization_def)

lemma checkModelAccess_end_users:
  assumes "ge_ops env = memory_auth_ops" and "eg_store e = Some s"
  shows "checkModelAccess env model auth (e\<lparr>eg_store := Some (s\<lparr>st_endUsers := x\<rparr>)\<rparr>) =
    map_prod id (\<lambda>e1. e1\<lparr>eg_store := Some (s\<lparr>st_endUsers := x\<rparr>)\<rparr>) (checkModelAccess env model auth e)"
proof -
  have "NewModelAccess memory_auth_ops (Some (s\<lparr>st_endUsers := x\<rparr>)) a = NewModelAccess memory_auth_ops (Some s) a" for a
    by (simp add: NewModelAccess_def access_user_def Let_def split: option.split)
  then show ?thesis using assms by (simp add: checkModelAccess_def Let_def split: option.split)
qed



text \<open>
  The configured burst does not apply to keys without a limit of their own: their first request
  creates a bucket for one token, whatever the default burst is.
\<close>

lemma default_burst_unused:
  assumes "eg_rateLimiter e = Some trl" and "trl_distributedLimiter trl = None"
    and "ac_APIKey c = Some key" and "ak_RPMLimit key = None" and "trl_limiters trl (ak_ID key) = None"
    and "re_team r = None"
  shows "\<exists>trl'. eg_rateLimiter (snd (engine_checkRateLimit env clock input (Some c) r e)) = Some trl' \<and>
    trl_limiters trl' (ak_ID key) =
      Some (snd (rate_AllowN (ge_rate env) (clock 3) 1 (rate_NewLimiter (ge_rate env) (trl_defaultRate trl) 1)))"
  using assms
  by (simp add: engine_checkRateLimit_def rate_tenant_def check_team_def trl_Check_def AllowWithCustomRate_def
      limiter_AllowN_def getLimiter_def burstForRate_def Let_def split: prod.split)

end
