(* ===== verification/Invitations.thy ===== *)
theory Invitations
  imports Auth_Store Auth_Keys
begin

text \<open>
  Invitation links (\<open>internal/auth/invitation.go\<close>): links and their validity, the service that
  creates, accepts and deactivates them, and the store in memory. An acceptance runs through
  several critical sections, which other acceptances may interleave with; its phases are separate
  definitions, and the interleavings are a step relation.
\<close>

section \<open>Links\<close>

record InvitationLink =
  il_ID :: string
  il_Token :: string
  il_TokenHash :: string
  il_TeamID :: "string option"
  il_OrganizationID :: "string option"
  il_Role :: string
  il_MaxUses :: int
  il_CurrentUses :: int
  il_MaxBudget :: "float64 option"
  il_ExpiresAt :: "go_time option"
  il_IsActive :: bool
  il_CreatedBy :: string
  il_CreatedAt :: go_time
  il_UpdatedAt :: go_time
  il_Description :: string
  il_Metadata :: Metadata

definition il_IsValid :: "go_time \<Rightarrow> InvitationLink \<Rightarrow> bool" where
  "il_IsValid now i =
     (if \<not> il_IsActive i then False
      else if (case il_ExpiresAt i of Some t \<Rightarrow> now > t | None \<Rightarrow> False) then False
      else if il_MaxUses i > 0 \<and> il_CurrentUses i \<ge> il_MaxUses i then False
      else True)"

section \<open>The store in memory\<close>

type_synonym MemoryInvitationLinkStore = "string \<rightharpoonup> InvitationLink"

definition NewMemoryInvitationLinkStore :: MemoryInvitationLinkStore where
  "NewMemoryInvitationLinkStore = Map.empty"

definition ils_Create :: "InvitationLink \<Rightarrow> MemoryInvitationLinkStore \<Rightarrow> MemoryInvitationLinkStore" where
  "ils_Create link s = s(il_ID link \<mapsto> link)"

definition ils_Get :: "string \<Rightarrow> MemoryInvitationLinkStore \<Rightarrow> InvitationLink option" where
  "ils_Get i s = s i"

text \<open>\<open>order\<close> is the order in which the range loop visits the ids.\<close>

definition ils_GetByToken :: "string list \<Rightarrow> string \<Rightarrow> MemoryInvitationLinkStore \<Rightarrow> InvitationLink option" where
  "ils_GetByToken order tokenHash s = find (\<lambda>link. il_Token link = tokenHash) (List.map_filter s order)"

definition ils_Update :: "InvitationLink \<Rightarrow> MemoryInvitationLinkStore \<Rightarrow> MemoryInvitationLinkStore" where
  "ils_Update link s = (case s (il_ID link) of None \<Rightarrow> s | Some _ \<Rightarrow> s(il_ID link \<mapsto> link))"

definition ils_Delete :: "string \<Rightarrow> MemoryInvitationLinkStore \<Rightarrow> MemoryInvitationLinkStore" where
  "ils_Delete i s = s(i := None)"

definition ils_IncrementUses :: "go_time \<Rightarrow> string \<Rightarrow> MemoryInvitationLinkStore \<Rightarrow> MemoryInvitationLinkStore" where
  "ils_IncrementUses now i s =
     (case s i of
        None \<Rightarrow> s
      | Some link \<Rightarrow> s(i \<mapsto> link\<lparr>il_CurrentUses := il_CurrentUses link + 1, il_UpdatedAt := now\<rparr>))"

record InvitationLinkFilter =
  if_TeamID :: "string option"
  if_OrganizationID :: "string option"
  if_CreatedBy :: "string option"
  if_IsActive :: "bool option"
  if_Limit :: int
  if_Offset :: int

definition link_matches :: "InvitationLinkFilter \<Rightarrow> InvitationLink \<Rightarrow> bool" where
  "link_matches f link \<longleftrightarrow>
     \<not> (if_TeamID f \<noteq> None \<and> (il_TeamID link = None \<or> il_TeamID link \<noteq> if_TeamID f)) \<and>
     \<not> (if_OrganizationID f \<noteq> None \<and> (il_OrganizationID link = None \<or> il_OrganizationID link \<noteq> if_OrganizationID f)) \<and>
     \<not> (case if_CreatedBy f of Some c \<Rightarrow> il_CreatedBy link \<noteq> c | None \<Rightarrow> False) \<and>
     \<not> (case if_IsActive f of Some a \<Rightarrow> il_IsActive link \<noteq> a | None \<Rightarrow> False)"

definition ils_List :: "string list \<Rightarrow> InvitationLinkFilter \<Rightarrow> MemoryInvitationLinkStore \<Rightarrow> InvitationLink list" where
  "ils_List order f s =
     (let results = filter (link_matches f) (List.map_filter s order);
          results = (if if_Offset f > 0 \<and> if_Offset f < int (length results) then drop (nat (if_Offset f)) results
                     else results)
      in if if_Limit f > 0 \<and> if_Limit f < int (length results) then take (nat (if_Limit f)) results else results)"

section \<open>The service\<close>

record CreateInvitationRequest =
  ci_TeamID :: "string option"
  ci_OrganizationID :: "string option"
  ci_Role :: string
  ci_MaxUses :: int
  ci_MaxBudget :: "float64 option"
  ci_ExpiresIn :: int
  ci_Description :: string
  ci_CreatedBy :: string

text \<open>The random generator gives 32 bytes or an error.\<close>

definition generateInvitationToken :: "go_error + string \<Rightarrow> go_error + string" where
  "generateInvitationToken random = (case random of Inl err \<Rightarrow> Inl err | Inr bytes \<Rightarrow> Inr (hex_EncodeToString bytes))"

definition hashInvitationToken :: "(string \<Rightarrow> string) \<Rightarrow> string \<Rightarrow> string" where
  "hashInvitationToken sha256 token = HashKey sha256 token"

definition CreateInvitationLink ::
  "(string \<Rightarrow> string) \<Rightarrow> go_error + string \<Rightarrow> string \<Rightarrow> go_time \<Rightarrow> CreateInvitationRequest \<Rightarrow> MemoryInvitationLinkStore \<Rightarrow>
   (go_error + InvitationLink \<times> string) \<times> MemoryInvitationLinkStore" where
  "CreateInvitationLink sha256 random uuid now req s =
     (case generateInvitationToken random of
        Inl err \<Rightarrow> (Inl err, s)
      | Inr token \<Rightarrow>
          (let link =
             \<lparr>il_ID = uuid, il_Token = hashInvitationToken sha256 token, il_TokenHash = [], il_TeamID = ci_TeamID req,
              il_OrganizationID = ci_OrganizationID req, il_Role = ci_Role req, il_MaxUses = ci_MaxUses req,
              il_CurrentUses = 0, il_MaxBudget = ci_MaxBudget req,
              il_ExpiresAt = (if ci_ExpiresIn req > 0 then Some (now + wrap64 (ci_ExpiresIn req * hour)) else None),
              il_IsActive = True, il_CreatedBy = ci_CreatedBy req, il_CreatedAt = now, il_UpdatedAt = now,
              il_Description = ci_Description req, il_Metadata = Map.empty\<rparr>
           in (Inr (link, token), ils_Create link s)))"

record AcceptInvitationRequest =
  ai_Token :: string
  ai_UserID :: string
  ai_Email :: string

record AcceptInvitationResult =
  ar_Success :: bool
  ar_TeamID :: "string option"
  ar_OrganizationID :: "string option"
  ar_Role :: string
  ar_Message :: string

definition refused_invitation :: "string \<Rightarrow> AcceptInvitationResult" where
  "refused_invitation msg =
     \<lparr>ar_Success = False, ar_TeamID = None, ar_OrganizationID = None, ar_Role = [], ar_Message = msg\<rparr>"

text \<open>The first phase of an acceptance: it reads a copy of the link and checks it.\<close>

definition accept_begin ::
  "(string \<Rightarrow> string) \<Rightarrow> string list \<Rightarrow> go_time \<Rightarrow> AcceptInvitationRequest \<Rightarrow> MemoryInvitationLinkStore \<Rightarrow>
   AcceptInvitationResult + InvitationLink" where
  "accept_begin sha256 order now req s =
     (case ils_GetByToken order (hashInvitationToken sha256 (ai_Token req)) s of
        None \<Rightarrow> Inl (refused_invitation ''invitation not found'')
      | Some link \<Rightarrow>
          if \<not> il_IsValid now link
          then Inl (refused_invitation ''invitation is expired or has reached maximum uses'')
          else Inr link)"

text \<open>The second phase: the memberships, in the store of users and teams, which does not fail.\<close>

definition accept_join_team :: "go_time \<Rightarrow> InvitationLink \<Rightarrow> string \<Rightarrow> MemoryStore \<Rightarrow> MemoryStore" where
  "accept_join_team now link userID a =
     (case il_TeamID link of
        None \<Rightarrow> a
      | Some teamID \<Rightarrow>
          (case GetTeamMembership userID teamID a of
             Some _ \<Rightarrow> a
           | None \<Rightarrow> CreateTeamMembership
                      \<lparr>mb_UserID = userID, mb_TeamID = teamID, mb_Role = il_Role link, mb_Spend = 0, mb_BudgetID = None,
                       mb_Budget = None, mb_JoinedAt = Some now\<rparr> a))"

definition accept_join_org :: "go_time \<Rightarrow> InvitationLink \<Rightarrow> string \<Rightarrow> MemoryStore \<Rightarrow> MemoryStore" where
  "accept_join_org now link userID a =
     (case il_OrganizationID link of
        None \<Rightarrow> a
      | Some orgID \<Rightarrow>
          (case GetOrganizationMembership userID orgID a of
             Some _ \<Rightarrow> a
           | None \<Rightarrow> CreateOrganizationMembership
                      \<lparr>om_UserID = userID, om_OrganizationID = orgID, om_UserRole = il_Role link, om_Spend = 0,
                       om_BudgetID = None, om_Budget = None, om_JoinedAt = Some now\<rparr> a))"

definition accept_join :: "go_time \<Rightarrow> go_time \<Rightarrow> InvitationLink \<Rightarrow> string \<Rightarrow> MemoryStore \<Rightarrow> MemoryStore" where
  "accept_join now1 now2 link userID a = accept_join_org now2 link userID (accept_join_team now1 link userID a)"

text \<open>All phases without interruption; the last one counts the use.\<close>

definition AcceptInvitation ::
  "(string \<Rightarrow> string) \<Rightarrow> string list \<Rightarrow> go_time \<times> go_time \<times> go_time \<times> go_time \<Rightarrow> AcceptInvitationRequest \<Rightarrow>
   MemoryInvitationLinkStore \<times> MemoryStore \<Rightarrow>
   AcceptInvitationResult \<times> MemoryInvitationLinkStore \<times> MemoryStore" where
  "AcceptInvitation sha256 order times4 req st =
     (let (t1, t2, t3, t4) = times4; (s, a) = st
      in case accept_begin sha256 order t1 req s of
           Inl res \<Rightarrow> (res, s, a)
         | Inr link \<Rightarrow>
             (\<lparr>ar_Success = True, ar_TeamID = il_TeamID link, ar_OrganizationID = il_OrganizationID link,
               ar_Role = il_Role link, ar_Message = ''invitation accepted successfully''\<rparr>,
              ils_IncrementUses t4 (il_ID link) s, accept_join t2 t3 link (ai_UserID req) a))"

text \<open>A deactivation reads a copy of the link and writes it back.\<close>

definition deactivate_write :: "go_time \<Rightarrow> InvitationLink \<Rightarrow> MemoryInvitationLinkStore \<Rightarrow> MemoryInvitationLinkStore" where
  "deactivate_write now link s = ils_Update (link\<lparr>il_IsActive := False, il_UpdatedAt := now\<rparr>) s"

definition DeactivateInvitation :: "go_time \<Rightarrow> string \<Rightarrow> MemoryInvitationLinkStore \<Rightarrow> MemoryInvitationLinkStore" where
  "DeactivateInvitation now i s =
     (case ils_Get i s of None \<Rightarrow> s | Some link \<Rightarrow> deactivate_write now link s)"

definition ListInvitations :: "string list \<Rightarrow> InvitationLinkFilter \<Rightarrow> MemoryInvitationLinkStore \<Rightarrow> InvitationLink list" where
  "ListInvitations order f s = ils_List order f s"

section \<open>Interleavings\<close>

text \<open>
  Acceptances that have been checked but have not joined, acceptances that have joined but are not
  counted, deactivations that have read their link, the ids of the finished acceptances, and the
  ids that were ever given out. A new id has never been given out before.
\<close>

record inv_state =
  is_links :: MemoryInvitationLinkStore
  is_auth :: MemoryStore
  is_joining :: "(InvitationLink \<times> string) list"
  is_counting :: "InvitationLink list"
  is_deactivating :: "InvitationLink list"
  is_accepted :: "string list"
  is_used :: "string set"

definition in_flight :: "inv_state \<Rightarrow> nat" where
  "in_flight x = length (is_joining x) + length (is_counting x)"

text \<open>One step of any of the concurrent calls; at most \<open>K\<close> acceptances are in flight at a time.\<close>

inductive inv_step :: "(string \<Rightarrow> string) \<Rightarrow> nat \<Rightarrow> inv_state \<Rightarrow> inv_state \<Rightarrow> bool" for sha256 K where
  Begin: "accept_begin sha256 order now req (is_links x) = Inr link \<Longrightarrow> in_flight x < K \<Longrightarrow>
    inv_step sha256 K x (x\<lparr>is_joining := (link, ai_UserID req) # is_joining x\<rparr>)"
| Join: "(link, u) \<in> set (is_joining x) \<Longrightarrow>
    inv_step sha256 K x (x\<lparr>is_auth := accept_join t1 t2 link u (is_auth x),
      is_joining := remove1 (link, u) (is_joining x), is_counting := link # is_counting x\<rparr>)"
| Count: "link \<in> set (is_counting x) \<Longrightarrow>
    inv_step sha256 K x (x\<lparr>is_links := ils_IncrementUses now (il_ID link) (is_links x),
      is_counting := remove1 link (is_counting x), is_accepted := il_ID link # is_accepted x\<rparr>)"
| Deactivate_read: "ils_Get i (is_links x) = Some link \<Longrightarrow>
    inv_step sha256 K x (x\<lparr>is_deactivating := link # is_deactivating x\<rparr>)"
| Deactivate_write: "link \<in> set (is_deactivating x) \<Longrightarrow>
    inv_step sha256 K x (x\<lparr>is_links := deactivate_write now link (is_links x),
      is_deactivating := remove1 link (is_deactivating x)\<rparr>)"
| Create: "uuid \<notin> is_used x \<Longrightarrow> CreateInvitationLink sha256 random uuid now req (is_links x) = (res, links') \<Longrightarrow>
    inv_step sha256 K x (x\<lparr>is_links := links', is_used := insert uuid (is_used x)\<rparr>)"
| Delete: "inv_step sha256 K x (x\<lparr>is_links := ils_Delete i (is_links x)\<rparr>)"

text \<open>The acceptances of a link that are finished or in flight.\<close>

definition claims_on :: "string \<Rightarrow> inv_state \<Rightarrow> int" where
  "claims_on i x = int (count_list (is_accepted x) i + count_list (map il_ID (is_counting x)) i +
     count_list (map (il_ID \<circ> fst) (is_joining x)) i)"

definition link_inv :: "string \<Rightarrow> int \<Rightarrow> nat \<Rightarrow> inv_state \<Rightarrow> bool" where
  "link_inv i m K x \<longleftrightarrow>
     i \<in> is_used x \<and> (\<forall>k link. is_links x k = Some link \<longrightarrow> il_ID link = k) \<and>
     (\<forall>link. is_links x i = Some link \<longrightarrow> il_MaxUses link = m \<and>
        (il_IsActive link \<longrightarrow> il_CurrentUses link = int (count_list (is_accepted x) i))) \<and>
     (\<forall>link\<in>set (is_deactivating x). il_ID link = i \<longrightarrow> il_MaxUses link = m) \<and>
     claims_on i x \<le> m + int K - 1"

lemma accept_begin_link:
  assumes "accept_begin sha256 order now req s = Inr link"
  shows "(\<exists>k. s k = Some link) \<and> il_IsValid now link"
proof -
  from assms have found: "find (\<lambda>link. il_Token link = hashInvitationToken sha256 (ai_Token req)) (List.map_filter s order) =
      Some link" and valid: "il_IsValid now link"
    by (auto simp: accept_begin_def ils_GetByToken_def split: option.splits if_splits)
  from found have "link \<in> set (List.map_filter s order)" by (metis find_Some_iff nth_mem)
  then show ?thesis using valid by (auto simp: List.map_filter_def)
qed

lemma count_list_remove1: "x \<in> set xs \<Longrightarrow> count_list (map f xs) a = count_list (map f (remove1 x xs)) a + (if f x = a then 1 else 0)"
  by (induction xs) auto

lemma il_valid_uses: "il_IsValid now link \<Longrightarrow> 0 < il_MaxUses link \<Longrightarrow> il_IsActive link \<and> il_CurrentUses link < il_MaxUses link"
  by (auto simp: il_IsValid_def split: if_splits)

lemma ils_IncrementUses_lookup:
  "ils_IncrementUses now j s k =
     (if k = j then map_option (\<lambda>l. l\<lparr>il_CurrentUses := il_CurrentUses l + 1, il_UpdatedAt := now\<rparr>) (s j) else s k)"
  by (simp add: ils_IncrementUses_def split: option.split)

lemma count_keeps:
  assumes inv: "link_inv i m K x" and link: "link \<in> set (is_counting x)"
  shows "link_inv i m K (x\<lparr>is_links := ils_IncrementUses now (il_ID link) (is_links x),
    is_counting := remove1 link (is_counting x), is_accepted := il_ID link # is_accepted x\<rparr>)" (is "link_inv i m K ?x")
proof -
  have "claims_on i ?x = claims_on i x"
    using count_list_remove1 [OF link, of il_ID i] by (simp add: claims_on_def)
  then show ?thesis
    using inv unfolding link_inv_def by (simp add: ils_IncrementUses_lookup) auto
qed

lemma inv_step_keeps:
  assumes step: "inv_step sha256 K x x'" and inv: "link_inv i m K x" and "0 < m"
  shows "link_inv i m K x'"
  using step
proof cases
  case (Begin order now req link)
  obtain k where k: "is_links x k = Some link" and valid: "il_IsValid now link" using accept_begin_link [OF Begin(2)] by blast
  have "claims_on i x + (if il_ID link = i then 1 else 0) \<le> m + int K - 1"
  proof (cases "il_ID link = i")
    case True
    with k inv have "is_links x i = Some link" by (auto simp: link_inv_def)
    with inv valid il_valid_uses [OF valid] \<open>0 < m\<close> have "int (count_list (is_accepted x) i) < m" by (auto simp: link_inv_def)
    moreover have "count_list (map il_ID (is_counting x)) i + count_list (map (il_ID \<circ> fst) (is_joining x)) i \<le> in_flight x"
      using count_le_length [of "map il_ID (is_counting x)" i] count_le_length [of "map (il_ID \<circ> fst) (is_joining x)" i]
      by (simp add: in_flight_def)
    ultimately show ?thesis using Begin(3) True by (simp add: claims_on_def)
  next
    case False
    then show ?thesis using inv by (simp add: link_inv_def)
  qed
  with inv Begin(1) show ?thesis by (auto simp: link_inv_def claims_on_def)
next
  case (Join link u t1 t2)
  then show ?thesis
    using inv count_list_remove1 [OF Join(2), of "il_ID \<circ> fst" i] by (auto simp: link_inv_def claims_on_def)
next
  case (Count link now)
  then show ?thesis using count_keeps [OF inv] by simp
next
  case (Deactivate_read k link)
  then show ?thesis using inv by (auto simp: link_inv_def claims_on_def ils_Get_def)
next
  case (Deactivate_write link now)
  then show ?thesis
    using inv by (auto simp: link_inv_def claims_on_def deactivate_write_def ils_Update_def dest: notin_set_remove1
        split: option.splits if_splits)
next
  case (Create uuid random now req res links')
  then show ?thesis
    using inv by (auto simp: link_inv_def claims_on_def CreateInvitationLink_def ils_Create_def Let_def split: sum.splits if_splits)
next
  case (Delete k)
  then show ?thesis using inv by (auto simp: link_inv_def claims_on_def ils_Delete_def split: if_splits)
qed

text \<open>
  \<^bold>\<open>C31\<close>. An invitation is accepted at most \<open>MaxUses\<close> times when acceptances follow one another, and
  at most \<open>MaxUses + K - 1\<close> times when up to \<open>K\<close> of them run at the same time, whatever other
  invitations are created, accepted, deactivated or deleted meanwhile. More than \<open>MaxUses\<close>
  happens: the check and the counting are separate critical sections.
\<close>

theorem invitation_uses_bounded:
  assumes "(inv_step sha256 K)\<^sup>*\<^sup>* x x'" and "is_links x i = Some link" and "0 < il_MaxUses link"
    and "il_CurrentUses link = 0" and "1 \<le> K" and "i \<in> is_used x"
    and "is_joining x = []" and "is_counting x = []" and "is_deactivating x = []" and "is_accepted x = []"
    and "\<forall>k link. is_links x k = Some link \<longrightarrow> il_ID link = k"
  shows "int (count_list (is_accepted x') i) \<le> il_MaxUses link + int K - 1"
proof -
  have "link_inv i (il_MaxUses link) K x" using assms(2-) by (simp add: link_inv_def claims_on_def)
  with assms(1) have "link_inv i (il_MaxUses link) K x'"
  proof (induction rule: rtranclp_induct)
    case (step y z)
    then show ?case by (intro inv_step_keeps [OF step(2) _ assms(3)])
  qed
  then show ?thesis by (simp add: link_inv_def claims_on_def)
qed

text \<open>A link for one use that two acceptances use at the same time.\<close>

definition single_use :: InvitationLink where
  "single_use =
     \<lparr>il_ID = ''i'', il_Token = [], il_TokenHash = [], il_TeamID = Some ''t'', il_OrganizationID = None, il_Role = ''user'',
      il_MaxUses = 1, il_CurrentUses = 0, il_MaxBudget = None, il_ExpiresAt = None, il_IsActive = True,
      il_CreatedBy = ''admin'', il_CreatedAt = 0, il_UpdatedAt = 0, il_Description = [], il_Metadata = Map.empty\<rparr>"

definition invited :: inv_state where
  "invited =
     \<lparr>is_links = [''i'' \<mapsto> single_use], is_auth = NewMemoryStore, is_joining = [], is_counting = [],
      is_deactivating = [], is_accepted = [], is_used = {''i''}\<rparr>"

definition empty_token :: "string \<Rightarrow> AcceptInvitationRequest" where
  "empty_token u = \<lparr>ai_Token = [], ai_UserID = u, ai_Email = []\<rparr>"

lemma single_use_begins:
  "is_links x ''i'' = Some single_use \<Longrightarrow> accept_begin id [''i''] 0 (empty_token u) (is_links x) = Inr single_use"
  by (simp add: accept_begin_def ils_GetByToken_def List.map_filter_def hashInvitationToken_def HashKey_def
      hex_EncodeToString_def empty_token_def single_use_def il_IsValid_def)

lemma overused:
  "\<exists>x. (inv_step id 2)\<^sup>*\<^sup>* invited x \<and> is_accepted x = [''i'', ''i'']"
proof -
  let ?l = single_use
  define x1 where "x1 = invited\<lparr>is_joining := [(?l, ''a'')]\<rparr>"
  define x2 where "x2 = x1\<lparr>is_joining := (?l, ''b'') # is_joining x1\<rparr>"
  define x3 where "x3 = x2\<lparr>is_auth := accept_join 0 0 ?l ''b'' (is_auth x2), is_joining := [(?l, ''a'')], is_counting := [?l]\<rparr>"
  define x4 where "x4 = x3\<lparr>is_auth := accept_join 0 0 ?l ''a'' (is_auth x3), is_joining := [], is_counting := [?l, ?l]\<rparr>"
  define x5 where "x5 = x4\<lparr>is_links := ils_IncrementUses 0 ''i'' (is_links x4), is_counting := [?l], is_accepted := [''i'']\<rparr>"
  define x6 where "x6 = x5\<lparr>is_links := ils_IncrementUses 0 ''i'' (is_links x5), is_counting := [], is_accepted := [''i'', ''i'']\<rparr>"
  note defs = x1_def x2_def x3_def x4_def x5_def x6_def invited_def
  have i: "il_ID ?l = ''i''" by (simp add: single_use_def)
  have "inv_step id 2 invited x1" "inv_step id 2 x1 x2"
    using inv_step.Begin [where K = 2, OF single_use_begins [of invited "''a''"]]
      inv_step.Begin [where K = 2, OF single_use_begins [of x1 "''b''"]]
    by (simp_all add: defs in_flight_def empty_token_def)
  moreover have "inv_step id 2 x2 x3" "inv_step id 2 x3 x4"
    using inv_step.Join [of ?l "''b''" x2 id 2 0 0] inv_step.Join [of ?l "''a''" x3 id 2 0 0] by (simp_all add: defs)
  moreover have "inv_step id 2 x4 x5" "inv_step id 2 x5 x6"
    using inv_step.Count [of ?l x4 id 2 0] inv_step.Count [of ?l x5 id 2 0] i by (simp_all add: defs)
  ultimately have "(inv_step id 2)\<^sup>*\<^sup>* invited x6"
    by (meson converse_rtranclp_into_rtranclp rtranclp.rtrancl_refl)
  then show ?thesis by (intro exI [of _ x6]) (simp add: x6_def)
qed

theorem invitation_uses_bounded_witness:
  "\<exists>x. (inv_step id 2)\<^sup>*\<^sup>* invited x \<and> count_list (is_accepted x) ''i'' = 2 \<and>
     int (count_list (is_accepted x) ''i'') \<le> il_MaxUses single_use + int 2 - 1"
proof -
  obtain x where x: "(inv_step id 2)\<^sup>*\<^sup>* invited x" "is_accepted x = [''i'', ''i'']" using overused by blast
  have "int (count_list (is_accepted x) ''i'') \<le> il_MaxUses single_use + int 2 - 1"
    by (rule invitation_uses_bounded [OF x(1)]) (auto simp: invited_def single_use_def split: if_splits)
  with x show ?thesis by (intro exI [of _ x]) simp
qed

end
