(* ===== verification/Sessions.thy ===== *)
theory Sessions
  imports Auth_Keys
begin

text \<open>
  Browser sessions (\<open>internal/auth/session.go\<close>, \<open>session_middleware.go\<close>): the cookies of sessions and
  of the OIDC state, their encryption, and the middleware that turns a session into an
  authentication context; and where a login redirects to (\<open>internal/api/auth_endpoints.go\<close>). The
  cipher AES-GCM and the JSON forms are parameters.
\<close>

section \<open>Sessions and cookies\<close>

record Session =
  se_UserID :: string
  se_Email :: string
  se_Role :: UserRole
  se_TeamID :: string
  se_TeamIDs :: "string list"
  se_OrganizationID :: string
  se_EndUserID :: string
  se_SSOUserID :: string
  se_IssuedAt :: go_time
  se_ExpiresAt :: go_time

record OIDCState =
  os_State :: string
  os_Nonce :: string
  os_CodeVerifier :: string
  os_Redirect :: string
  os_ExpiresAt :: go_time

datatype SameSite = SameSiteLaxMode | SameSiteStrictMode | SameSiteNoneMode

record Cookie =
  ck_Name :: string
  ck_Value :: string
  ck_Path :: string
  ck_Domain :: string
  ck_Secure :: bool
  ck_HttpOnly :: bool
  ck_SameSite :: SameSite
  ck_Expires :: go_time
  ck_MaxAge :: int

record SessionManagerConfig =
  sm_Secret :: string
  sm_CookieName :: string
  sm_StateCookieName :: string
  sm_CookieDomain :: string
  sm_CookiePath :: string
  sm_CookieSecure :: bool
  sm_CookieSameSite :: string
  sm_TTL :: go_duration
  sm_StateTTL :: go_duration

record SessionManager =
  sg_cookieName :: string
  sg_stateCookieName :: string
  sg_domain :: string
  sg_path :: string
  sg_secure :: bool
  sg_sameSite :: SameSite
  sg_ttl :: go_duration
  sg_stateTTL :: go_duration

datatype session_error = ErrSessionNotFound | ErrSessionExpired | ErrSessionInvalid

datatype state_error = ErrStateNotFound | ErrStateExpired | ErrStateInvalid

text \<open>\<open>strings.ToLower\<close> on the ASCII letters; other letters are not modelled.\<close>

definition ascii_lower :: "string \<Rightarrow> string" where
  "ascii_lower s = map (\<lambda>c. if 65 \<le> (of_char c :: nat) \<and> (of_char c :: nat) \<le> 90 then char_of ((of_char c :: nat) + 32) else c) s"

definition parseSameSite :: "string \<Rightarrow> SameSite" where
  "parseSameSite v =
     (let w = ascii_lower (TrimSpace v)
      in if w = ''strict'' then SameSiteStrictMode else if w = ''none'' then SameSiteNoneMode else SameSiteLaxMode)"

definition NewSessionManager :: "SessionManagerConfig \<Rightarrow> SessionManager option" where
  "NewSessionManager cfg =
     (if TrimSpace (sm_Secret cfg) = [] then None
      else Some
        \<lparr>sg_cookieName = (let n = TrimSpace (sm_CookieName cfg) in if n = [] then ''llmux_session'' else n),
         sg_stateCookieName = (let n = TrimSpace (sm_StateCookieName cfg) in if n = [] then ''llmux_oidc_state'' else n),
         sg_domain = TrimSpace (sm_CookieDomain cfg),
         sg_path = (let p = TrimSpace (sm_CookiePath cfg) in if p = [] then ''/'' else p),
         sg_secure = sm_CookieSecure cfg, sg_sameSite = parseSameSite (sm_CookieSameSite cfg),
         sg_ttl = (if sm_TTL cfg \<le> 0 then 12 * hour else sm_TTL cfg),
         sg_stateTTL = (if sm_StateTTL cfg \<le> 0 then 10 * minute else sm_StateTTL cfg)\<rparr>)"

text \<open>The seconds of \<open>MaxAge\<close> are truncated towards zero.\<close>

definition buildCookie :: "SessionManager \<Rightarrow> go_time \<Rightarrow> string \<Rightarrow> string \<Rightarrow> go_time \<Rightarrow> Cookie" where
  "buildCookie m now nm v expiresAt =
     (let c = \<lparr>ck_Name = nm, ck_Value = v, ck_Path = sg_path m, ck_Domain = sg_domain m, ck_Secure = sg_secure m,
               ck_HttpOnly = True, ck_SameSite = sg_sameSite m, ck_Expires = zero_time, ck_MaxAge = 0\<rparr>
      in if expiresAt = zero_time then c
         else let maxAge = go_div (expiresAt - now) second
              in c\<lparr>ck_Expires := expiresAt, ck_MaxAge := (if maxAge < 0 then - 1 else maxAge)\<rparr>)"

section \<open>The codec\<close>

text \<open>
  \<open>base64.RawURLEncoding.DecodeString\<close>: line breaks are skipped, other foreign characters and a
  single left-over character are errors, and left-over bits are dropped.
\<close>

definition base64_digit :: "char \<Rightarrow> nat option" where
  "base64_digit c = find (\<lambda>i. base64_alphabet ! i = c) [0..<64]"

definition base64_DecodeString :: "string \<Rightarrow> string option" where
  "base64_DecodeString s =
     (let digits = map base64_digit (filter (\<lambda>c. c \<noteq> CHR 0x0D \<and> c \<noteq> CHR 0x0A) s)
      in if None \<in> set digits \<or> length digits mod 4 = 1 then None
         else Some (map char_of (unsextets (map the digits))))"

text \<open>
  The cipher under the manager's key: \<open>Seal\<close> and \<open>Open\<close> with a nonce of \<open>NonceSize\<close> bytes; and
  the JSON forms of the two payloads.
\<close>

record cookieCodec =
  cd_Seal :: "string \<Rightarrow> string \<Rightarrow> string"
  cd_Open :: "string \<Rightarrow> string \<Rightarrow> string option"
  cd_NonceSize :: nat
  cd_MarshalSession :: "Session \<Rightarrow> go_error + string"
  cd_UnmarshalSession :: "string \<Rightarrow> Session option"
  cd_MarshalState :: "OIDCState \<Rightarrow> go_error + string"
  cd_UnmarshalState :: "string \<Rightarrow> OIDCState option"

definition codec_encode :: "cookieCodec \<Rightarrow> go_error + string \<Rightarrow> go_error + string \<Rightarrow> go_error + string" where
  "codec_encode cd random marshalled =
     (case marshalled of
        Inl err \<Rightarrow> Inl (WrappedErr ''encode payload'' err)
      | Inr payload \<Rightarrow>
          (case random of
             Inl err \<Rightarrow> Inl (WrappedErr ''generate nonce'' err)
           | Inr nonce \<Rightarrow> Inr (base64_EncodeToString (nonce @ cd_Seal cd nonce payload))))"

definition codec_open :: "cookieCodec \<Rightarrow> string \<Rightarrow> string option" where
  "codec_open cd token =
     (if TrimSpace token = [] then None
      else case base64_DecodeString token of
             None \<Rightarrow> None
           | Some raw \<Rightarrow>
               if length raw < cd_NonceSize cd then None
               else cd_Open cd (take (cd_NonceSize cd) raw) (drop (cd_NonceSize cd) raw))"

section \<open>Operations\<close>

definition sg_Set ::
  "cookieCodec \<Rightarrow> SessionManager \<Rightarrow> go_error + string \<Rightarrow> go_time \<Rightarrow> go_time \<Rightarrow> Session option \<Rightarrow> go_error + Session \<times> Cookie" where
  "sg_Set cd m random now now2 session =
     (case session of
        None \<Rightarrow> Inl (PlainErr ''session is nil'')
      | Some s \<Rightarrow>
          (let s = (if se_IssuedAt s = zero_time then s\<lparr>se_IssuedAt := now\<rparr> else s);
               s = (if se_ExpiresAt s = zero_time then s\<lparr>se_ExpiresAt := now + sg_ttl m\<rparr> else s)
           in case codec_encode cd random (cd_MarshalSession cd s) of
                Inl err \<Rightarrow> Inl err
              | Inr v \<Rightarrow> Inr (s, buildCookie m now2 (sg_cookieName m) v (se_ExpiresAt s))))"

text \<open>The cookies of a request are pairs of a name and a value; the first of a name counts.\<close>

definition sg_Get :: "cookieCodec \<Rightarrow> SessionManager \<Rightarrow> go_time \<Rightarrow> (string \<times> string) list \<Rightarrow> session_error + Session" where
  "sg_Get cd m now cookies =
     (case map_of cookies (sg_cookieName m) of
        None \<Rightarrow> Inl ErrSessionNotFound
      | Some v \<Rightarrow>
          (case Option.bind (codec_open cd v) (cd_UnmarshalSession cd) of
             None \<Rightarrow> Inl ErrSessionInvalid
           | Some s \<Rightarrow>
               if se_ExpiresAt s = zero_time then Inl ErrSessionInvalid
               else if now > se_ExpiresAt s then Inl ErrSessionExpired
               else Inr s))"

definition sg_Clear :: "SessionManager \<Rightarrow> go_time \<Rightarrow> Cookie" where
  "sg_Clear m now = (buildCookie m now (sg_cookieName m) [] zero_time)\<lparr>ck_MaxAge := - 1\<rparr>"

definition sg_SetState ::
  "cookieCodec \<Rightarrow> SessionManager \<Rightarrow> go_error + string \<Rightarrow> go_time \<Rightarrow> go_time \<Rightarrow> OIDCState option \<Rightarrow> go_error + OIDCState \<times> Cookie" where
  "sg_SetState cd m random now now2 state =
     (case state of
        None \<Rightarrow> Inl (PlainErr ''state is nil'')
      | Some s \<Rightarrow>
          (let s = (if os_ExpiresAt s = zero_time then s\<lparr>os_ExpiresAt := now + sg_stateTTL m\<rparr> else s)
           in case codec_encode cd random (cd_MarshalState cd s) of
                Inl err \<Rightarrow> Inl err
              | Inr v \<Rightarrow> Inr (s, buildCookie m now2 (sg_stateCookieName m) v (os_ExpiresAt s))))"

definition sg_GetState :: "cookieCodec \<Rightarrow> SessionManager \<Rightarrow> go_time \<Rightarrow> (string \<times> string) list \<Rightarrow> state_error + OIDCState" where
  "sg_GetState cd m now cookies =
     (case map_of cookies (sg_stateCookieName m) of
        None \<Rightarrow> Inl ErrStateNotFound
      | Some v \<Rightarrow>
          (case Option.bind (codec_open cd v) (cd_UnmarshalState cd) of
             None \<Rightarrow> Inl ErrStateInvalid
           | Some s \<Rightarrow>
               if os_ExpiresAt s = zero_time then Inl ErrStateInvalid
               else if now > os_ExpiresAt s then Inl ErrStateExpired
               else Inr s))"

definition sg_ClearState :: "SessionManager \<Rightarrow> go_time \<Rightarrow> Cookie" where
  "sg_ClearState m now = (buildCookie m now (sg_stateCookieName m) [] zero_time)\<lparr>ck_MaxAge := - 1\<rparr>"

section \<open>The middleware\<close>

definition strPtr :: "string \<Rightarrow> string option" where
  "strPtr s = (if s = [] then None else Some s)"

definition session_user :: "Session \<Rightarrow> User" where
  "session_user s =
     \<lparr>usr_ID = se_UserID s, usr_Alias = None, usr_Email = strPtr (se_Email s),
      usr_TeamID = (if se_TeamID s \<noteq> [] then strPtr (se_TeamID s) else None), usr_Teams = se_TeamIDs s,
      usr_OrganizationID = strPtr (se_OrganizationID s), usr_Role = se_Role s, usr_MaxBudget = 0, usr_Spend = 0,
      usr_ModelMaxBudget = Map.empty, usr_ModelSpend = Map.empty, usr_BudgetDuration = [], usr_BudgetResetAt = None,
      usr_TPMLimit = None, usr_RPMLimit = None, usr_MaxParallelRequests = None, usr_Models = [], usr_IsActive = False,
      usr_Metadata = Map.empty, usr_CreatedAt = None, usr_UpdatedAt = None\<rparr>"

definition session_context :: "Session \<Rightarrow> AuthContext" where
  "session_context s =
     \<lparr>ac_APIKey = None, ac_Team = None, ac_User = Some (session_user s), ac_RequestID = [], ac_UserRole = se_Role s,
      ac_EndUserID = se_EndUserID s, ac_SSOUserID = se_SSOUserID s, ac_JWTTeamIDs = se_TeamIDs s,
      ac_JWTOrgID = se_OrganizationID s\<rparr>"

text \<open>The context that the next handler sees, and the cookie that is set, if any.\<close>

definition SessionMiddleware ::
  "cookieCodec \<Rightarrow> SessionManager option \<Rightarrow> go_time \<Rightarrow> go_time \<Rightarrow> string \<Rightarrow> (string \<times> string) list \<Rightarrow> AuthContext option \<Rightarrow>
   AuthContext option \<times> Cookie option" where
  "SessionMiddleware cd manager now now2 authorization cookies ctx =
     (case manager of
        None \<Rightarrow> (ctx, None)
      | Some m \<Rightarrow>
          if ctx \<noteq> None then (ctx, None)
          else if TrimSpace authorization \<noteq> [] then (ctx, None)
          else case sg_Get cd m now cookies of
                 Inl err \<Rightarrow>
                   (ctx, if err = ErrSessionExpired \<or> err = ErrSessionInvalid then Some (sg_Clear m now2) else None)
               | Inr s \<Rightarrow> if se_UserID s = [] then (ctx, None) else (Some (session_context s), None))"

section \<open>Redirects\<close>

definition sanitizeRedirect :: "string \<Rightarrow> string" where
  "sanitizeRedirect v =
     (let w = TrimSpace v
      in if w = [] then [] else if prefix ''//'' w then [] else if prefix ''/'' w then w else [])"

section \<open>Properties\<close>

lemma base64_digit_alphabet: "i < 64 \<Longrightarrow> base64_digit (base64_alphabet ! i) = Some i"
proof -
  assume i: "i < 64"
  have "base64_alphabet ! j \<noteq> base64_alphabet ! i" if "j < i" for j
    using base64_alphabet_facts(1,2) that i by (simp add: nth_eq_iff_index_eq)
  with i show ?thesis unfolding base64_digit_def find_Some_iff by (intro exI [of _ i]) auto
qed

lemma sextets_length: "length (sextets bs) mod 4 \<noteq> 1"
  by (induction bs rule: sextets.induct) (auto simp: mod_Suc)

lemma base64_roundtrip: "base64_DecodeString (base64_EncodeToString bs) = Some bs"
proof -
  let ?ds = "sextets (map of_char bs)"
  have bound: "\<forall>i\<in>set ?ds. i < 64" by (rule sextets_bound) simp
  have "c \<noteq> CHR 0x0D \<and> c \<noteq> CHR 0x0A" if "c \<in> set (base64_EncodeToString bs)" for c
  proof -
    from that bound have "c \<in> set base64_alphabet"
      using base64_alphabet_facts(1) by (auto simp: base64_EncodeToString_def)
    then have "32 < (of_char c :: nat)" using base64_alphabet_facts(3) by blast
    then show ?thesis by auto
  qed
  then have "filter (\<lambda>c. c \<noteq> CHR 0x0D \<and> c \<noteq> CHR 0x0A) (base64_EncodeToString bs) = base64_EncodeToString bs"
    by (simp add: filter_id_conv)
  moreover have "map base64_digit (base64_EncodeToString bs) = map Some ?ds"
    using bound by (simp add: base64_EncodeToString_def base64_digit_alphabet)
  moreover have "map char_of (unsextets ?ds) = bs" by (simp add: unsextets_sextets comp_def)
  ultimately show ?thesis using sextets_length [of "map of_char bs"] by (auto simp: base64_DecodeString_def)
qed

text \<open>
  What is relied upon of the JSON forms: decoding undoes the encoding of the issued sessions, and
  the form of a state, which has no \<open>user_id\<close>, leaves the user of a session empty.
\<close>

definition json_laws :: "cookieCodec \<Rightarrow> Session set \<Rightarrow> bool" where
  "json_laws cd issued \<longleftrightarrow>
     (\<forall>s\<in>issued. \<forall>p. cd_MarshalSession cd s = Inr p \<longrightarrow> cd_UnmarshalSession cd p = Some s) \<and>
     (\<forall>st p s. cd_MarshalState cd st = Inr p \<longrightarrow> cd_UnmarshalSession cd p = Some s \<longrightarrow> se_UserID s = [])"

lemma codec_roundtrip:
  assumes "length nonce = cd_NonceSize cd" and "0 < cd_NonceSize cd"
    and "cd_Open cd nonce (cd_Seal cd nonce payload) = Some payload" and "codec_encode cd (Inr nonce) (Inr payload) = Inr token"
  shows "codec_open cd token = Some payload"
proof -
  have token: "token = base64_EncodeToString (nonce @ cd_Seal cd nonce payload)" using assms(4) by (simp add: codec_encode_def)
  have dec: "base64_DecodeString token = Some (nonce @ cd_Seal cd nonce payload)" unfolding token by (rule base64_roundtrip)
  have "c \<in> set token \<Longrightarrow> 32 < (of_char c :: nat) \<and> (of_char c :: nat) < 128" for c
    using base64_alphabet_facts sextets_bound [of "map of_char (nonce @ cd_Seal cd nonce payload)"]
    by (force simp: token base64_EncodeToString_def)
  then have "TrimSpace token = token" by (intro TrimSpace_printable) blast
  moreover have "token \<noteq> []" using dec assms(1,2) by (auto simp: base64_DecodeString_def)
  ultimately show ?thesis using dec assms(1,3) by (simp add: codec_open_def)
qed

text \<open>
  A session cookie that \<open>Set\<close> has made is read back by \<open>Get\<close> until it expires, with the defaults
  filled in.
\<close>

lemma session_cookie_roundtrip:
  assumes "json_laws cd {s'}" and "length nonce = cd_NonceSize cd" and "0 < cd_NonceSize cd"
    and "\<And>payload. cd_Open cd nonce (cd_Seal cd nonce payload) = Some payload"
    and "sg_Set cd m (Inr nonce) t1 t2 (Some s) = Inr (s', c)"
    and "se_ExpiresAt s' \<noteq> zero_time" and "now \<le> se_ExpiresAt s'"
  shows "sg_Get cd m now ((ck_Name c, ck_Value c) # cookies) = Inr s'"
proof -
  from assms(5) obtain v where v: "codec_encode cd (Inr nonce) (cd_MarshalSession cd s') = Inr v"
    "c = buildCookie m t2 (sg_cookieName m) v (se_ExpiresAt s')"
    by (auto simp: sg_Set_def Let_def split: sum.splits if_splits)
  then obtain p where p: "cd_MarshalSession cd s' = Inr p" by (auto simp: codec_encode_def split: sum.splits)
  with v(1) have "codec_open cd v = Some p" by (intro codec_roundtrip [OF assms(2,3,4)]) simp
  then show ?thesis using assms(1,6,7) v(2) p by (simp add: sg_Get_def buildCookie_def json_laws_def Let_def)
qed

text \<open>
  \<^bold>\<open>C24\<close>. Sessions cannot be forged. If the cipher opens only what the server has sealed, which are
  the sessions it has issued and the states of logins, then a request that is given an
  authentication context by its cookies has that of an issued session of a user that has not
  expired, whatever cookies it carries. In particular the state cookie, which anyone gets by
  starting a login and which is sealed with the same key, does not pass for a session.
\<close>

theorem session_unforgeable:
  assumes "json_laws cd issued"
    and "\<forall>nonce c payload. cd_Open cd nonce c = Some payload \<longrightarrow>
      (\<exists>s\<in>issued. cd_MarshalSession cd s = Inr payload) \<or> (\<exists>st. cd_MarshalState cd st = Inr payload)"
    and "SessionMiddleware cd manager now now2 authorization cookies None = (Some ctx, set_cookie)"
  shows "\<exists>s\<in>issued. ctx = session_context s \<and> se_UserID s \<noteq> [] \<and> now \<le> se_ExpiresAt s"
proof -
  from assms(3) obtain m s where get: "sg_Get cd m now cookies = Inr s" and s: "se_UserID s \<noteq> []" "ctx = session_context s"
    by (auto simp: SessionMiddleware_def split: option.splits if_splits sum.splits)
  from get obtain v payload where payload: "codec_open cd v = Some payload" "cd_UnmarshalSession cd payload = Some s"
    and live: "now \<le> se_ExpiresAt s"
    by (auto simp: sg_Get_def bind_eq_Some_conv split: option.splits if_splits)
  from payload(1) obtain nonce c where "cd_Open cd nonce c = Some payload"
    by (auto simp: codec_open_def split: option.splits if_splits)
  with assms(2) consider s' where "s' \<in> issued" "cd_MarshalSession cd s' = Inr payload" | st where "cd_MarshalState cd st = Inr payload"
    by blast
  then show ?thesis
  proof cases
    case 1
    with assms(1) payload(2) have "s = s'" by (auto simp: json_laws_def)
    with 1 s live show ?thesis by blast
  next
    case 2
    with assms(1) payload(2) have "se_UserID s = []" by (auto simp: json_laws_def)
    with s(1) show ?thesis by simp
  qed
qed

text \<open>A redirect stays on the gateway's path or is dropped; it never names another host by \<open>//\<close>.\<close>

lemma sanitizeRedirect_local:
  "sanitizeRedirect v = [] \<or> (\<exists>rest. sanitizeRedirect v = CHR ''/'' # rest \<and> (rest = [] \<or> hd rest \<noteq> CHR ''/''))"
proof -
  have "rest = [] \<or> hd rest \<noteq> CHR ''/''" if "\<not> prefix ''//'' (CHR ''/'' # rest)" for rest
    using that by (cases rest) auto
  then show ?thesis by (auto simp: sanitizeRedirect_def Let_def prefix_def)
qed

text \<open>A session of one user, under a cipher and forms that know nothing else.\<close>

definition alice :: Session where
  "alice =
     \<lparr>se_UserID = ''alice'', se_Email = [], se_Role = ''user'', se_TeamID = [], se_TeamIDs = [], se_OrganizationID = [],
      se_EndUserID = [], se_SSOUserID = [], se_IssuedAt = 1, se_ExpiresAt = 100\<rparr>"

definition demo_cookies :: cookieCodec where
  "demo_cookies =
     \<lparr>cd_Seal = (\<lambda>_ p. p), cd_Open = (\<lambda>_ c. if c = ''alice'' \<or> c = ''state'' then Some c else None), cd_NonceSize = 1,
      cd_MarshalSession = (\<lambda>_. Inr ''alice''), cd_UnmarshalSession = (\<lambda>p. if p = ''alice'' then Some alice else None),
      cd_MarshalState = (\<lambda>_. Inr ''state''), cd_UnmarshalState = (\<lambda>_. None)\<rparr>"

definition demo_manager :: SessionManager where
  "demo_manager =
     \<lparr>sg_cookieName = ''llmux_session'', sg_stateCookieName = ''llmux_oidc_state'', sg_domain = [], sg_path = ''/'',
      sg_secure = True, sg_sameSite = SameSiteLaxMode, sg_ttl = 12 * hour, sg_stateTTL = 10 * minute\<rparr>"

lemma demo_session_read:
  "sg_Get demo_cookies demo_manager 50 [(''llmux_session'', base64_EncodeToString ''nalice'')] = Inr alice"
proof -
  have "codec_encode demo_cookies (Inr ''n'') (Inr ''alice'') = Inr (base64_EncodeToString ''nalice'')"
    by (simp add: codec_encode_def demo_cookies_def)
  then have "codec_open demo_cookies (base64_EncodeToString ''nalice'') = Some ''alice''"
    by (rule codec_roundtrip [rotated 3]) (simp_all add: demo_cookies_def)
  then show ?thesis by (simp add: sg_Get_def demo_manager_def) (simp add: demo_cookies_def alice_def)
qed

theorem session_unforgeable_witness:
  "\<exists>s\<in>{alice}. fst (SessionMiddleware demo_cookies (Some demo_manager) 50 51 []
      [(''llmux_session'', base64_EncodeToString ''nalice'')] None) = Some (session_context s) \<and>
     se_UserID s \<noteq> [] \<and> 50 \<le> se_ExpiresAt s"
proof -
  have empty: "TrimSpace [] = []" by (rule TrimSpace_printable) simp
  have mw: "SessionMiddleware demo_cookies (Some demo_manager) 50 51 []
      [(''llmux_session'', base64_EncodeToString ''nalice'')] None = (Some (session_context alice), None)"
    by (simp add: SessionMiddleware_def demo_session_read empty) (simp add: alice_def)
  have "json_laws demo_cookies {alice}" by (simp add: json_laws_def demo_cookies_def)
  from session_unforgeable [OF this _ mw] mw show ?thesis by (simp add: demo_cookies_def)
qed

end
