(* ===== verification/Spec2Isabelle.thy ===== *)
theory Spec2Isabelle
  imports Adaptive_Limiter Resilience_Manager Router_Properties Dual_Cache Builtin_Plugins Key_Management Governance_Properties Invitations Sessions
begin

text \<open>
  \<^bold>\<open>llmux\<close> is a gateway for large language models written in Go. A request enters through an HTTP
  handler, is authenticated and checked against budgets and rate limits, is routed to one of
  several deployments of a model, is executed with retries and fallbacks under concurrency
  limits, may be answered from a cache, and is charged to its owners afterwards. This library
  models these parts and proves what they guarantee. Paths below are relative to \<open>src/\<close>.

  \<^bold>\<open>How Go is read.\<close> \<open>Go_Prelude\<close> fixes the conventions: times and durations are integers
  (nanoseconds since Go's zero time), every reading of the clock is a separate argument, random
  draws are an explicit stream, \<open>float64\<close> is \<open>real\<close>, counters are \<open>int\<close> with \<open>wrap64\<close> where 64 bits
  matter, strings are lists of bytes, maps are partial functions or finite maps, the order of a
  map iteration is an explicit list, a pointer that may be nil is an option, and a panic is a
  value of the result type. Objects that two indexes share by pointer live in an explicit heap
  (\<open>Auth_Store\<close>). A mutex makes the section it protects one step; where an operation has several
  sections they are separate steps (\<open>Counting_Semaphore\<close>, \<open>Memory_Cache\<close>). Interfaces of the
  program are records of functions over a state, and the laws that clients rely on are locales,
  each interpreted on the implementation of the program. Third-party code (the Casbin enforcer,
  the token bucket of \<open>x/time/rate\<close>, Redis, providers, user plugins) is a parameter, and so are
  SHA-256, AES-GCM and the JSON and date formats; what is relied upon of them is a hypothesis of
  the theorem that needs it.

  \<^bold>\<open>Resilience\<close> (\<open>internal/resilience\<close>). \<open>Circuit_Breaker\<close>, \<open>Token_Bucket\<close>, \<open>Adaptive_Limiter\<close>,
  \<open>Counting_Semaphore\<close> and \<open>Resilience_Manager\<close> model one file each. Shown: the breaker opens at
  exactly the configured number of failures, admits nothing before its timeout, bounds its probes
  and recovers; the bucket never grants more than burst plus rate times time; the limits of the
  adaptive limiter stay in range; the semaphore grants no more permits than its capacity in
  every interleaving, but can lose a permit or a wake-up.

  \<^bold>\<open>Routing\<close> (\<open>routers\<close>, \<open>pkg/router\<close>, \<open>pkg/pricing\<close>). \<open>Router_Types\<close>, \<open>Failure_Window\<close>, \<open>Stats_Store\<close>,
  \<open>Pricing\<close>, \<open>Base_Router\<close>, \<open>Round_Robin\<close> and \<open>Router_Strategies\<close> model the state that the
  strategies share and the strategies; \<open>Router_Properties\<close> has the properties. Shown: the ring of
  buckets refines the plain history of outcomes; no strategy picks a deployment in cooldown; a
  rate-limited deployment rests; a pick succeeds exactly when a deployment is usable; round robin
  is fair; each strategy picks what its name says; tenants are isolated.

  \<^bold>\<open>Caches\<close> (\<open>caches\<close>). \<open>Expiration_Heap\<close>, \<open>Memory_Cache\<close> and \<open>Dual_Cache\<close>. Shown: the heap sorts;
  every answer of the cache is that of an unbounded map with expiry, or a miss, and exactly that
  below the capacity; the two-tier cache extends lifetimes.

  \<^bold>\<open>Client\<close> (\<open>client.go\<close>, \<open>routing_context.go\<close>, \<open>pkg/errors\<close>). \<open>Llm_Errors\<close>, \<open>Client_Core\<close> and
  \<open>Client_Properties\<close>: rate-limit checks, back-off, permits, one exchange, retries and fallbacks.
  Shown: permits and active counters are restored on every path; at most \<open>RetryCount + 1\<close>
  exchanges; the back-off is the capped exponential; what picks do not see of other requests.

  \<^bold>\<open>Chat completion and plugins\<close> (\<open>client.go\<close>, \<open>internal/plugin\<close>). \<open>Plugin_Pipeline\<close> has the
  registry of plugins, over an explicit store of the arrays that Go slices share, and the hooks
  around requests and streams; \<open>Plugin_Properties\<close> its properties. \<open>Chat_Completion\<close> is
  \<open>ChatCompletion\<close> as a whole with its cache key, and \<open>Chat_Properties\<close> relies on the cache through
  a locale that the cache in memory interprets. \<open>Builtin_Plugins\<close> has the rate limit and cache
  plugins. Shown: the registry is a stable sort by priority; hooks nest; a cached answer is an
  answer given before to the same tenant for the same request; refused requests leave the client
  as it was; and where early returns, unregistering during a request and the cache plugin break
  these.

  \<^bold>\<open>Access control\<close> (\<open>internal/auth\<close>,
  \<open>internal/api/management.go\<close>). \<open>Auth_Types\<close>, \<open>Auth_Store\<close>,
  \<open>Auth_Store_Properties\<close>, \<open>Auth_Keys\<close>, \<open>Auth_Access\<close>,
  \<open>Auth_Properties\<close>, \<open>Key_Management\<close>, \<open>Client_Address\<close>,
  \<open>Tenant_Limiter\<close>, \<open>Audit_Log\<close>, \<open>Invitations\<close> and
  \<open>Sessions\<close>: the entities, the store in memory, keys and their hashes, the middleware,
  regeneration, rotation and budget resets, the addresses of anonymous clients, rate limits per
  tenant, the audit log, invitation links and session cookies. Shown: the two indexes of the store
  refine one map; which requests are served; a revoked key stays rejected; generated keys are read
  back; forwarded addresses cannot be forged; tenants do not affect each other; the audit list is
  stably sorted; budgets are reset exactly when due; sessions cannot be forged; how often an
  invitation is accepted when acceptances interleave; and several ways in which restricting or
  regenerating a key has no effect.

  \<^bold>\<open>Governance\<close> (\<open>internal/governance\<close>, \<open>internal/observability/requestid.go\<close>). \<open>Governance\<close> and
  \<open>Governance_Properties\<close>: which requests are admitted; a request is charged once; the spend of a
  key is the sum of its log; a repeated request identifier is free; an end user of the context
  is charged but not checked.

  \<^bold>\<open>Bounds.\<close> Loops are structural or terminate by a measure; nothing runs on fuel. The retry loop
  recurses on the attempts left, the eviction loops on the size of the heap.

  \<^bold>\<open>Not modelled.\<close> Streams after their hooks:
  \<open>ChatCompletionStream\<close> and the reader of \<open>stream.go\<close>, which scans HTTP
  bodies and reopens them while its lock is released. Embeddings repeat the retry loop of
  completions, and the construction of a client is wiring. The HTTP handlers, the configuration
  loader, the vendors' JSON formats, the tokenizer, SQL and Redis stores (their state changes in
  statements and scripts that a server runs), OIDC, telemetry exporters and process wiring are I/O
  or clients of third-party code. Floating-point rounding and data races are not modelled either.
\<close>

end
